(* ===== verification/Prelude.thy ===== *)
theory Prelude
  imports Complex_Main "HOL-Library.AList"
begin

text \<open>
  Shared vocabulary of the development.  The program (\<open>src/pythonWeb.py\<close>) is Python, so
  the model needs Python's dictionaries, its exceptions and its dynamically typed values:
  \<^item> a \<open>dict\<close> is an association list in insertion order; \<open>d[k] = v\<close> is
    \<open>AList.update\<close>, which keeps the position of an existing key and appends a new key at the
    end, as CPython's dict does; \<open>d[k]\<close> and \<open>k in d\<close> read \<open>map_of\<close>;
  \<^item> an exception is a value of \<open>py_exc\<close>; a Python statement that mutates state and may
    raise is a function returning the state reached and \<open>py_exc + 'a\<close>, because the
    mutations done before the raise persist;
  \<^item> the values a reading can hold are \<open>pyval\<close>; Python's numeric view of them
    (\<open>bool\<close> is a subclass of \<open>int\<close>, \<open>str\<close> is not a number) is \<open>py_num\<close>.
  Python floats are modelled by \<open>real\<close>: the development does not model IEEE rounding.
\<close>

named_theorems py_defs "definitions of the modelled Python built-ins, unfolded to evaluate them"
named_theorems dict_simps "rewrite rules for association-list dictionaries"

type_synonym 'v pydict = "(string \<times> 'v) list"

abbreviation dict_set :: "string \<Rightarrow> 'v \<Rightarrow> 'v pydict \<Rightarrow> 'v pydict" where
  "dict_set \<equiv> AList.update"

abbreviation dict_keys :: "'v pydict \<Rightarrow> string list" where
  "dict_keys d \<equiv> map fst d"

datatype py_exc = KeyError string | TypeError | AttributeError | ValueError

type_synonym ('s, 'a) py_outcome = "'s \<times> (py_exc + 'a)"

datatype pyval = VInt int | VBool bool | VStr string | VFloat real | VNone

type_synonym reading = "pyval pydict"

text \<open>
  \<open>py_num v\<close> is the number Python uses when \<open>v\<close> takes part in \<open>+\<close>, \<open>-\<close> or
  \<open>>\<close> with a number: \<open>True\<close> counts as 1.  \<open>None\<close> is the \<open>TypeError\<close> that a
  string or \<open>None\<close> raises there.
\<close>

fun py_num :: "pyval \<Rightarrow> real option" where
  "py_num (VInt i) = Some (of_int i)"
| "py_num (VBool b) = Some (if b then 1 else 0)"
| "py_num (VFloat x) = Some x"
| "py_num (VStr s) = None"
| "py_num VNone = None"

lemma those_Some_length: "those xs = Some ys \<Longrightarrow> length ys = length xs"
  by (induction xs arbitrary: ys) (auto split: option.splits)

subsection \<open>Dictionaries\<close>

lemma map_of_dict_set [dict_simps]:
  "map_of (dict_set k v d) k' = (if k' = k then Some v else map_of d k')"
  by (simp add: update_conv')

lemma dict_keys_set_old [dict_simps]:
  "k \<in> set (dict_keys d) \<Longrightarrow> dict_keys (dict_set k v d) = dict_keys d"
  by (simp add: update_keys)

lemma dict_keys_set_new [dict_simps]:
  "k \<notin> set (dict_keys d) \<Longrightarrow> dict_keys (dict_set k v d) = dict_keys d @ [k]"
  by (simp add: update_keys)

lemma set_dict_keys_set [dict_simps]:
  "fst ` set (dict_set k v d) = insert k (fst ` set d)"
  by (simp add: dom_update)

lemma distinct_dict_set [dict_simps]:
  "distinct (dict_keys d) \<Longrightarrow> distinct (dict_keys (dict_set k v d))"
  by (rule distinct_update)

lemma list_all_dict_set:
  "list_all Q d \<Longrightarrow> Q (k, v) \<Longrightarrow> list_all Q (dict_set k v d)"
  by (induction d) auto

lemma map_of_Some_keyI: "map_of d k = Some v \<Longrightarrow> k \<in> fst ` set d"
  by (auto dest: map_of_SomeD intro: rev_image_eqI)

lemma map_of_None_iff: "map_of d k = None \<longleftrightarrow> k \<notin> fst ` set d"
  by (simp add: map_of_eq_None_iff)

text \<open>Building a dictionary key by key from distinct keys gives the list back.\<close>

lemma foldl_dict_set_distinct:
  "distinct (dict_keys (acc @ kvs)) \<Longrightarrow>
   foldl (\<lambda>d (k, v). dict_set k v d) acc kvs = acc @ kvs"
proof (induction kvs arbitrary: acc)
  case Nil
  then show ?case by simp
next
  case (Cons kv kvs)
  obtain k v where kv: "kv = (k, v)" by fastforce
  with Cons.prems have "k \<notin> set (dict_keys acc)" by auto
  then have "dict_set k v acc = acc @ [(k, v)]"
    by (induction acc) auto
  with Cons.IH [of "acc @ [(k, v)]"] Cons.prems kv show ?case by simp
qed

end
