(* ===== verification/Py_Str.thy ===== *)
theory Py_Str
  imports Prelude
begin

text \<open>
  The Python \<open>str\<close> built-ins that \<open>parse_line\<close> (\<open>src/pythonWeb.py\<close>, lines 75--90),
  the serial loop (line 107) and the relay write (line 129) call: \<open>strip\<close>, \<open>lower\<close>,
  \<open>isdigit\<close>, \<open>int\<close>, \<open>split\<close>, and \<open>str\<close> of an \<open>int\<close>.  A character is an
  Isabelle \<open>char\<close>, i.e. a code point below 256 (Latin-1); on that range the predicates
  follow CPython's Unicode tables: \<open>isspace\<close> also holds for U+001C..U+001F, U+0085 and
  U+00A0, \<open>lower\<close> also maps U+00C0..U+00DE (but U+00D7), and \<open>isdigit\<close> also holds
  for the superscripts U+00B2, U+00B3, U+00B9, which \<open>int\<close> then rejects.
  Decoding the serial bytes (\<open>decode('utf-8', errors='ignore')\<close>) is not modelled: the
  model starts from the decoded text.
\<close>

definition py_isspace :: "char \<Rightarrow> bool" where
  [py_defs]: "py_isspace c \<longleftrightarrow>
     (of_char c :: nat) \<in> {9, 10, 11, 12, 13, 28, 29, 30, 31, 32, 133, 160}"

definition py_strip :: "string \<Rightarrow> string" where
  [py_defs]: "py_strip s = rev (dropWhile py_isspace (rev (dropWhile py_isspace s)))"

definition py_lower_char :: "char \<Rightarrow> char" where
  [py_defs]: "py_lower_char c =
     (let n = (of_char c :: nat) in
      if (65 \<le> n \<and> n \<le> 90) \<or> (192 \<le> n \<and> n \<le> 222 \<and> n \<noteq> 215) then char_of (n + 32) else c)"

definition py_lower :: "string \<Rightarrow> string" where
  [py_defs]: "py_lower s = map py_lower_char s"

definition is_decimal :: "char \<Rightarrow> bool" where
  [py_defs]: "is_decimal c \<longleftrightarrow> (let n = (of_char c :: nat) in 48 \<le> n \<and> n \<le> 57)"

definition py_isdigit_char :: "char \<Rightarrow> bool" where
  [py_defs]: "py_isdigit_char c \<longleftrightarrow> is_decimal c \<or> (of_char c :: nat) \<in> {178, 179, 185}"

definition py_isdigit :: "string \<Rightarrow> bool" where
  [py_defs]: "py_isdigit s \<longleftrightarrow> s \<noteq> [] \<and> list_all py_isdigit_char s"

definition digit_val :: "char \<Rightarrow> nat" where
  [py_defs]: "digit_val c = (of_char c :: nat) - 48"

text \<open>
  \<open>int(s)\<close> on a string for which \<open>isdigit()\<close> holds (the only way \<open>parse_line\<close>
  calls it): it succeeds exactly when every character is an ASCII decimal digit, and
  raises \<open>ValueError\<close> (here \<open>None\<close>) on the superscript digits.
\<close>

definition py_int_digits :: "string \<Rightarrow> nat option" where
  [py_defs]: "py_int_digits s =
     (if s \<noteq> [] \<and> list_all is_decimal s
      then Some (foldl (\<lambda>acc c. 10 * acc + digit_val c) 0 s) else None)"

text \<open>\<open>s.split(c)\<close> with a one-character separator: never empty, empty fields kept.\<close>

fun py_split :: "char \<Rightarrow> string \<Rightarrow> string list" where
  "py_split c [] = [[]]"
| "py_split c (x # xs) =
     (if x = c then [] # py_split c xs
      else (case py_split c xs of [] \<Rightarrow> [[x]] | w # ws \<Rightarrow> (x # w) # ws))"

text \<open>\<open>c.join(ws)\<close>, the inverse of \<open>split\<close>.\<close>

fun py_join :: "char \<Rightarrow> string list \<Rightarrow> string" where
  "py_join c [] = []"
| "py_join c [w] = w"
| "py_join c (w # ws) = w @ c # py_join c ws"

text \<open>\<open>str(n)\<close> for an \<open>int\<close>, as the f-string \<open>f"{n}"\<close> prints it.\<close>

fun show_nat :: "nat \<Rightarrow> string" where
  "show_nat n =
     (if n < 10 then [char_of (48 + n)] else show_nat (n div 10) @ [char_of (48 + n mod 10)])"

declare show_nat.simps [simp del]

definition show_int :: "int \<Rightarrow> string" where
  [py_defs]: "show_int i = (if i < 0 then CHR ''-'' # show_nat (nat (- i)) else show_nat (nat i))"

declare char_of_eq_iff [py_defs]

subsection \<open>Stripping and case folding\<close>

lemma strip_no_leading:
  assumes "xs \<noteq> []" "\<not> P (hd xs)"
  shows "dropWhile P (rev (dropWhile P (rev xs))) = rev (dropWhile P (rev xs))"
proof (cases "dropWhile P (rev xs)")
  case Nil
  with assms show ?thesis by (cases xs) auto
next
  case (Cons y ys)
  then obtain zs where "rev xs = zs @ y # ys" and "\<forall>z \<in> set zs. P z"
    by (auto simp: dropWhile_eq_Cons_conv dest: set_takeWhileD)
  then have "xs = rev ys @ y # rev zs" by (metis rev_append rev_rev_ident rev.simps(2) append_assoc append_Cons append_Nil)
  with assms Cons show ?thesis
    by (cases "rev ys") (simp_all add: dropWhile_eq_Nil_conv)
qed

lemma py_strip_idem [simp]: "py_strip (py_strip s) = py_strip s"
proof (cases "dropWhile py_isspace s = []")
  case True
  then have "py_strip s = []" by (simp only: py_strip_def True) simp
  then show ?thesis by (simp add: py_strip_def del: dropWhile_eq_Nil_conv)
next
  case False
  then have "\<not> py_isspace (hd (dropWhile py_isspace s))"
    by (rule hd_dropWhile)
  with False show ?thesis
    by (simp add: py_strip_def strip_no_leading)
qed

lemma py_isspace_lower [simp]: "py_isspace (py_lower_char c) = py_isspace c"
  by (auto simp: py_isspace_def py_lower_char_def Let_def)

lemma py_strip_lower: "py_strip (py_lower s) = py_lower (py_strip s)"
  by (simp add: py_strip_def py_lower_def dropWhile_map rev_map comp_def)

lemma py_lower_char_idem [simp]: "py_lower_char (py_lower_char c) = py_lower_char c"
  by (auto simp: py_lower_char_def Let_def)

lemma py_lower_idem [simp]: "py_lower (py_lower s) = py_lower s"
  by (simp add: py_lower_def)

lemma py_lower_char_colon [simp]: "py_lower_char d = CHR '':'' \<longleftrightarrow> d = CHR '':''"
  by (auto simp: py_lower_char_def Let_def char_of_eq_iff take_bit_eq_mod)

lemma py_lower_char_bar [simp]: "py_lower_char d = CHR ''|'' \<longleftrightarrow> d = CHR ''|''"
  by (auto simp: py_lower_char_def Let_def char_of_eq_iff take_bit_eq_mod)

lemma py_lower_char_sep_sym [simp]:
  "CHR '':'' = py_lower_char d \<longleftrightarrow> d = CHR '':''"
  "CHR ''|'' = py_lower_char d \<longleftrightarrow> d = CHR ''|''"
  by (metis py_lower_char_colon, metis py_lower_char_bar)

lemma dropWhile_none: "\<forall>x \<in> set xs. \<not> P x \<Longrightarrow> dropWhile P xs = xs"
  by (induction xs) auto

lemma py_strip_no_space: "\<forall>c \<in> set s. \<not> py_isspace c \<Longrightarrow> py_strip s = s"
  by (simp add: py_strip_def dropWhile_none)

lemma set_dropWhile_subset: "set (dropWhile P xs) \<subseteq> set xs"
  by (auto dest: set_dropWhileD)

lemma set_py_strip: "set (py_strip s) \<subseteq> set s"
  using set_dropWhile_subset [of py_isspace "rev (dropWhile py_isspace s)"]
    set_dropWhile_subset [of py_isspace s]
  by (auto simp: py_strip_def)

subsection \<open>Splitting and joining\<close>

lemma py_split_nonempty [simp]: "py_split c s \<noteq> []"
  by (induction s) (auto split: list.split)

lemma py_split_Cons_other:
  "x \<noteq> c \<Longrightarrow> py_split c (x # xs) = (x # hd (py_split c xs)) # tl (py_split c xs)"
  by (cases "py_split c xs") auto

lemma py_split_no_sep: "c \<notin> set w \<Longrightarrow> py_split c w = [w]"
  by (induction w) auto

lemma py_split_append_sep:
  "c \<notin> set w \<Longrightarrow> py_split c (w @ c # s) = w # py_split c s"
  by (induction w) (auto simp: py_split_Cons_other)

lemma py_join_split: "py_join c (py_split c s) = s"
proof (induction s)
  case Nil
  then show ?case by simp
next
  case (Cons x xs)
  show ?case
  proof (cases "x = c")
    case True
    with Cons.IH show ?thesis
      by (cases "py_split c xs") auto
  next
    case False
    with Cons.IH show ?thesis
      by (cases "py_split c xs" rule: list.exhaust; cases "tl (py_split c xs)") auto
  qed
qed

lemma py_split_join:
  "ws \<noteq> [] \<Longrightarrow> \<forall>w \<in> set ws. c \<notin> set w \<Longrightarrow> py_split c (py_join c ws) = ws"
proof (induction c ws rule: py_join.induct)
  case (3 c w v vs)
  then show ?case by (simp add: py_split_append_sep)
qed (simp_all add: py_split_no_sep)

lemma set_py_split_piece: "w \<in> set (py_split c s) \<Longrightarrow> set w \<subseteq> set s"
proof (induction s arbitrary: w)
  case Nil
  then show ?case by simp
next
  case (Cons x xs)
  then show ?case
    by (cases "py_split c xs") (fastforce split: if_splits)+
qed

lemma py_split_sep_free: "w \<in> set (py_split c s) \<Longrightarrow> c \<notin> set w"
proof (induction s arbitrary: w)
  case Nil
  then show ?case by simp
next
  case (Cons x xs)
  then show ?case
    by (cases "py_split c xs") (auto split: if_splits)
qed

subsection \<open>Decimal digits\<close>

lemma is_decimal_digit_char: "(d::nat) < 10 \<Longrightarrow> is_decimal (char_of (48 + d))"
  by (simp add: is_decimal_def)

lemma decimal_not_space: "is_decimal c \<Longrightarrow> \<not> py_isspace c"
  by (auto simp: is_decimal_def py_isspace_def)

lemma decimal_not_sep: "is_decimal c \<Longrightarrow> c \<noteq> CHR ''|'' \<and> c \<noteq> CHR '':''"
  by (auto simp: is_decimal_def)

lemma py_strip_decimal: "list_all is_decimal s \<Longrightarrow> py_strip s = s"
  by (rule py_strip_no_space) (auto simp: list_all_iff dest: decimal_not_space)

lemma digit_val_digit_char: "(d::nat) < 10 \<Longrightarrow> digit_val (char_of (48 + d)) = d"
  by (simp add: digit_val_def)

lemma show_nat_nonempty [simp]: "show_nat n \<noteq> []"
  by (subst show_nat.simps) simp

lemma show_nat_decimal: "list_all is_decimal (show_nat n)"
proof (induction n rule: show_nat.induct)
  case (1 n)
  then show ?case
    by (subst show_nat.simps) (simp add: is_decimal_digit_char)
qed

lemma foldl_show_nat: "foldl (\<lambda>acc c. 10 * acc + digit_val c) 0 (show_nat n) = n"
proof (induction n rule: show_nat.induct)
  case (1 n)
  show ?case
  proof (cases "n < 10")
    case True
    then show ?thesis by (subst show_nat.simps) (simp add: digit_val_digit_char)
  next
    case False
    with "1.IH" show ?thesis
      by (subst show_nat.simps) (simp add: digit_val_digit_char)
  qed
qed

lemma py_int_digits_show_nat [simp]: "py_int_digits (show_nat n) = Some n"
  using show_nat_decimal [of n] by (simp add: py_int_digits_def foldl_show_nat)

lemma py_isdigit_show_nat: "py_isdigit (show_nat n)"
  using show_nat_decimal [of n]
  by (simp add: py_isdigit_def py_isdigit_char_def list_all_iff)

end
