(* ===== verification/Line_Parser.thy ===== *)
theory Line_Parser
  imports Py_Str
begin

text \<open>
  The Line Parser: \<open>parse_line\<close> of \<open>src/pythonWeb.py\<close> (lines 75--90).  A line is split
  at \<open>|\<close>, every part must split at \<open>:\<close> into exactly two pieces (otherwise the tuple
  assignment raises \<open>ValueError\<close>), the key is stripped and lower-cased, the value is
  stripped and typed: digits give an \<open>int\<close>, \<open>true\<close>/\<open>false\<close> in any case give a
  \<open>bool\<close>, anything else stays a string.  The bare \<open>except\<close> turns every failure into
  \<open>None\<close>, so no partial reading escapes.  Later fields overwrite earlier ones with the
  same key, keeping the first one's position, as a Python dict does.

  The device side of the protocol (\<open>k1:v1|k2:v2|...\<close>, spec section 6) is
  \<open>format_line\<close>; \<open>canonical_reading\<close> says which readings it can print unambiguously.
  The lemmas show that parsing inverts printing on those readings and that everything the
  parser returns is such a reading, so that parse, print, parse gives the same reading.
\<close>

definition parse_value :: "string \<Rightarrow> pyval option" where
  "parse_value v =
     (if py_isdigit v then map_option (\<lambda>n. VInt (int n)) (py_int_digits v)
      else if py_lower v \<in> set [''true'', ''false''] then Some (VBool (py_lower v = ''true''))
      else Some (VStr v))"

fun parse_fields :: "string list \<Rightarrow> reading \<Rightarrow> reading option" where
  "parse_fields [] d = Some d"
| "parse_fields (p # ps) d =
     (case py_split CHR '':'' p of
        [k, v] \<Rightarrow>
          (case parse_value (py_strip v) of
             None \<Rightarrow> None
           | Some x \<Rightarrow> parse_fields ps (dict_set (py_lower (py_strip k)) x d))
      | _ \<Rightarrow> None)"

definition parse_line :: "string \<Rightarrow> reading option" where
  "parse_line line = parse_fields (py_split CHR ''|'' line) []"

subsection \<open>The line protocol of the input device\<close>

fun format_value :: "pyval \<Rightarrow> string" where
  "format_value (VInt i) = show_int i"
| "format_value (VBool b) = (if b then ''True'' else ''False'')"
| "format_value (VStr s) = s"
| "format_value (VFloat x) = []"
| "format_value VNone = ''None''"

definition format_field :: "string \<times> pyval \<Rightarrow> string" where
  "format_field kv = fst kv @ CHR '':'' # format_value (snd kv)"

definition format_line :: "reading \<Rightarrow> string" where
  "format_line r = py_join CHR ''|'' (map format_field r)"

definition sep_free :: "string \<Rightarrow> bool" where
  "sep_free s \<longleftrightarrow> CHR ''|'' \<notin> set s \<and> CHR '':'' \<notin> set s"

definition canonical_key :: "string \<Rightarrow> bool" where
  "canonical_key k \<longleftrightarrow> py_strip k = k \<and> py_lower k = k \<and> sep_free k"

fun canonical_value :: "pyval \<Rightarrow> bool" where
  "canonical_value (VInt i) \<longleftrightarrow> 0 \<le> i"
| "canonical_value (VBool b) \<longleftrightarrow> True"
| "canonical_value (VStr s) \<longleftrightarrow>
     py_strip s = s \<and> sep_free s \<and> \<not> py_isdigit s \<and> py_lower s \<notin> set [''true'', ''false'']"
| "canonical_value (VFloat x) \<longleftrightarrow> False"
| "canonical_value VNone \<longleftrightarrow> False"

definition canonical_fields :: "reading \<Rightarrow> bool" where
  "canonical_fields r \<longleftrightarrow>
     distinct (dict_keys r) \<and> list_all (\<lambda>(k, v). canonical_key k \<and> canonical_value v) r"

definition canonical_reading :: "reading \<Rightarrow> bool" where
  "canonical_reading r \<longleftrightarrow> r \<noteq> [] \<and> canonical_fields r"

subsection \<open>Values\<close>

lemma parse_value_Some_cases:
  assumes "parse_value v = Some x"
  shows "(\<exists>n. x = VInt (int n) \<and> py_isdigit v)
       \<or> (\<exists>b. x = VBool b \<and> \<not> py_isdigit v \<and> py_lower v \<in> set [''true'', ''false''])
       \<or> (x = VStr v \<and> \<not> py_isdigit v \<and> py_lower v \<notin> set [''true'', ''false''])"
  using assms by (auto simp: parse_value_def split: if_splits)

lemma sep_free_decimal: "list_all is_decimal s \<Longrightarrow> sep_free s"
  by (auto simp: sep_free_def list_all_iff dest: decimal_not_sep)

lemma sep_free_py_lower: "sep_free (py_lower s) \<longleftrightarrow> sep_free s"
  by (auto simp: sep_free_def py_lower_def image_iff)

lemma sep_free_subset: "set s \<subseteq> set t \<Longrightarrow> sep_free t \<Longrightarrow> sep_free s"
  by (auto simp: sep_free_def)

lemma format_value_sep_free: "canonical_value v \<Longrightarrow> sep_free (format_value v)"
proof (cases v)
  case (VInt i)
  moreover assume "canonical_value v"
  ultimately have "format_value v = show_nat (nat i)" by (simp add: show_int_def)
  then show ?thesis using show_nat_decimal sep_free_decimal by simp
next
  case (VBool b)
  then show ?thesis by (simp add: sep_free_def)
qed (auto simp: sep_free_def)

lemma parse_format_value:
  "canonical_value v \<Longrightarrow> parse_value (py_strip (format_value v)) = Some v"
proof (cases v)
  case (VInt i)
  moreover assume "canonical_value v"
  ultimately have "format_value v = show_nat (nat i)" "0 \<le> i" by (simp_all add: show_int_def)
  then show ?thesis
    using VInt show_nat_decimal [of "nat i"]
    by (simp add: py_strip_decimal parse_value_def py_isdigit_show_nat)
next
  case (VBool b)
  then show ?thesis by (simp add: parse_value_def py_defs)
qed (auto simp: parse_value_def)

subsection \<open>Printing then parsing\<close>

lemma split_format_field:
  "canonical_key k \<Longrightarrow> canonical_value v \<Longrightarrow>
   py_split CHR '':'' (format_field (k, v)) = [k, format_value v]"
  using format_value_sep_free [of v]
  by (simp add: format_field_def canonical_key_def sep_free_def py_split_append_sep py_split_no_sep)

lemma parse_fields_format:
  "list_all (\<lambda>(k, v). canonical_key k \<and> canonical_value v) kvs \<Longrightarrow>
   parse_fields (map format_field kvs) acc = Some (foldl (\<lambda>d (k, v). dict_set k v d) acc kvs)"
proof (induction kvs arbitrary: acc)
  case Nil
  then show ?case by simp
next
  case (Cons kv kvs)
  obtain k v where kv: "kv = (k, v)" by fastforce
  with Cons.prems have "canonical_key k" "canonical_value v" by auto
  then have "py_lower (py_strip k) = k" by (simp add: canonical_key_def)
  with Cons kv \<open>canonical_key k\<close> \<open>canonical_value v\<close> show ?case
    by (simp add: split_format_field parse_format_value)
qed

lemma split_format_line:
  "canonical_reading r \<Longrightarrow> py_split CHR ''|'' (format_line r) = map format_field r"
  unfolding format_line_def canonical_reading_def canonical_fields_def
  by (rule py_split_join)
     (auto simp: list_all_iff format_field_def canonical_key_def sep_free_def
           dest!: format_value_sep_free)

subsection \<open>What the parser returns\<close>

lemma canonical_key_of_piece:
  assumes "CHR ''|'' \<notin> set p" and "k \<in> set (py_split CHR '':'' p)"
  shows "canonical_key (py_lower (py_strip k))"
proof -
  have "set k \<subseteq> set p" "CHR '':'' \<notin> set k"
    using assms(2) by (auto dest: set_py_split_piece py_split_sep_free)
  with assms(1) have "sep_free k" by (auto simp: sep_free_def)
  then have "sep_free (py_strip k)" by (rule sep_free_subset [OF set_py_strip])
  then show ?thesis
    by (simp add: canonical_key_def py_strip_lower sep_free_py_lower)
qed

lemma canonical_value_of_piece:
  assumes "CHR ''|'' \<notin> set p" and "v \<in> set (py_split CHR '':'' p)"
    and "parse_value (py_strip v) = Some x"
  shows "canonical_value x"
proof -
  have "set v \<subseteq> set p" "CHR '':'' \<notin> set v"
    using assms(2) by (auto dest: set_py_split_piece py_split_sep_free)
  with assms(1) have "sep_free v" by (auto simp: sep_free_def)
  then have "sep_free (py_strip v)" by (rule sep_free_subset [OF set_py_strip])
  with parse_value_Some_cases [OF assms(3)] show ?thesis by auto
qed

lemma parse_fields_canonical:
  "parse_fields ps d = Some r \<Longrightarrow> canonical_fields d \<Longrightarrow> \<forall>p \<in> set ps. CHR ''|'' \<notin> set p \<Longrightarrow>
   canonical_fields r \<and> (d \<noteq> [] \<longrightarrow> r \<noteq> [])"
proof (induction ps d rule: parse_fields.induct)
  case (1 d)
  then show ?case by simp
next
  case (2 p ps d)
  then obtain k v x where split: "py_split CHR '':'' p = [k, v]"
    and val: "parse_value (py_strip v) = Some x"
    and rest: "parse_fields ps (dict_set (py_lower (py_strip k)) x d) = Some r"
    by (auto split: list.splits option.splits)
  have "canonical_key (py_lower (py_strip k))" "canonical_value x"
    using 2(3,4) split val
    by (auto intro: canonical_key_of_piece canonical_value_of_piece)
  with 2(3) have "canonical_fields (dict_set (py_lower (py_strip k)) x d)"
    by (simp add: canonical_fields_def list_all_dict_set distinct_dict_set)
  with "2.IH" split val rest 2(4) show ?case by simp
qed

lemma parse_fields_None:
  "p \<in> set ps \<Longrightarrow> length (py_split CHR '':'' p) \<noteq> 2 \<Longrightarrow> parse_fields ps d = None"
proof (induction ps d rule: parse_fields.induct)
  case (2 q ps d)
  then show ?case by (auto split: list.splits option.splits)
qed simp

subsection \<open>Shape of a parsed line\<close>

lemma parse_fields_nonempty: "parse_fields ps d0 = Some d \<Longrightarrow> d0 \<noteq> [] \<or> ps \<noteq> [] \<Longrightarrow> d \<noteq> []"
proof (induction ps d0 rule: parse_fields.induct)
  case (1 d)
  then show ?case by simp
next
  case (2 p ps d)
  then show ?case
    by (cases "py_split CHR '':'' p" rule: list.exhaust)
       (auto split: list.splits option.splits)
qed

lemma parse_line_nonempty: "parse_line l = Some d \<Longrightarrow> d \<noteq> []"
  using parse_fields_nonempty [of "py_split CHR ''|'' l" "[]" d] py_split_nonempty
  by (simp add: parse_line_def)

lemma parse_line_Nil: "parse_line [] = None"
  by (simp add: parse_line_def)

subsection \<open>Lines of one field\<close>

lemma py_lower_digit_char: "py_isdigit_char c \<Longrightarrow> py_lower_char c = c"
  by (auto simp: py_lower_char_def py_isdigit_char_def is_decimal_def Let_def)

lemma py_lower_digits: "py_isdigit w \<Longrightarrow> py_lower w = w"
  by (induction w) (auto simp: py_lower_def py_isdigit_def py_lower_digit_char)

lemma py_isdigit_not_bool: "py_isdigit w \<Longrightarrow> py_lower w \<notin> set [''true'', ''false'']"
  by (auto simp: py_lower_digits py_isdigit_def py_isdigit_char_def is_decimal_def)

lemma parse_value_None_iff: "parse_value w = None \<longleftrightarrow> py_isdigit w \<and> \<not> list_all is_decimal w"
  by (auto simp: parse_value_def py_int_digits_def py_isdigit_def)

lemma parse_line_single_field:
  "sep_free k \<Longrightarrow> sep_free v \<Longrightarrow>
   parse_line (k @ CHR '':'' # v) = map_option (\<lambda>x. [(py_lower (py_strip k), x)]) (parse_value (py_strip v))"
  by (simp add: parse_line_def sep_free_def py_split_no_sep py_split_append_sep split: option.split)

lemma parse_fields_value_None:
  "p \<in> set ps \<Longrightarrow> py_split CHR '':'' p = [k, v] \<Longrightarrow> parse_value (py_strip v) = None \<Longrightarrow>
   parse_fields ps d = None"
proof (induction ps d rule: parse_fields.induct)
  case (2 q ps d)
  then show ?case by (auto split: list.splits option.splits)
qed simp

subsection \<open>Properties of the Line Parser\<close>

text \<open>C1. Round trip: a reading that the input device can print unambiguously (non-empty,
  distinct lower-case stripped keys, no separators, non-negative integers, booleans or plain
  text) is parsed back from its printed line \<open>k1:v1|k2:v2|...\<close> exactly, in order.\<close>

theorem parse_format_line:
  "canonical_reading r \<Longrightarrow> parse_line (format_line r) = Some r"
proof -
  assume c: "canonical_reading r"
  then have "parse_line (format_line r) = Some (foldl (\<lambda>d (k, v). dict_set k v d) [] r)"
    by (simp add: parse_line_def split_format_line parse_fields_format canonical_reading_def
        canonical_fields_def)
  also have "foldl (\<lambda>d (k, v). dict_set k v d) [] r = r"
    using c foldl_dict_set_distinct [of "[]" r] by (simp add: canonical_reading_def canonical_fields_def)
  finally show ?thesis .
qed

theorem parse_format_line_witness:
  "canonical_reading [(''ekg'', VInt 512), (''gsr'', VInt 340), (''sound'', VInt 88)] \<and>
   parse_line ''ekg:512|gsr:340|sound:88'' =
     Some [(''ekg'', VInt 512), (''gsr'', VInt 340), (''sound'', VInt 88)]"
proof -
  have c: "canonical_reading [(''ekg'', VInt 512), (''gsr'', VInt 340), (''sound'', VInt 88)]"
    by (simp add: canonical_reading_def canonical_fields_def canonical_key_def sep_free_def py_defs)
  have "format_line [(''ekg'', VInt 512), (''gsr'', VInt 340), (''sound'', VInt 88)] =
        ''ekg:512|gsr:340|sound:88''"
    by (simp add: format_line_def format_field_def show_int_def show_nat.simps py_defs)
  with c parse_format_line [OF c] show ?thesis by simp
qed

text \<open>C2. Everything \<open>parse_line\<close> returns is such a reading: at least one field, keys
  distinct, stripped and lower-case, values typed (so printing it and parsing again gives
  the same reading back).\<close>

theorem parse_line_canonical:
  "parse_line line = Some r \<Longrightarrow> canonical_reading r"
proof -
  assume p: "parse_line line = Some r"
  obtain q qs where split: "py_split CHR ''|'' line = q # qs"
    using py_split_nonempty by (metis list.exhaust)
  have sep: "\<forall>p \<in> set (q # qs). CHR ''|'' \<notin> set p"
    using py_split_sep_free split by metis
  from p split obtain k v x where "py_split CHR '':'' q = [k, v]"
    and "parse_value (py_strip v) = Some x"
    and rest: "parse_fields qs (dict_set (py_lower (py_strip k)) x []) = Some r"
    by (auto simp: parse_line_def split: list.splits option.splits)
  moreover have "canonical_key (py_lower (py_strip k))" "canonical_value x"
    using sep calculation by (auto intro: canonical_key_of_piece canonical_value_of_piece)
  ultimately have "canonical_fields (dict_set (py_lower (py_strip k)) x [])"
    by (simp add: canonical_fields_def)
  with parse_fields_canonical [OF rest] sep show ?thesis
    by (simp add: canonical_reading_def)
qed

theorem parse_line_canonical_witness:
  "parse_line ''ekg:512|gsr:340|sound:88'' =
     Some [(''ekg'', VInt 512), (''gsr'', VInt 340), (''sound'', VInt 88)] \<and>
   canonical_reading [(''ekg'', VInt 512), (''gsr'', VInt 340), (''sound'', VInt 88)]"
proof -
  have p: "parse_line ''ekg:512|gsr:340|sound:88'' =
     Some [(''ekg'', VInt 512), (''gsr'', VInt 340), (''sound'', VInt 88)]"
    by (simp add: parse_line_def parse_value_def py_defs)
  from p parse_line_canonical [OF p] show ?thesis by simp
qed

text \<open>C3. Value typing (spec 4.1 and 8), for every line of one field \<open>k:v\<close> without
  separators in \<open>k\<close> or \<open>v\<close>: the key is stripped and lower-cased; a stripped value made
  of ASCII digits becomes the int it denotes in decimal; a value equal to \<open>true\<close> or
  \<open>false\<close> in any case becomes that bool; any other value that is not a digit string
  (a sign, a decimal point, a word) stays the stripped text.\<close>

theorem parse_line_typing:
  assumes "sep_free k" "sep_free v"
  shows "(py_strip v \<noteq> [] \<and> list_all is_decimal (py_strip v) \<longrightarrow>
            parse_line (k @ CHR '':'' # v) =
              Some [(py_lower (py_strip k), VInt (int (foldl (\<lambda>acc c. 10 * acc + digit_val c) 0 (py_strip v))))]) \<and>
         (py_lower (py_strip v) \<in> set [''true'', ''false''] \<longrightarrow>
            parse_line (k @ CHR '':'' # v) =
              Some [(py_lower (py_strip k), VBool (py_lower (py_strip v) = ''true''))]) \<and>
         (\<not> py_isdigit (py_strip v) \<and> py_lower (py_strip v) \<notin> set [''true'', ''false''] \<longrightarrow>
            parse_line (k @ CHR '':'' # v) = Some [(py_lower (py_strip k), VStr (py_strip v))])"
proof (intro conjI impI)
  assume "py_strip v \<noteq> [] \<and> list_all is_decimal (py_strip v)"
  then have "py_isdigit (py_strip v)"
    by (auto simp: py_isdigit_def py_isdigit_char_def list_all_iff)
  with \<open>py_strip v \<noteq> [] \<and> list_all is_decimal (py_strip v)\<close> show
    "parse_line (k @ CHR '':'' # v) =
       Some [(py_lower (py_strip k), VInt (int (foldl (\<lambda>acc c. 10 * acc + digit_val c) 0 (py_strip v))))]"
    using assms by (simp add: parse_line_single_field parse_value_def py_int_digits_def)
next
  assume b: "py_lower (py_strip v) \<in> set [''true'', ''false'']"
  then have "\<not> py_isdigit (py_strip v)" using py_isdigit_not_bool by blast
  with b assms show "parse_line (k @ CHR '':'' # v) =
      Some [(py_lower (py_strip k), VBool (py_lower (py_strip v) = ''true''))]"
    by (simp add: parse_line_single_field parse_value_def)
next
  assume "\<not> py_isdigit (py_strip v) \<and> py_lower (py_strip v) \<notin> set [''true'', ''false'']"
  with assms show "parse_line (k @ CHR '':'' # v) = Some [(py_lower (py_strip k), VStr (py_strip v))]"
    by (simp add: parse_line_single_field parse_value_def)
qed

theorem parse_line_typing_witness:
  "parse_line '' EKG : 512'' = Some [(''ekg'', VInt 512)] \<and>
   parse_line ''flag:FaLsE'' = Some [(''flag'', VBool False)] \<and>
   parse_line ''gsr:-5'' = Some [(''gsr'', VStr ''-5'')]"
proof -
  have s1: "sep_free '' EKG ''" "sep_free '' 512''" and s2: "sep_free ''flag''" "sep_free ''FaLsE''"
    and s3: "sep_free ''gsr''" "sep_free ''-5''"
    by (simp_all add: sep_free_def)
  have 1: "parse_line '' EKG : 512'' = Some [(''ekg'', VInt 512)]"
    using conjunct1 [OF parse_line_typing [OF s1]] by (simp add: py_defs)
  have 2: "parse_line ''flag:FaLsE'' = Some [(''flag'', VBool False)]"
    using conjunct1 [OF conjunct2 [OF parse_line_typing [OF s2]]] by (simp add: py_defs)
  have 3: "parse_line ''gsr:-5'' = Some [(''gsr'', VStr ''-5'')]"
    using conjunct2 [OF conjunct2 [OF parse_line_typing [OF s3]]] by (simp add: py_defs)
  from 1 2 3 show ?thesis by blast
qed

text \<open>C4. Parse failure (spec 4.1): if any \<open>|\<close>-separated field of the line does not split
  at \<open>:\<close> into exactly two pieces, the whole line is rejected and no partial reading is
  returned.\<close>

theorem parse_line_field_error:
  "p \<in> set (py_split CHR ''|'' line) \<Longrightarrow> length (py_split CHR '':'' p) \<noteq> 2 \<Longrightarrow>
   parse_line line = None"
  unfolding parse_line_def by (rule parse_fields_None)

theorem parse_line_field_error_witness:
  "''ekg512'' \<in> set (py_split CHR ''|'' ''ekg512|gsr:340'') \<and>
   length (py_split CHR '':'' ''ekg512'') \<noteq> 2 \<and> parse_line ''ekg512|gsr:340'' = None"
proof -
  have a: "''ekg512'' \<in> set (py_split CHR ''|'' ''ekg512|gsr:340'')" by simp
  have b: "length (py_split CHR '':'' ''ekg512'') \<noteq> 2" by simp
  from a b parse_line_field_error [OF a b] show ?thesis by simp
qed

text \<open>C5. A value made of characters that Python's \<open>isdigit\<close> accepts but that are not
  all ASCII digits (a superscript such as U+00B2) makes \<open>int\<close> raise \<open>ValueError\<close>,
  so, wherever such a field stands in the line, the whole line is dropped instead of the
  value being kept as text.\<close>

theorem parse_line_unicode_digit_rejected:
  "p \<in> set (py_split CHR ''|'' line) \<Longrightarrow> py_split CHR '':'' p = [k, v] \<Longrightarrow>
   py_isdigit (py_strip v) \<Longrightarrow> \<not> list_all is_decimal (py_strip v) \<Longrightarrow> parse_line line = None"
  unfolding parse_line_def by (rule parse_fields_value_None) (simp_all add: parse_value_None_iff)

theorem parse_line_unicode_digit_rejected_witness:
  "''gsr:'' @ [CHR 0xB2] \<in> set (py_split CHR ''|'' (''ekg:1|gsr:'' @ [CHR 0xB2])) \<and>
   py_split CHR '':'' (''gsr:'' @ [CHR 0xB2]) = [''gsr'', [CHR 0xB2]] \<and>
   py_isdigit (py_strip [CHR 0xB2]) \<and> \<not> list_all is_decimal (py_strip [CHR 0xB2]) \<and>
   parse_line (''ekg:1|gsr:'' @ [CHR 0xB2]) = None"
proof -
  have a: "''gsr:'' @ [CHR 0xB2] \<in> set (py_split CHR ''|'' (''ekg:1|gsr:'' @ [CHR 0xB2]))" by simp
  have b: "py_split CHR '':'' (''gsr:'' @ [CHR 0xB2]) = [''gsr'', [CHR 0xB2]]" by simp
  have c: "py_isdigit (py_strip [CHR 0xB2])" and d: "\<not> list_all is_decimal (py_strip [CHR 0xB2])"
    by (simp_all add: py_defs)
  show ?thesis using parse_line_unicode_digit_rejected [OF a b c d] a b c d by blast
qed

end
