(* ===== verification/Polygraph.thy ===== *)
theory Polygraph
  imports Prelude
begin

text \<open>
  The class \<open>Polygraph\<close> of \<open>src/pythonWeb.py\<close> (lines 9--53): the Baseline Estimator,
  the Deviation Scorer and the state of the calibration session.  The object is the record
  \<open>polygraph\<close>; \<open>baseline\<close> is the dict whose values are first sample lists and, after
  calibration, \<open>{'avg': a, 'std': s}\<close> dicts (\<open>bl_entry\<close>).  \<open>update now d p\<close> is
  \<open>Polygraph.update(data)\<close> with \<open>time.time()\<close> returning \<open>now\<close>; it returns the
  object as left by the call together with the returned score, or the exception raised, in
  which case the mutations done before the raise are kept, as in Python.  The method is split
  at its two phases: \<open>calibrate_step\<close> (lines 26--42: \<open>calib_append\<close> for the loop at
  lines 27--30, \<open>finalize\<close> for lines 32--41) and \<open>score_step\<close> (lines 44--53:
  \<open>count_exceed\<close> for the loop at lines 47--49).
\<close>

datatype bl_entry = Samples "pyval list" | Stats real real

record polygraph =
  calibration_time :: real
  start_time :: "real option"
  calibrated :: bool
  baseline :: "bl_entry pydict"
  data_history :: "reading list"
  exceed_count :: nat
  total_count :: nat

definition history_maxlen :: nat where
  "history_maxlen = 1000"

definition init_polygraph :: "real \<Rightarrow> polygraph" where
  "init_polygraph ct =
     \<lparr>calibration_time = ct, start_time = None, calibrated = False, baseline = [],
      data_history = [], exceed_count = 0, total_count = 0\<rparr>"

definition channels :: "string list" where
  "channels = [''ekg'', ''gsr'', ''sound'']"

definition thresholds :: "real pydict" where
  "thresholds = [(''ekg'', 6 / 5), (''gsr'', 6 / 5), (''sound'', 13 / 10)]"

text \<open>\<open>deque(maxlen=m).append(x)\<close>: a full deque drops its oldest element.\<close>

definition deque_append :: "nat \<Rightarrow> 'a list \<Rightarrow> 'a \<Rightarrow> 'a list" where
  "deque_append m xs x = (let ys = xs @ [x] in drop (length ys - m) ys)"

text \<open>Lines 28--29: \<open>if k not in self.baseline: self.baseline[k] = []\<close>.\<close>

definition ensure_samples :: "string \<Rightarrow> bl_entry pydict \<Rightarrow> bl_entry pydict" where
  "ensure_samples k bl = (if k \<notin> set (dict_keys bl) then dict_set k (Samples []) bl else bl)"

text \<open>Lines 27--30: \<open>self.baseline[k].append(data[k])\<close> for each channel in turn.\<close>

fun calib_append :: "reading \<Rightarrow> string list \<Rightarrow> bl_entry pydict \<Rightarrow> (bl_entry pydict, unit) py_outcome" where
  "calib_append d [] bl = (bl, Inr ())"
| "calib_append d (k # ks) bl =
     (let bl1 = ensure_samples k bl in
      case map_of bl1 k of
        None \<Rightarrow> (bl1, Inl (KeyError k))
      | Some (Stats a s) \<Rightarrow> (bl1, Inl AttributeError)
      | Some (Samples vs) \<Rightarrow>
          (case map_of d k of
             None \<Rightarrow> (bl1, Inl (KeyError k))
           | Some v \<Rightarrow> calib_append d ks (dict_set k (Samples (vs @ [v])) bl1)))"

text \<open>
  Lines 34--39 for one entry: mean and population standard deviation of the samples, with
  the fallback \<open>[0]\<close> for an empty list.  \<open>sum\<close> raises \<open>TypeError\<close> (here
  \<open>None\<close>) on a non-numeric sample, and on an entry that is already a dict, whose keys
  \<open>sum\<close> would add.
\<close>

definition finalize_entry :: "bl_entry \<Rightarrow> bl_entry option" where
  "finalize_entry e =
     (case e of
        Stats a s \<Rightarrow> None
      | Samples vals \<Rightarrow>
          (let vals' = (if length vals = 0 then [VInt 0] else vals) in
           case those (map py_num vals') of
             None \<Rightarrow> None
           | Some xs \<Rightarrow>
               (let avg = sum_list xs / real (length xs);
                    std = sqrt (sum_list (map (\<lambda>v. (v - avg) ^ 2) xs) / real (length xs))
                in Some (Stats avg std))))"

text \<open>Lines 33--39: the loop over the keys of \<open>self.baseline\<close>, in insertion order.\<close>

fun finalize :: "string list \<Rightarrow> bl_entry pydict \<Rightarrow> (bl_entry pydict, unit) py_outcome" where
  "finalize [] bl = (bl, Inr ())"
| "finalize (k # ks) bl =
     (case map_of bl k of
        None \<Rightarrow> (bl, Inl (KeyError k))
      | Some e \<Rightarrow>
          (case finalize_entry e of
             None \<Rightarrow> (bl, Inl TypeError)
           | Some e' \<Rightarrow> finalize ks (dict_set k e' bl)))"

text \<open>Lines 26--42, entered with the session start \<open>st\<close> already recorded.\<close>

definition calibrate_step ::
  "real \<Rightarrow> real \<Rightarrow> reading \<Rightarrow> polygraph \<Rightarrow> (polygraph, real option) py_outcome" where
  "calibrate_step now st d p =
     (case calib_append d channels (baseline p) of
        (bl, Inl e) \<Rightarrow> (p\<lparr>baseline := bl\<rparr>, Inl e)
      | (bl, Inr _) \<Rightarrow>
          (if now - st \<ge> calibration_time p then
             (case finalize (dict_keys bl) bl of
                (bl', Inl e) \<Rightarrow> (p\<lparr>baseline := bl'\<rparr>, Inl e)
              | (bl', Inr _) \<Rightarrow> (p\<lparr>baseline := bl', calibrated := True\<rparr>, Inr None))
           else (p\<lparr>baseline := bl\<rparr>, Inr None)))"

text \<open>
  Lines 47--49: \<open>data[k] > self.baseline[k]['avg'] * thresholds[k]\<close> for each channel,
  evaluated left to right (\<open>KeyError\<close> for a missing key, \<open>TypeError\<close> for indexing a
  sample list with \<open>'avg'\<close> or comparing a string with a float); \<open>n\<close> is \<open>exceed\<close>.
\<close>

fun count_exceed :: "reading \<Rightarrow> bl_entry pydict \<Rightarrow> string list \<Rightarrow> nat \<Rightarrow> py_exc + nat" where
  "count_exceed d bl [] n = Inr n"
| "count_exceed d bl (k # ks) n =
     (case map_of d k of
        None \<Rightarrow> Inl (KeyError k)
      | Some v \<Rightarrow>
          (case map_of bl k of
             None \<Rightarrow> Inl (KeyError k)
           | Some (Samples vs) \<Rightarrow> Inl TypeError
           | Some (Stats avg std) \<Rightarrow>
               (case map_of thresholds k of
                  None \<Rightarrow> Inl (KeyError k)
                | Some t \<Rightarrow>
                    (case py_num v of
                       None \<Rightarrow> Inl TypeError
                     | Some x \<Rightarrow> count_exceed d bl ks (if x > avg * t then Suc n else n)))))"

text \<open>Lines 44--53.\<close>

definition score_step :: "reading \<Rightarrow> polygraph \<Rightarrow> (polygraph, real option) py_outcome" where
  "score_step d p =
     (let p1 = p\<lparr>data_history := deque_append history_maxlen (data_history p) d\<rparr> in
      case count_exceed d (baseline p1) channels 0 of
        Inl e \<Rightarrow> (p1, Inl e)
      | Inr exceed \<Rightarrow>
          (let p2 = p1\<lparr>total_count := total_count p1 + 1,
                       exceed_count := exceed_count p1 + (if exceed > 0 then 1 else 0)\<rparr>
           in (p2, Inr (Some (real (exceed_count p2) / real (total_count p2) * 100)))))"

text \<open>Lines 19--53: \<open>Polygraph.update\<close>.\<close>

definition update :: "real \<Rightarrow> reading \<Rightarrow> polygraph \<Rightarrow> (polygraph, real option) py_outcome" where
  "update now d p =
     (let st = (case start_time p of None \<Rightarrow> now | Some t \<Rightarrow> t);
          p1 = p\<lparr>start_time := Some st\<rparr>
      in if \<not> calibrated p1 then calibrate_step now st d p1 else score_step d p1)"

text \<open>A sequence of calls \<open>update(data)\<close> at the given times, as the serial loop makes them.\<close>

fun update_run ::
  "(real \<times> reading) list \<Rightarrow> polygraph \<Rightarrow> polygraph \<times> (py_exc + real option) list" where
  "update_run [] p = (p, [])"
| "update_run ((now, d) # ts) p =
     (let (p1, r) = update now d p; (p2, rs) = update_run ts p1 in (p2, r # rs))"

subsection \<open>Auxiliary notions\<close>

definition entry_or_new :: "bl_entry pydict \<Rightarrow> string \<Rightarrow> bl_entry" where
  "entry_or_new bl k = (case map_of bl k of None \<Rightarrow> Samples [] | Some e \<Rightarrow> e)"

definition samples_of :: "bl_entry pydict \<Rightarrow> string \<Rightarrow> pyval list" where
  "samples_of bl k = (case map_of bl k of Some (Samples vs) \<Rightarrow> vs | _ \<Rightarrow> [])"

fun is_stats :: "bl_entry \<Rightarrow> bool" where
  "is_stats (Stats a s) = True"
| "is_stats (Samples vs) = False"

definition stats_baseline :: "bl_entry pydict \<Rightarrow> bool" where
  "stats_baseline bl \<longleftrightarrow>
     list_all (\<lambda>k. case map_of bl k of Some e \<Rightarrow> is_stats e | None \<Rightarrow> False) channels"

text \<open>
  The invariant of a session object: the counters never disagree, the history stays within
  its bound, the baseline only has channel keys, nothing happens before the first reading,
  a calibrated baseline holds statistics for every channel, and nothing is scored before
  calibration.
\<close>

definition poly_inv :: "polygraph \<Rightarrow> bool" where
  "poly_inv p \<longleftrightarrow>
     exceed_count p \<le> total_count p \<and>
     length (data_history p) \<le> history_maxlen \<and>
     distinct (dict_keys (baseline p)) \<and> fst ` set (baseline p) \<subseteq> set channels \<and>
     (start_time p = None \<longrightarrow> baseline p = [] \<and> \<not> calibrated p) \<and>
     (calibrated p \<longrightarrow> stats_baseline (baseline p)) \<and>
     (\<not> calibrated p \<longrightarrow> total_count p = 0 \<and> data_history p = [])"

subsection \<open>Accumulating samples\<close>

lemma ensure_samples_keys [simp]:
  "fst ` set (ensure_samples k bl) = insert k (fst ` set bl)"
  by (auto simp: ensure_samples_def dict_simps)

lemma distinct_ensure_samples [simp]:
  "distinct (dict_keys bl) \<Longrightarrow> distinct (dict_keys (ensure_samples k bl))"
  by (simp add: ensure_samples_def dict_simps)

lemma map_of_ensure_samples [simp]:
  "map_of (ensure_samples k bl) j = (if j = k then Some (entry_or_new bl k) else map_of bl j)"
  by (auto simp: ensure_samples_def entry_or_new_def dict_simps map_of_None_iff
      split: option.split dest: map_of_SomeD intro: rev_image_eqI)

lemma ensure_samples_mem:
  "(a, b) \<in> set (ensure_samples k bl) \<Longrightarrow> a = k \<or> a \<in> fst ` set bl"
  using ensure_samples_keys by (metis fst_conv image_eqI insertE)

lemma dict_set_ensure_samples [simp]:
  "dict_set k x (ensure_samples k bl) = dict_set k x bl"
  by (simp add: ensure_samples_def)

lemma calib_append_Cons:
  "calib_append d (k # ks) bl =
     (case entry_or_new bl k of
        Stats a s \<Rightarrow> (ensure_samples k bl, Inl AttributeError)
      | Samples vs \<Rightarrow>
          (case map_of d k of
             None \<Rightarrow> (ensure_samples k bl, Inl (KeyError k))
           | Some v \<Rightarrow> calib_append d ks (dict_set k (Samples (vs @ [v])) bl)))"
  by (simp add: Let_def split: bl_entry.split option.split)

declare calib_append.simps(2) [simp del]

lemma calib_append_cases:
  obtains (stats) a s where "entry_or_new bl k = Stats a s"
  | (missing) vs where "entry_or_new bl k = Samples vs" "map_of d k = None"
  | (ok) vs v where "entry_or_new bl k = Samples vs" "map_of d k = Some v"
  by (cases "entry_or_new bl k"; cases "map_of d k") auto

lemma calib_append_keys:
  "calib_append d ks bl = (bl', r) \<Longrightarrow>
   fst ` set bl' \<subseteq> fst ` set bl \<union> set ks \<and>
   (distinct (dict_keys bl) \<longrightarrow> distinct (dict_keys bl'))"
proof (induction ks arbitrary: bl)
  case Nil
  then show ?case by simp
next
  case (Cons k ks)
  show ?case
  proof (cases rule: calib_append_cases [where bl = bl and k = k and d = d])
    case (ok vs v)
    with Cons.prems have "calib_append d ks (dict_set k (Samples (vs @ [v])) bl) = (bl', r)"
      by (simp add: calib_append_Cons)
    from Cons.IH [OF this] show ?thesis by (auto simp: dict_simps)
  qed (use Cons.prems in \<open>auto simp: calib_append_Cons dest: ensure_samples_mem\<close>)
qed

lemma calib_append_missing:
  "k \<in> set ks \<Longrightarrow> map_of d k = None \<Longrightarrow> \<exists>e. snd (calib_append d ks bl) = Inl e"
proof (induction ks arbitrary: bl)
  case (Cons k' ks)
  then show ?case
    by (auto simp: calib_append_Cons split: option.splits bl_entry.splits)
qed simp

lemma calib_append_Inr:
  "calib_append d ks bl = (bl', Inr u) \<Longrightarrow> distinct ks \<Longrightarrow>
   (\<forall>k \<in> set ks. \<exists>v. map_of d k = Some v \<and> \<not> is_stats (entry_or_new bl k) \<and>
       map_of bl' k = Some (Samples (samples_of bl k @ [v]))) \<and>
   (\<forall>k. k \<notin> set ks \<longrightarrow> map_of bl' k = map_of bl k)"
proof (induction ks arbitrary: bl)
  case Nil
  then show ?case by simp
next
  case (Cons k ks)
  show ?case
  proof (cases rule: calib_append_cases [where bl = bl and k = k and d = d])
    case (ok vs v)
    let ?bl1 = "dict_set k (Samples (vs @ [v])) bl"
    from ok Cons.prems have rec: "calib_append d ks ?bl1 = (bl', Inr u)"
      by (simp add: calib_append_Cons)
    from Cons.prems have k: "k \<notin> set ks" and "distinct ks" by auto
    with Cons.IH [OF rec] have ih:
      "\<forall>j \<in> set ks. \<exists>w. map_of d j = Some w \<and> \<not> is_stats (entry_or_new ?bl1 j) \<and>
          map_of bl' j = Some (Samples (samples_of ?bl1 j @ [w]))"
      "map_of bl' k = Some (Samples (vs @ [v]))"
      "\<forall>j. j \<notin> set ks \<longrightarrow> j \<noteq> k \<longrightarrow> map_of bl' j = map_of bl j"
      by (auto simp: dict_simps)
    have "samples_of bl k = vs"
      using ok by (auto simp: samples_of_def entry_or_new_def split: option.splits)
    moreover have "\<And>j. j \<noteq> k \<Longrightarrow> entry_or_new ?bl1 j = entry_or_new bl j \<and>
                         samples_of ?bl1 j = samples_of bl j"
      by (simp add: entry_or_new_def samples_of_def dict_simps)
    moreover have "\<not> is_stats (entry_or_new bl k)" using ok by simp
    ultimately show ?thesis
      using ih ok k by fastforce
  qed (use Cons.prems in \<open>auto simp: calib_append_Cons\<close>)
qed

subsection \<open>Finalizing the baseline\<close>

lemma finalize_entry_stats: "finalize_entry e = Some e' \<Longrightarrow> is_stats e'"
  by (auto simp: finalize_entry_def Let_def split: bl_entry.splits option.splits)

lemma finalize_keys:
  "finalize ks bl = (bl', r) \<Longrightarrow> fst ` set bl' = fst ` set bl \<and>
   (distinct (dict_keys bl) \<longrightarrow> distinct (dict_keys bl'))"
proof (induction ks arbitrary: bl)
  case (Cons k ks)
  show ?case
  proof (cases "map_of bl k")
    case (Some e)
    show ?thesis
    proof (cases "finalize_entry e")
      case (Some e')
      with \<open>map_of bl k = Some e\<close> Cons.prems
      have "finalize ks (dict_set k e' bl) = (bl', r)" by simp
      moreover have "k \<in> fst ` set bl"
        using \<open>map_of bl k = Some e\<close> by (rule map_of_Some_keyI)
      ultimately show ?thesis
        using Cons.IH by (simp add: dict_simps insert_absorb)
    qed (use Cons.prems \<open>map_of bl k = Some e\<close> in simp)
  qed (use Cons.prems in simp)
qed simp

lemma finalize_Inr:
  "finalize ks bl = (bl', Inr u) \<Longrightarrow> distinct ks \<Longrightarrow>
   (\<forall>k \<in> set ks. \<exists>e e'. map_of bl k = Some e \<and> finalize_entry e = Some e' \<and>
       map_of bl' k = Some e') \<and>
   (\<forall>k. k \<notin> set ks \<longrightarrow> map_of bl' k = map_of bl k)"
proof (induction ks arbitrary: bl)
  case (Cons k ks)
  then obtain e e' where e: "map_of bl k = Some e" "finalize_entry e = Some e'"
    and rec: "finalize ks (dict_set k e' bl) = (bl', Inr u)"
    by (auto split: option.splits)
  from Cons.prems have k: "\<forall>j \<in> set ks. j \<noteq> k" and "distinct ks" by auto
  with Cons.IH [OF rec] e show ?case
    by (auto simp: dict_simps)
qed simp

lemma finalize_Inl:
  "finalize ks bl = (bl', Inl x) \<Longrightarrow> set ks \<subseteq> fst ` set bl \<Longrightarrow>
   \<exists>k e. map_of bl' k = Some e \<and> finalize_entry e = None"
proof (induction ks arbitrary: bl)
  case (Cons k ks)
  from Cons.prems obtain e where e: "map_of bl k = Some e"
    by (cases "map_of bl k") (auto simp: map_of_None_iff)
  show ?case
  proof (cases "finalize_entry e")
    case None
    with Cons.prems e show ?thesis by auto
  next
    case (Some e')
    with Cons.prems e have "finalize ks (dict_set k e' bl) = (bl', Inl x)" by simp
    moreover have "set ks \<subseteq> fst ` set (dict_set k e' bl)" using Cons.prems by (auto simp: dict_simps)
    ultimately show ?thesis by (rule Cons.IH)
  qed
qed simp

subsection \<open>The session invariant\<close>

lemma length_deque_append: "length (deque_append m xs x) = min (Suc (length xs)) m"
  by (simp add: deque_append_def)

lemma poly_inv_init: "poly_inv (init_polygraph ct)"
  by (simp add: poly_inv_def init_polygraph_def)

lemma distinct_channels [simp]: "distinct channels"
  by (simp add: channels_def)

lemma calib_finalize_stats:
  assumes app: "calib_append d channels bl0 = (bl, Inr u)"
    and fin: "finalize (dict_keys bl) bl = (bl', Inr u')"
    and dist: "distinct (dict_keys bl)"
  shows "stats_baseline bl'"
proof -
  have "\<forall>k \<in> set channels. k \<in> fst ` set bl"
    using calib_append_Inr [OF app distinct_channels] by (auto intro: map_of_Some_keyI)
  moreover have "\<forall>k \<in> fst ` set bl. \<exists>e'. finalize_entry (the (map_of bl k)) = Some e' \<and>
                     map_of bl' k = Some e'"
    using finalize_Inr [OF fin dist] by auto
  ultimately show ?thesis
    by (auto simp: stats_baseline_def list_all_iff dest!: bspec intro: finalize_entry_stats)
qed

lemma calibrate_step_inv:
  assumes inv: "poly_inv p" and nc: "\<not> calibrated p" and st: "start_time p = Some st"
  shows "poly_inv (fst (calibrate_step now st d p))"
proof -
  obtain bl r where app: "calib_append d channels (baseline p) = (bl, r)" by fastforce
  from calib_append_keys [OF app] inv have keys:
    "distinct (dict_keys bl)" "fst ` set bl \<subseteq> set channels"
    by (auto simp: poly_inv_def)
  show ?thesis
  proof (cases r)
    case (Inl e)
    with app keys inv nc st show ?thesis by (simp add: calibrate_step_def poly_inv_def)
  next
    case (Inr u)
    note ok = \<open>r = Inr u\<close>
    obtain bl' r' where fin: "finalize (dict_keys bl) bl = (bl', r')" by fastforce
    from finalize_keys [OF fin] keys have keys':
      "distinct (dict_keys bl')" "fst ` set bl' \<subseteq> set channels" by auto
    show ?thesis
    proof (cases r')
      case (Inr u')
      with app fin keys(1) ok have "stats_baseline bl'" by (blast intro: calib_finalize_stats)
      with app fin ok \<open>r' = Inr u'\<close> keys keys' inv nc st show ?thesis
        by (simp add: calibrate_step_def poly_inv_def)
    qed (use app fin ok keys keys' inv nc st in \<open>simp add: calibrate_step_def poly_inv_def\<close>)
  qed
qed

lemma count_exceed_bounds:
  "count_exceed d bl ks n = Inr m \<Longrightarrow> n \<le> m \<and> m \<le> n + length ks"
proof (induction ks arbitrary: n)
  case (Cons k ks)
  then show ?case
    by (fastforce split: option.splits bl_entry.splits if_splits)
qed simp

lemma score_step_fields:
  "baseline (fst (score_step d p)) = baseline p \<and> calibrated (fst (score_step d p)) = calibrated p \<and>
   start_time (fst (score_step d p)) = start_time p \<and>
   calibration_time (fst (score_step d p)) = calibration_time p"
  by (simp add: score_step_def Let_def split: sum.split)

lemma score_step_inv:
  assumes inv: "poly_inv p" and c: "calibrated p"
  shows "poly_inv (fst (score_step d p))"
proof -
  have "length (deque_append history_maxlen (data_history p) d) \<le> history_maxlen"
    by (simp add: length_deque_append)
  with inv c show ?thesis
    by (simp add: score_step_def poly_inv_def Let_def split: sum.split)
qed

lemma update_calibrated:
  "calibrated p \<Longrightarrow> start_time p = Some t \<Longrightarrow> update now d p = score_step d p"
  by (cases p) (simp add: update_def)

lemma poly_inv_calibrated_start:
  "poly_inv p \<Longrightarrow> calibrated p \<Longrightarrow> \<exists>t. start_time p = Some t"
  by (cases "start_time p") (auto simp: poly_inv_def)

lemma update_inv: "poly_inv p \<Longrightarrow> poly_inv (fst (update now d p))"
proof -
  assume inv: "poly_inv p"
  show ?thesis
  proof (cases "calibrated p")
    case True
    with inv obtain t where "start_time p = Some t" by (blast dest: poly_inv_calibrated_start)
    with True inv show ?thesis by (simp add: update_calibrated score_step_inv)
  next
    case False
    define st where "st = (case start_time p of None \<Rightarrow> now | Some t \<Rightarrow> t)"
    have "poly_inv (p\<lparr>start_time := Some st\<rparr>)"
      using inv by (simp add: poly_inv_def)
    with False have "poly_inv (fst (calibrate_step now st d (p\<lparr>start_time := Some st\<rparr>)))"
      by (simp add: calibrate_step_inv)
    with False show ?thesis by (simp add: update_def st_def Let_def)
  qed
qed

end
