(* ===== verification/Calibration.thy ===== *)
theory Calibration
  imports Polygraph
begin

text \<open>
  The Calibration State Machine (spec 4.3) over the \<open>Polygraph\<close> object.  Its phase is
  read off the object's fields: no start time yet is \<open>Warming_Up\<close>, a start time without
  \<open>calibrated\<close> is \<open>Calibrating\<close>, \<open>calibrated\<close> is \<open>Scoring\<close>.  \<open>phase_step\<close>
  is the abstract machine the spec describes (one-way, \<open>Scoring\<close> terminal); the
  refinement lemma says every call of \<open>update\<close> is one of its steps.  The sessions a
  process can reach are \<open>poly_reachable\<close>: the object built by \<open>Polygraph(ct)\<close> and
  everything \<open>update\<close> makes of it, for any time and any reading, exceptions included.
\<close>

datatype phase = Warming_Up | Calibrating | Scoring

fun phase_rank :: "phase \<Rightarrow> nat" where
  "phase_rank Warming_Up = 0"
| "phase_rank Calibrating = 1"
| "phase_rank Scoring = 2"

instantiation phase :: linorder
begin

definition less_eq_phase :: "phase \<Rightarrow> phase \<Rightarrow> bool" where
  "less_eq_phase x y \<longleftrightarrow> phase_rank x \<le> phase_rank y"

definition less_phase :: "phase \<Rightarrow> phase \<Rightarrow> bool" where
  "less_phase x y \<longleftrightarrow> phase_rank x < phase_rank y"

instance
proof
  fix x y z :: phase
  show "x < y \<longleftrightarrow> x \<le> y \<and> \<not> y \<le> x"
    by (auto simp: less_eq_phase_def less_phase_def)
  show "x \<le> x" by (simp add: less_eq_phase_def)
  show "x \<le> y \<Longrightarrow> y \<le> z \<Longrightarrow> x \<le> z" by (simp add: less_eq_phase_def)
  show "x \<le> y \<Longrightarrow> y \<le> x \<Longrightarrow> x = y"
    by (cases x; cases y) (simp_all add: less_eq_phase_def)
  show "x \<le> y \<or> y \<le> x" by (auto simp: less_eq_phase_def)
qed

end

definition phase_of :: "polygraph \<Rightarrow> phase" where
  "phase_of p =
     (if calibrated p then Scoring else if start_time p = None then Warming_Up else Calibrating)"

inductive phase_step :: "phase \<Rightarrow> phase \<Rightarrow> bool" where
  first_reading: "phase_step Warming_Up Calibrating"
| first_reading_window_over: "phase_step Warming_Up Scoring"
| calibrating: "phase_step Calibrating Calibrating"
| window_over: "phase_step Calibrating Scoring"
| scoring: "phase_step Scoring Scoring"

inductive_cases phase_step_from_Scoring: "phase_step Scoring q"
inductive_cases phase_step_from_Calibrating: "phase_step Calibrating q"

inductive poly_reachable :: "real \<Rightarrow> polygraph \<Rightarrow> bool" for ct :: real where
  init: "poly_reachable ct (init_polygraph ct)"
| step: "poly_reachable ct p \<Longrightarrow> poly_reachable ct (fst (update now d p))"

subsection \<open>Statistics the spec asks for\<close>

definition mean :: "real list \<Rightarrow> real" where
  "mean xs = sum_list xs / real (length xs)"

definition pop_std :: "real list \<Rightarrow> real" where
  "pop_std xs = sqrt (sum_list (map (\<lambda>v. (v - mean xs) ^ 2) xs) / real (length xs))"

definition wedged :: "polygraph \<Rightarrow> bool" where
  "wedged p \<longleftrightarrow> \<not> calibrated p \<and> list_ex (\<lambda>(k, e). finalize_entry e = None) (baseline p)"

subsection \<open>Phases\<close>

lemma phase_step_mono: "phase_step a b \<Longrightarrow> a \<le> b"
  by (induction rule: phase_step.induct) (simp_all add: less_eq_phase_def)

lemma calibrate_step_fields:
  "start_time (fst (calibrate_step now st d p)) = start_time p \<and>
   calibration_time (fst (calibrate_step now st d p)) = calibration_time p \<and>
   total_count (fst (calibrate_step now st d p)) = total_count p \<and>
   exceed_count (fst (calibrate_step now st d p)) = exceed_count p \<and>
   data_history (fst (calibrate_step now st d p)) = data_history p \<and>
   (calibrated p \<longrightarrow> calibrated (fst (calibrate_step now st d p)))"
  by (simp add: calibrate_step_def split: prod.split sum.split)

lemma update_start_time:
  "start_time (fst (update now d p)) = Some (case start_time p of None \<Rightarrow> now | Some t \<Rightarrow> t)"
  by (simp add: update_def Let_def calibrate_step_fields score_step_fields)

lemma update_keeps_calibrated:
  "calibrated p \<Longrightarrow> calibrated (fst (update now d p)) \<and> baseline (fst (update now d p)) = baseline p"
  by (simp add: update_def Let_def score_step_fields)

lemma poly_reachable_inv: "poly_reachable ct p \<Longrightarrow> poly_inv p"
  by (induction rule: poly_reachable.induct) (simp_all add: poly_inv_init update_inv)

lemma poly_reachable_calibration_time:
  "poly_reachable ct p \<Longrightarrow> calibration_time p = ct"
proof (induction rule: poly_reachable.induct)
  case init
  then show ?case by (simp add: init_polygraph_def)
next
  case (step p now d)
  then show ?case
    by (simp add: update_def Let_def calibrate_step_fields score_step_fields)
qed

lemma update_run_Cons:
  "update_run ((now, d) # ts) p =
     (fst (update_run ts (fst (update now d p))),
      snd (update now d p) # snd (update_run ts (fst (update now d p))))"
  by (simp split: prod.split)

declare update_run.simps(2) [simp del]

lemma calibrate_step_calibrated:
  assumes "\<not> calibrated p" and "calibrated (fst (calibrate_step now st d p))"
  obtains bl u bl' u' where "calib_append d channels (baseline p) = (bl, Inr u)"
    and "finalize (dict_keys bl) bl = (bl', Inr u')"
    and "calibration_time p \<le> now - st"
    and "calibrate_step now st d p = (p\<lparr>baseline := bl', calibrated := True\<rparr>, Inr None)"
  using assms
  by (auto simp: calibrate_step_def split: prod.splits sum.splits if_splits)

lemma calibrate_step_early:
  "\<not> calibrated p \<Longrightarrow> now - st < calibration_time p \<Longrightarrow>
   \<not> calibrated (fst (calibrate_step now st d p))"
  by (auto simp: calibrate_step_def split: prod.splits sum.splits)

lemma update_uncalibrated:
  "\<not> calibrated p \<Longrightarrow>
   update now d p = calibrate_step now (case start_time p of None \<Rightarrow> now | Some t \<Rightarrow> t) d
                      (p\<lparr>start_time := Some (case start_time p of None \<Rightarrow> now | Some t \<Rightarrow> t)\<rparr>)"
  by (simp add: update_def Let_def)

lemma finalize_entry_Samples:
  "vs \<noteq> [] \<Longrightarrow> finalize_entry (Samples vs) = Some e' \<Longrightarrow>
   \<exists>xs. those (map py_num vs) = Some xs \<and> xs \<noteq> [] \<and> e' = Stats (mean xs) (pop_std xs)"
  by (cases "those (map py_num vs)")
     (auto simp: finalize_entry_def mean_def pop_std_def Let_def dest!: those_Some_length)

lemma update_missing_channel:
  "\<not> calibrated p \<Longrightarrow> k \<in> set channels \<Longrightarrow> map_of d k = None \<Longrightarrow>
   \<not> calibrated (fst (update now d p)) \<and> isl (snd (update now d p))"
proof -
  assume nc: "\<not> calibrated p" and k: "k \<in> set channels" and m: "map_of d k = None"
  obtain bl r where app: "calib_append d channels (baseline p) = (bl, r)" by fastforce
  with calib_append_missing [OF k m, of "baseline p"] obtain e where "r = Inl e" by auto
  with nc app show ?thesis by (simp add: update_uncalibrated calibrate_step_def)
qed

lemma those_append_None: "those xs = None \<Longrightarrow> those (xs @ ys) = None"
  by (induction xs) (auto split: option.splits)

lemma finalize_entry_bad_append:
  "finalize_entry (Samples vs) = None \<Longrightarrow> finalize_entry (Samples (vs @ [v])) = None"
  by (cases "vs = []")
     (auto simp: finalize_entry_def Let_def those_append_None split: option.splits)

lemma wedged_iff:
  "distinct (dict_keys (baseline p)) \<Longrightarrow>
   wedged p \<longleftrightarrow> \<not> calibrated p \<and> (\<exists>k e. map_of (baseline p) k = Some e \<and> finalize_entry e = None)"
  by (auto simp: wedged_def list_ex_iff dest: map_of_SomeD map_of_is_SomeI)

lemma calib_append_keeps_bad:
  "calib_append d ks bl = (bl', r) \<Longrightarrow> map_of bl j = Some e \<Longrightarrow> finalize_entry e = None \<Longrightarrow>
   \<exists>e'. map_of bl' j = Some e' \<and> finalize_entry e' = None"
proof (induction ks arbitrary: bl e)
  case Nil
  then show ?case by simp
next
  case (Cons k ks)
  show ?case
  proof (cases rule: calib_append_cases [where bl = bl and k = k and d = d])
    case (ok vs v)
    let ?bl1 = "dict_set k (Samples (vs @ [v])) bl"
    from ok Cons.prems(1) have rec: "calib_append d ks ?bl1 = (bl', r)"
      by (simp add: calib_append_Cons)
    have "\<exists>e1. map_of ?bl1 j = Some e1 \<and> finalize_entry e1 = None"
    proof (cases "j = k")
      case True
      with ok Cons.prems(2) have "e = Samples vs" by (simp add: entry_or_new_def)
      with True Cons.prems(3) show ?thesis by (simp add: dict_simps finalize_entry_bad_append)
    qed (use Cons.prems in \<open>simp add: dict_simps\<close>)
    then show ?thesis using Cons.IH [OF rec] by blast
  qed (use Cons.prems in \<open>auto simp: calib_append_Cons entry_or_new_def\<close>)
qed

lemma finalize_Inr_no_bad:
  "finalize ks bl = (bl', Inr u) \<Longrightarrow> distinct ks \<Longrightarrow> map_of bl j = Some e \<Longrightarrow>
   finalize_entry e = None \<Longrightarrow> j \<notin> set ks"
  using finalize_Inr by fastforce

lemma update_calibration_time:
  "calibration_time (fst (update now d p)) = calibration_time p"
  by (simp add: update_def Let_def calibrate_step_fields score_step_fields)

lemma wedged_update:
  assumes inv: "poly_inv p" and w: "wedged p"
  shows "wedged (fst (update now d p)) \<and>
         (calibration_time p \<le> now - (case start_time p of None \<Rightarrow> now | Some t \<Rightarrow> t) \<longrightarrow>
          isl (snd (update now d p)))"
proof -
  define st where "st = (case start_time p of None \<Rightarrow> now | Some t \<Rightarrow> t)"
  let ?p1 = "p\<lparr>start_time := Some st\<rparr>"
  have dist0: "distinct (dict_keys (baseline p))" using inv by (simp add: poly_inv_def)
  with w obtain j e where nc: "\<not> calibrated p" and bad: "map_of (baseline p) j = Some e"
    "finalize_entry e = None" by (auto simp: wedged_iff)
  have upd: "update now d p = calibrate_step now st d ?p1"
    using nc by (simp add: update_uncalibrated st_def)
  obtain bl r where app: "calib_append d channels (baseline p) = (bl, r)" by fastforce
  from calib_append_keeps_bad [OF app bad] obtain e1 where
    bad1: "map_of bl j = Some e1" "finalize_entry e1 = None" by blast
  have dist1: "distinct (dict_keys bl)" using calib_append_keys [OF app] dist0 by simp
  have w1: "wedged (?p1\<lparr>baseline := bl\<rparr>)" using nc bad1 dist1 by (auto simp: wedged_iff)
  show ?thesis
  proof (cases r)
    case (Inl x)
    with upd app w1 show ?thesis by (simp add: calibrate_step_def st_def)
  next
    case (Inr u)
    note ok = \<open>r = Inr u\<close>
    obtain bl' r' where fin: "finalize (dict_keys bl) bl = (bl', r')" by fastforce
    have "j \<in> set (dict_keys bl)" using map_of_Some_keyI [OF bad1(1)] by simp
    then obtain x where r': "r' = Inl x"
      using finalize_Inr_no_bad [of "dict_keys bl" bl bl' _ j e1] fin dist1 bad1
      by (cases r') auto
    from finalize_Inl [of "dict_keys bl" bl bl' x] fin r' obtain j' e' where
      "map_of bl' j' = Some e'" "finalize_entry e' = None" by auto
    moreover have "distinct (dict_keys bl')" using finalize_keys [OF fin] dist1 by simp
    ultimately have "wedged (?p1\<lparr>baseline := bl'\<rparr>)" using nc by (auto simp: wedged_iff)
    with upd app ok fin r' w1 show ?thesis
      by (simp add: calibrate_step_def st_def)
  qed
qed

subsection \<open>Properties of the Calibration State Machine\<close>

text \<open>C6. Refinement: every call of \<open>Polygraph.update\<close>, whatever the reading and the time
  and whether or not it raises, moves the session's phase by one step of the spec's machine
  (Warming_Up to Calibrating or, with a window of zero, to Scoring; Calibrating to itself
  or to Scoring; Scoring to itself), so phases only go forward.\<close>

theorem update_refines_phase_step:
  "phase_step (phase_of p) (phase_of (fst (update now d p))) \<and>
   phase_of p \<le> phase_of (fst (update now d p))"
proof -
  have step: "phase_step (phase_of p) (phase_of (fst (update now d p)))"
  proof (cases "calibrated p")
    case True
    then show ?thesis
      by (simp add: phase_of_def update_keeps_calibrated phase_step.scoring)
  next
    case False
    then show ?thesis
      by (cases "start_time p")
         (auto simp: phase_of_def update_start_time intro: phase_step.intros)
  qed
  then show ?thesis by (simp add: phase_step_mono)
qed

text \<open>C7. With a positive calibration window (the code uses 15 seconds) the first reading
  moves the session from Warming_Up to Calibrating, never straight to Scoring, whether or not
  the reading is complete.\<close>

theorem first_reading_starts_calibration:
  "0 < calibration_time p \<Longrightarrow> phase_of p = Warming_Up \<Longrightarrow>
   phase_of (fst (update now d p)) = Calibrating"
proof -
  assume ct: "0 < calibration_time p" and w: "phase_of p = Warming_Up"
  then have nc: "\<not> calibrated p" and ns: "start_time p = None"
    by (auto simp: phase_of_def split: if_splits)
  have "\<not> calibrated (fst (calibrate_step now now d (p\<lparr>start_time := Some now\<rparr>)))"
    using ct nc by (simp add: calibrate_step_early)
  with nc ns show ?thesis
    by (simp add: update_uncalibrated phase_of_def calibrate_step_fields)
qed

theorem first_reading_starts_calibration_witness:
  "0 < calibration_time (init_polygraph 15) \<and> phase_of (init_polygraph 15) = Warming_Up \<and>
   phase_of (fst (update 0 [(''ekg'', VInt 512)] (init_polygraph 15))) = Calibrating"
proof -
  have a: "0 < calibration_time (init_polygraph 15)" by (simp add: init_polygraph_def)
  have b: "phase_of (init_polygraph 15) = Warming_Up" by (simp add: init_polygraph_def phase_of_def)
  from a b first_reading_starts_calibration [OF a b] show ?thesis by simp
qed

text \<open>C8. The transition to Scoring is one-way and the baseline is frozen: from a calibrated
  session, any sequence of further readings (including ones that look like calibration data,
  or that raise) leaves it calibrated with exactly the same baseline.\<close>

theorem calibration_one_way:
  "calibrated p \<Longrightarrow>
   calibrated (fst (update_run ts p)) \<and> baseline (fst (update_run ts p)) = baseline p"
proof (induction ts arbitrary: p)
  case Nil
  then show ?case by simp
next
  case (Cons td ts)
  obtain now d where td: "td = (now, d)" by fastforce
  from Cons.prems have "calibrated (fst (update now d p))"
    and "baseline (fst (update now d p)) = baseline p"
    by (simp_all add: update_keeps_calibrated)
  with Cons.IH [of "fst (update now d p)"] td show ?case
    by (simp add: update_run_Cons)
qed

theorem calibration_one_way_witness:
  "calibrated \<lparr>calibration_time = 15, start_time = Some 0, calibrated = True,
      baseline = [(''ekg'', Stats 100 0), (''gsr'', Stats 100 0), (''sound'', Stats 100 0)],
      data_history = [], exceed_count = 0, total_count = 0\<rparr> \<and>
   baseline (fst (update_run [(20, [(''ekg'', VInt 100), (''gsr'', VInt 100), (''sound'', VInt 100)])]
      \<lparr>calibration_time = 15, start_time = Some 0, calibrated = True,
      baseline = [(''ekg'', Stats 100 0), (''gsr'', Stats 100 0), (''sound'', Stats 100 0)],
      data_history = [], exceed_count = 0, total_count = 0\<rparr>)) =
   [(''ekg'', Stats 100 0), (''gsr'', Stats 100 0), (''sound'', Stats 100 0)]"
  using calibration_one_way [of "\<lparr>calibration_time = 15, start_time = Some 0, calibrated = True,
      baseline = [(''ekg'', Stats 100 0), (''gsr'', Stats 100 0), (''sound'', Stats 100 0)],
      data_history = [], exceed_count = 0, total_count = 0\<rparr>"
      "[(20, [(''ekg'', VInt 100), (''gsr'', VInt 100), (''sound'', VInt 100)])]"]
  by (simp add: update_run_Cons)

text \<open>C9. Invariant of every session the process can reach from \<open>Polygraph(ct)\<close>:
  \<open>exceed_count \<le> total_count\<close>, at most 1000 readings of history, only channel keys in
  the baseline, statistics for all three channels once calibrated, and no scoring before.\<close>

theorem reachable_session_invariant:
  "poly_reachable ct p \<Longrightarrow> poly_inv p"
  by (rule poly_reachable_inv)

theorem reachable_session_invariant_witness:
  "poly_reachable 15 (init_polygraph 15) \<and> poly_inv (init_polygraph 15)"
  using reachable_session_invariant [OF poly_reachable.init [of 15]] poly_reachable.init [of 15]
  by simp

text \<open>C10. Baseline (spec 4.2): when a call of \<open>update\<close> completes calibration, every
  channel's baseline is the mean and the population standard deviation of all the samples
  accumulated for it, the current reading's included.  That list is never empty, so the
  fallback \<open>vals = [0]\<close> of line 36 never takes effect.\<close>

theorem calibration_baseline_stats:
  assumes inv: "poly_inv p" and nc: "\<not> calibrated p"
    and c: "calibrated (fst (update now d p))"
  shows "\<forall>k \<in> set channels. \<exists>v xs. map_of d k = Some v \<and>
           those (map py_num (samples_of (baseline p) k @ [v])) = Some xs \<and> xs \<noteq> [] \<and>
           map_of (baseline (fst (update now d p))) k = Some (Stats (mean xs) (pop_std xs))"
proof
  fix k assume k: "k \<in> set channels"
  define st where "st = (case start_time p of None \<Rightarrow> now | Some t \<Rightarrow> t)"
  let ?p1 = "p\<lparr>start_time := Some st\<rparr>"
  have upd: "update now d p = calibrate_step now st d ?p1"
    using nc by (simp add: update_uncalibrated st_def)
  have nc1: "\<not> calibrated ?p1" using nc by simp
  have c1: "calibrated (fst (calibrate_step now st d ?p1))" using c upd by simp
  obtain bl u bl' u' where app: "calib_append d channels (baseline p) = (bl, Inr u)"
    and fin: "finalize (dict_keys bl) bl = (bl', Inr u')"
    and "calibration_time p \<le> now - st"
    and res: "calibrate_step now st d ?p1 = (?p1\<lparr>baseline := bl', calibrated := True\<rparr>, Inr None)"
    using calibrate_step_calibrated [OF nc1 c1] by auto
  from calib_append_Inr [OF app distinct_channels] k obtain v where
    v: "map_of d k = Some v" and blk: "map_of bl k = Some (Samples (samples_of (baseline p) k @ [v]))"
    by blast
  have dist: "distinct (dict_keys bl)"
    using calib_append_keys [OF app] inv by (simp add: poly_inv_def)
  have "\<exists>e e'. map_of bl k = Some e \<and> finalize_entry e = Some e' \<and> map_of bl' k = Some e'"
    using finalize_Inr [OF fin dist] map_of_Some_keyI [OF blk] by auto
  with blk obtain e' where
    e': "finalize_entry (Samples (samples_of (baseline p) k @ [v])) = Some e'" and "map_of bl' k = Some e'"
    by auto
  with finalize_entry_Samples [OF _ e'] upd res v show
    "\<exists>v xs. map_of d k = Some v \<and> those (map py_num (samples_of (baseline p) k @ [v])) = Some xs \<and>
       xs \<noteq> [] \<and> map_of (baseline (fst (update now d p))) k = Some (Stats (mean xs) (pop_std xs))"
    by auto
qed

theorem calibration_baseline_stats_witness:
  "poly_inv \<lparr>calibration_time = 15, start_time = Some 0, calibrated = False,
      baseline = [(''ekg'', Samples [VInt 100, VInt 100]), (''gsr'', Samples [VInt 100, VInt 100]),
                  (''sound'', Samples [VInt 100, VInt 100])],
      data_history = [], exceed_count = 0, total_count = 0\<rparr> \<and>
   \<not> calibrated \<lparr>calibration_time = 15, start_time = Some 0, calibrated = False,
      baseline = [(''ekg'', Samples [VInt 100, VInt 100]), (''gsr'', Samples [VInt 100, VInt 100]),
                  (''sound'', Samples [VInt 100, VInt 100])],
      data_history = [], exceed_count = 0, total_count = 0\<rparr> \<and>
   calibrated (fst (update 15 [(''ekg'', VInt 100), (''gsr'', VInt 100), (''sound'', VInt 100)]
      \<lparr>calibration_time = 15, start_time = Some 0, calibrated = False,
      baseline = [(''ekg'', Samples [VInt 100, VInt 100]), (''gsr'', Samples [VInt 100, VInt 100]),
                  (''sound'', Samples [VInt 100, VInt 100])],
      data_history = [], exceed_count = 0, total_count = 0\<rparr>)) \<and>
   mean [100, 100, 100] = 100 \<and> pop_std [100, 100, 100] = 0"
proof -
  let ?p = "\<lparr>calibration_time = 15, start_time = Some 0, calibrated = False,
      baseline = [(''ekg'', Samples [VInt 100, VInt 100]), (''gsr'', Samples [VInt 100, VInt 100]),
                  (''sound'', Samples [VInt 100, VInt 100])],
      data_history = [], exceed_count = 0, total_count = 0\<rparr>"
  let ?d = "[(''ekg'', VInt 100), (''gsr'', VInt 100), (''sound'', VInt 100)]"
  have i: "poly_inv ?p"
    by (simp add: poly_inv_def channels_def)
  have n: "\<not> calibrated ?p" by simp
  have c: "calibrated (fst (update 15 ?d ?p))"
    by (simp add: update_def calibrate_step_def channels_def finalize_entry_def calib_append_Cons
        entry_or_new_def)
  have "mean [100, 100, 100] = 100 \<and> pop_std [100, 100, 100] = 0"
    by (simp add: mean_def pop_std_def)
  with i n c calibration_baseline_stats [OF i n c] show ?thesis by simp
qed

text \<open>C17. A channel that is missing from every reading keeps the session calibrating for
  ever: each call raises \<open>KeyError\<close> (so nothing is scored or published), and the
  calibration never completes, instead of the zero baseline the spec (4.2) describes.\<close>

theorem missing_channel_blocks_calibration:
  "k \<in> set channels \<Longrightarrow> \<forall>(now, d) \<in> set ts. map_of d k = None \<Longrightarrow> \<not> calibrated p \<Longrightarrow>
   \<not> calibrated (fst (update_run ts p)) \<and> list_all isl (snd (update_run ts p))"
proof (induction ts arbitrary: p)
  case Nil
  then show ?case by simp
next
  case (Cons td ts)
  obtain now d where td: "td = (now, d)" by fastforce
  with Cons.prems have "map_of d k = None" by auto
  with Cons.prems have "\<not> calibrated (fst (update now d p)) \<and> isl (snd (update now d p))"
    by (simp add: update_missing_channel)
  with Cons.IH [of "fst (update now d p)"] Cons.prems td show ?case
    by (simp add: update_run_Cons)
qed

theorem missing_channel_blocks_calibration_witness:
  "''sound'' \<in> set channels \<and> \<not> calibrated (init_polygraph 15) \<and>
   \<not> calibrated (fst (update_run [(0, [(''ekg'', VInt 100), (''gsr'', VInt 100)]),
                      (20, [(''ekg'', VInt 100), (''gsr'', VInt 100)])] (init_polygraph 15))) \<and>
   list_all isl (snd (update_run [(0, [(''ekg'', VInt 100), (''gsr'', VInt 100)]),
                      (20, [(''ekg'', VInt 100), (''gsr'', VInt 100)])] (init_polygraph 15)))"
proof -
  have a: "''sound'' \<in> set channels" by (simp add: channels_def)
  have b: "\<forall>(now, d) \<in> set [(0::real, [(''ekg'', VInt 100), (''gsr'', VInt 100)]),
                      (20, [(''ekg'', VInt 100), (''gsr'', VInt 100)])]. map_of d ''sound'' = None"
    by simp
  have c: "\<not> calibrated (init_polygraph 15)" by (simp add: init_polygraph_def)
  from a b c missing_channel_blocks_calibration [OF a b c] show ?thesis by simp
qed

text \<open>C18. A sample that is not a number (a value such as \<open>12.5\<close>, \<open>-3\<close> or an empty
  field, which the parser keeps as text) wedges the calibration for good: once the baseline
  holds an entry that \<open>finalize\<close> cannot average, the session never becomes calibrated, and
  every call made after the calibration window raises (\<open>TypeError\<close> from \<open>sum\<close>, or
  \<open>AttributeError\<close> on an entry already turned into a dict), so from then on nothing is
  returned to the serial loop.\<close>

theorem text_sample_wedges_calibration:
  "poly_inv p \<Longrightarrow> wedged p \<Longrightarrow> start_time p = Some st \<Longrightarrow>
   \<not> calibrated (fst (update_run ts p)) \<and>
   list_all2 (\<lambda>(now, d) r. calibration_time p \<le> now - st \<longrightarrow> isl r) ts (snd (update_run ts p))"
proof (induction ts arbitrary: p)
  case Nil
  then show ?case by (simp add: wedged_def)
next
  case (Cons td ts)
  obtain now d where td: "td = (now, d)" by fastforce
  let ?p' = "fst (update now d p)"
  from wedged_update [OF Cons.prems(1,2), of now d] Cons.prems(3)
  have w': "wedged ?p'" and r: "calibration_time p \<le> now - st \<longrightarrow> isl (snd (update now d p))"
    by simp_all
  have "poly_inv ?p'" using Cons.prems(1) by (rule update_inv)
  moreover have "start_time ?p' = Some st" using Cons.prems(3) by (simp add: update_start_time)
  ultimately have "\<not> calibrated (fst (update_run ts ?p')) \<and>
     list_all2 (\<lambda>(now, d) r. calibration_time ?p' \<le> now - st \<longrightarrow> isl r) ts (snd (update_run ts ?p'))"
    using w' Cons.IH by blast
  with r td show ?case by (simp add: update_run_Cons update_calibration_time)
qed

theorem text_sample_wedges_calibration_witness:
  "poly_inv \<lparr>calibration_time = 15, start_time = Some 0, calibrated = False,
      baseline = [(''ekg'', Samples [VInt 1]), (''gsr'', Samples [VStr ''12.5'']),
                  (''sound'', Samples [VInt 2])],
      data_history = [], exceed_count = 0, total_count = 0\<rparr> \<and>
   wedged \<lparr>calibration_time = 15, start_time = Some 0, calibrated = False,
      baseline = [(''ekg'', Samples [VInt 1]), (''gsr'', Samples [VStr ''12.5'']),
                  (''sound'', Samples [VInt 2])],
      data_history = [], exceed_count = 0, total_count = 0\<rparr> \<and>
   \<not> calibrated (fst (update_run [(20, [(''ekg'', VInt 1), (''gsr'', VInt 2), (''sound'', VInt 3)])]
      \<lparr>calibration_time = 15, start_time = Some 0, calibrated = False,
      baseline = [(''ekg'', Samples [VInt 1]), (''gsr'', Samples [VStr ''12.5'']),
                  (''sound'', Samples [VInt 2])],
      data_history = [], exceed_count = 0, total_count = 0\<rparr>))"
proof -
  let ?p = "\<lparr>calibration_time = 15, start_time = Some 0, calibrated = False,
      baseline = [(''ekg'', Samples [VInt 1]), (''gsr'', Samples [VStr ''12.5'']),
                  (''sound'', Samples [VInt 2])],
      data_history = [], exceed_count = 0, total_count = 0\<rparr>"
  have i: "poly_inv ?p" by (simp add: poly_inv_def channels_def)
  have w: "wedged ?p" by (simp add: wedged_def finalize_entry_def)
  have s: "start_time ?p = Some 0" by simp
  from i w text_sample_wedges_calibration [OF i w s,
      of "[(20, [(''ekg'', VInt 1), (''gsr'', VInt 2), (''sound'', VInt 3)])]"]
  show ?thesis by simp
qed

text \<open>C19. A reading that lacks a later channel is rejected with \<open>KeyError\<close>, but only after
  the earlier channels' values were appended (lines 27--30): during calibration a reading
  with \<open>ekg\<close> and no \<open>gsr\<close> raises, is never published, and still adds its \<open>ekg\<close>
  value to the \<open>ekg\<close> baseline samples.\<close>

theorem key_error_keeps_partial_samples:
  assumes nc: "\<not> calibrated p" and ekg: "map_of d ''ekg'' = Some v"
    and gsr: "map_of d ''gsr'' = None" and ns: "\<not> is_stats (entry_or_new (baseline p) ''ekg'')"
    and ns': "\<not> is_stats (entry_or_new (baseline p) ''gsr'')"
  shows "snd (update now d p) = Inl (KeyError ''gsr'') \<and>
         samples_of (baseline (fst (update now d p))) ''ekg'' = samples_of (baseline p) ''ekg'' @ [v]"
proof -
  obtain vs where vs: "entry_or_new (baseline p) ''ekg'' = Samples vs"
    using ns by (cases "entry_or_new (baseline p) ''ekg''") auto
  then have "samples_of (baseline p) ''ekg'' = vs"
    by (auto simp: samples_of_def entry_or_new_def split: option.splits)
  moreover have "entry_or_new (dict_set ''ekg'' (Samples (vs @ [v])) (baseline p)) ''gsr'' =
                 entry_or_new (baseline p) ''gsr''"
    by (simp add: entry_or_new_def dict_simps)
  ultimately show ?thesis
    using nc ekg gsr vs ns'
    by (cases "entry_or_new (baseline p) ''gsr''")
       (simp_all add: update_uncalibrated calibrate_step_def channels_def calib_append_Cons
         samples_of_def dict_simps)
qed

theorem key_error_keeps_partial_samples_witness:
  "\<not> calibrated (init_polygraph 15) \<and> map_of [(''ekg'', VInt 500)] ''ekg'' = Some (VInt 500) \<and>
   map_of [(''ekg'', VInt 500)] ''gsr'' = None \<and>
   \<not> is_stats (entry_or_new (baseline (init_polygraph 15)) ''ekg'') \<and>
   \<not> is_stats (entry_or_new (baseline (init_polygraph 15)) ''gsr'') \<and>
   snd (update 0 [(''ekg'', VInt 500)] (init_polygraph 15)) = Inl (KeyError ''gsr'') \<and>
   samples_of (baseline (fst (update 0 [(''ekg'', VInt 500)] (init_polygraph 15)))) ''ekg'' =
     [VInt 500]"
proof -
  have a: "\<not> calibrated (init_polygraph 15)" by (simp add: init_polygraph_def)
  have b: "map_of [(''ekg'', VInt 500)] ''ekg'' = Some (VInt 500)" by simp
  have c: "map_of [(''ekg'', VInt 500)] ''gsr'' = None" by simp
  have e: "\<not> is_stats (entry_or_new (baseline (init_polygraph 15)) ''ekg'')"
    by (simp add: init_polygraph_def entry_or_new_def)
  have f: "\<not> is_stats (entry_or_new (baseline (init_polygraph 15)) ''gsr'')"
    by (simp add: init_polygraph_def entry_or_new_def)
  from a b c e f key_error_keeps_partial_samples [OF a b c e f, of 0] show ?thesis
    by (simp add: init_polygraph_def samples_of_def)
qed

end
