(* ===== verification/Scoring.thy ===== *)
theory Scoring
  imports Calibration
begin

text \<open>
  The Deviation Scorer (spec 4.3) as an abstract specification and its refinement by the
  scoring branch of \<open>Polygraph.update\<close> (\<open>score_step\<close>, lines 44--53).  The spec sees a
  baseline as a function from channel to mean and a reading as a function from channel to
  value: a reading exceeds when some channel's value is above its mean times the channel's
  multiplier (1.2, 1.2, 1.3), and the score after a sequence of scored readings is the
  percentage of them that exceeded, over the whole session (not a window).
  \<open>baseline_means\<close> and \<open>reading_values\<close> abstract the code's dicts to those functions.
\<close>

definition spec_threshold :: "string \<Rightarrow> real" where
  "spec_threshold k = (if k = ''sound'' then 13 / 10 else 6 / 5)"

definition spec_exceeds :: "(string \<Rightarrow> real) \<Rightarrow> (string \<Rightarrow> real) \<Rightarrow> bool" where
  "spec_exceeds m x \<longleftrightarrow> (\<exists>k \<in> set channels. x k > m k * spec_threshold k)"

definition spec_score :: "(string \<Rightarrow> real) \<Rightarrow> (string \<Rightarrow> real) list \<Rightarrow> real" where
  "spec_score m xs = 100 * real (length (filter (spec_exceeds m) xs)) / real (length xs)"

definition baseline_means :: "bl_entry pydict \<Rightarrow> string \<Rightarrow> real" where
  "baseline_means bl k = (case map_of bl k of Some (Stats a s) \<Rightarrow> a | _ \<Rightarrow> 0)"

definition reading_values :: "reading \<Rightarrow> string \<Rightarrow> real" where
  "reading_values d k = (case map_of d k of Some v \<Rightarrow> (case py_num v of Some x \<Rightarrow> x | None \<Rightarrow> 0) | None \<Rightarrow> 0)"

definition numeric_reading :: "reading \<Rightarrow> bool" where
  "numeric_reading d \<longleftrightarrow>
     list_all (\<lambda>k. case map_of d k of Some v \<Rightarrow> py_num v \<noteq> None | None \<Rightarrow> False) channels"

text \<open>
  The score returned for the \<open>i\<close>-th reading (from 0) of a run of scored readings
  \<open>xs\<close>, when the counters were \<open>e0\<close> and \<open>t0\<close> before the run.
\<close>

definition cumulative_score ::
  "nat \<Rightarrow> nat \<Rightarrow> (string \<Rightarrow> real) \<Rightarrow> (string \<Rightarrow> real) list \<Rightarrow> nat \<Rightarrow> real" where
  "cumulative_score e0 t0 m xs i =
     real (e0 + length (filter (spec_exceeds m) (take (Suc i) xs))) / real (t0 + Suc i) * 100"

subsection \<open>One reading\<close>

lemma thresholds_spec: "k \<in> set channels \<Longrightarrow> map_of thresholds k = Some (spec_threshold k)"
  by (auto simp: channels_def thresholds_def spec_threshold_def)

lemma count_exceed_spec:
  assumes bl: "stats_baseline bl" and d: "numeric_reading d" and ks: "set ks \<subseteq> set channels"
  shows "count_exceed d bl ks n =
    Inr (n + length (filter (\<lambda>k. reading_values d k > baseline_means bl k * spec_threshold k) ks))"
  using ks
proof (induction ks arbitrary: n)
  case Nil
  then show ?case by simp
next
  case (Cons k ks)
  then have k: "k \<in> set channels" by simp
  from bl k obtain a s where a: "map_of bl k = Some (Stats a s)"
    by (auto simp: stats_baseline_def list_all_iff split: option.splits elim!: is_stats.elims)
  from d k obtain v x where v: "map_of d k = Some v" "py_num v = Some x"
    by (auto simp: numeric_reading_def list_all_iff split: option.splits)
  from Cons a v k show ?case
    by (simp add: thresholds_spec baseline_means_def reading_values_def)
qed

lemma count_exceed_channels:
  "stats_baseline bl \<Longrightarrow> numeric_reading d \<Longrightarrow>
   \<exists>n. count_exceed d bl channels 0 = Inr n \<and> (0 < n \<longleftrightarrow> spec_exceeds (baseline_means bl) (reading_values d))"
  by (auto simp: count_exceed_spec spec_exceeds_def filter_empty_conv length_greater_0_conv)

lemma score_step_numeric:
  assumes "stats_baseline (baseline p)" and "numeric_reading d"
  shows "score_step d p =
    (let e = exceed_count p + (if spec_exceeds (baseline_means (baseline p)) (reading_values d) then 1 else 0);
         t = Suc (total_count p)
     in (p\<lparr>data_history := deque_append history_maxlen (data_history p) d,
           total_count := t, exceed_count := e\<rparr>, Inr (Some (real e / real t * 100))))"
  using count_exceed_channels [OF assms] by (auto simp: score_step_def Let_def)

subsection \<open>Runs of scored readings\<close>

lemma cumulative_score_Cons_0:
  "cumulative_score e0 t0 m (x # xs) 0 =
   real (e0 + (if spec_exceeds m x then 1 else 0)) / real (Suc t0) * 100"
  by (simp add: cumulative_score_def)

lemma cumulative_score_Cons_Suc:
  "cumulative_score e0 t0 m (x # xs) (Suc i) =
   cumulative_score (e0 + (if spec_exceeds m x then 1 else 0)) (Suc t0) m xs i"
  by (simp add: cumulative_score_def)

lemma score_run:
  assumes "calibrated p" "start_time p = Some st" "stats_baseline (baseline p)"
    and "list_all (\<lambda>(now, d). numeric_reading d) ts"
  shows "snd (update_run ts p) =
           map (\<lambda>i. Inr (Some (cumulative_score (exceed_count p) (total_count p)
                  (baseline_means (baseline p)) (map (\<lambda>(now, d). reading_values d) ts) i)))
             [0..<length ts] \<and>
         total_count (fst (update_run ts p)) = total_count p + length ts \<and>
         exceed_count (fst (update_run ts p)) = exceed_count p +
           length (filter (spec_exceeds (baseline_means (baseline p))) (map (\<lambda>(now, d). reading_values d) ts)) \<and>
         baseline (fst (update_run ts p)) = baseline p"
  using assms
proof (induction ts arbitrary: p)
  case Nil
  then show ?case by simp
next
  case (Cons td ts)
  obtain now d where td: "td = (now, d)" by fastforce
  with Cons.prems have nd: "numeric_reading d" and rest: "list_all (\<lambda>(now, d). numeric_reading d) ts"
    by auto
  let ?m = "baseline_means (baseline p)"
  let ?c = "if spec_exceeds ?m (reading_values d) then 1 else 0 :: nat"
  let ?p1 = "fst (update now d p)"
  have upd: "update now d p = score_step d p"
    using Cons.prems by (simp add: update_calibrated)
  have p1: "calibrated ?p1" "start_time ?p1 = Some st" "baseline ?p1 = baseline p"
    "total_count ?p1 = Suc (total_count p)" "exceed_count ?p1 = exceed_count p + ?c"
    "snd (update now d p) = Inr (Some (real (exceed_count p + ?c) / real (Suc (total_count p)) * 100))"
    using Cons.prems nd by (simp_all add: upd score_step_numeric Let_def)
  have "stats_baseline (baseline ?p1)" using Cons.prems(3) p1(3) by simp
  note ih = Cons.IH [OF p1(1,2) this rest]
  show ?case
    using ih p1 td
    by (simp add: update_run_Cons map_upt_Suc cumulative_score_Cons_0 cumulative_score_Cons_Suc
        add.assoc del: of_nat_add of_nat_Suc upt_Suc)
qed

lemma count_exceed_missing:
  "k \<in> set ks \<Longrightarrow> map_of d k = None \<Longrightarrow> isl (count_exceed d bl ks n)"
proof (induction ks arbitrary: n)
  case (Cons k' ks)
  then show ?case by (auto split: option.splits bl_entry.splits)
qed simp

lemma cumulative_score_spec:
  "i < length xs \<Longrightarrow> cumulative_score 0 0 m xs i = spec_score m (take (Suc i) xs)"
proof -
  assume "i < length xs"
  then have "length (take (Suc i) xs) = Suc i" by simp
  then show ?thesis
    by (simp add: cumulative_score_def spec_score_def mult.commute del: length_take of_nat_Suc)
qed

lemma poly_inv_stats: "poly_inv p \<Longrightarrow> calibrated p \<Longrightarrow> stats_baseline (baseline p)"
  by (simp add: poly_inv_def)

subsection \<open>Properties of the Deviation Scorer\<close>

text \<open>C12. Refinement of the scoring contract: from a session that has just been calibrated
  (no reading scored yet), a run of readings with a number for every channel returns, for
  its \<open>i\<close>-th reading, the spec's cumulative score of the first \<open>i+1\<close> readings: the
  percentage of them in which at least one channel exceeded its mean times its multiplier.\<close>

theorem score_refines_cumulative_spec:
  assumes "poly_inv p" "calibrated p" "total_count p = 0"
    and "list_all (\<lambda>(now, d). numeric_reading d) ts"
  shows "snd (update_run ts p) =
           map (\<lambda>i. Inr (Some (spec_score (baseline_means (baseline p))
                  (take (Suc i) (map (\<lambda>(now, d). reading_values d) ts))))) [0..<length ts]"
proof -
  obtain st where st: "start_time p = Some st"
    using assms(1,2) poly_inv_calibrated_start by blast
  have e0: "exceed_count p = 0" using assms(1,3) by (simp add: poly_inv_def)
  from score_run [OF assms(2) st poly_inv_stats [OF assms(1,2)] assms(4)] assms(3) e0
  show ?thesis by (simp add: cumulative_score_spec)
qed

theorem score_refines_cumulative_spec_witness:
  "poly_inv \<lparr>calibration_time = 15, start_time = Some 0, calibrated = True,
      baseline = [(''ekg'', Stats 100 0), (''gsr'', Stats 100 0), (''sound'', Stats 100 0)],
      data_history = [], exceed_count = 0, total_count = 0\<rparr> \<and>
   snd (update_run [(20, [(''ekg'', VInt 121), (''gsr'', VInt 100), (''sound'', VInt 100)]),
                    (21, [(''ekg'', VInt 100), (''gsr'', VInt 100), (''sound'', VInt 100)])]
      \<lparr>calibration_time = 15, start_time = Some 0, calibrated = True,
      baseline = [(''ekg'', Stats 100 0), (''gsr'', Stats 100 0), (''sound'', Stats 100 0)],
      data_history = [], exceed_count = 0, total_count = 0\<rparr>) = [Inr (Some 100), Inr (Some 50)]"
proof -
  let ?p = "\<lparr>calibration_time = 15, start_time = Some 0, calibrated = True,
      baseline = [(''ekg'', Stats 100 0), (''gsr'', Stats 100 0), (''sound'', Stats 100 0)],
      data_history = [], exceed_count = 0, total_count = 0\<rparr>"
  let ?ts = "[(20::real, [(''ekg'', VInt 121), (''gsr'', VInt 100), (''sound'', VInt 100)]),
              (21, [(''ekg'', VInt 100), (''gsr'', VInt 100), (''sound'', VInt 100)])]"
  have i: "poly_inv ?p" by (simp add: poly_inv_def channels_def stats_baseline_def)
  have c: "calibrated ?p" and t: "total_count ?p = 0" by simp_all
  have n: "list_all (\<lambda>(now, d). numeric_reading d) ?ts" by (simp add: numeric_reading_def channels_def)
  have "spec_score (baseline_means (baseline ?p)) (take (Suc 0) (map (\<lambda>(now, d). reading_values d) ?ts)) = 100"
       "spec_score (baseline_means (baseline ?p)) (take (Suc 1) (map (\<lambda>(now, d). reading_values d) ?ts)) = 50"
    by (simp_all add: spec_score_def spec_exceeds_def channels_def spec_threshold_def
        baseline_means_def reading_values_def)
  with i score_refines_cumulative_spec [OF i c t n] show ?thesis
    by (simp add: upt_conv_Cons)
qed

lemma update_score_percent:
  "poly_inv p \<Longrightarrow> snd (update now d p) = Inr (Some x) \<Longrightarrow> 0 \<le> x \<and> x \<le> 100"
proof -
  assume inv: "poly_inv p" and r: "snd (update now d p) = Inr (Some x)"
  have cal: "calibrated p"
  proof (rule ccontr)
    assume "\<not> calibrated p"
    with r show False
      by (auto simp: update_uncalibrated calibrate_step_def split: prod.splits sum.splits if_splits)
  qed
  with inv obtain t where "start_time p = Some t" using poly_inv_calibrated_start by blast
  obtain n where n: "count_exceed d (baseline p) channels 0 = Inr n"
    using cal r \<open>start_time p = Some t\<close>
    by (cases "count_exceed d (baseline p) channels 0")
       (auto simp: update_calibrated score_step_def Let_def)
  define b where "b = (0 < n)"
  have x: "x = real (exceed_count p + (if b then 1 else 0)) / real (Suc (total_count p)) * 100"
    using cal r n \<open>start_time p = Some t\<close>
    by (simp add: update_calibrated score_step_def Let_def b_def del: of_nat_add of_nat_Suc)
  define k where "k = exceed_count p + (if b then 1 else 0)"
  have "k \<le> Suc (total_count p)"
    using inv by (simp add: poly_inv_def k_def)
  then have "real k / real (Suc (total_count p)) \<le> 1"
    by (simp del: of_nat_Suc)
  moreover have "x = real k / real (Suc (total_count p)) * 100"
    using x by (simp only: k_def)
  ultimately show ?thesis by (simp add: divide_le_eq del: of_nat_Suc)
qed

text \<open>C14. Every score the scorer returns is a percentage: in a session satisfying the
  invariant, \<open>update\<close> returns either no score or a value between 0 and 100.\<close>

theorem update_score_bounds:
  "poly_inv p \<Longrightarrow> snd (update now d p) = Inr (Some x) \<Longrightarrow> 0 \<le> x \<and> x \<le> 100"
  by (rule update_score_percent)

theorem update_score_bounds_witness:
  "poly_inv \<lparr>calibration_time = 15, start_time = Some 0, calibrated = True,
      baseline = [(''ekg'', Stats 100 0), (''gsr'', Stats 100 0), (''sound'', Stats 100 0)],
      data_history = [], exceed_count = 1, total_count = 2\<rparr> \<and>
   snd (update 30 [(''ekg'', VInt 100), (''gsr'', VInt 100), (''sound'', VInt 131)]
      \<lparr>calibration_time = 15, start_time = Some 0, calibrated = True,
      baseline = [(''ekg'', Stats 100 0), (''gsr'', Stats 100 0), (''sound'', Stats 100 0)],
      data_history = [], exceed_count = 1, total_count = 2\<rparr>) = Inr (Some (200 / 3)) \<and>
   0 \<le> (200 / 3 :: real) \<and> (200 / 3 :: real) \<le> 100"
proof -
  let ?p = "\<lparr>calibration_time = 15, start_time = Some 0, calibrated = True,
      baseline = [(''ekg'', Stats 100 0), (''gsr'', Stats 100 0), (''sound'', Stats 100 0)],
      data_history = [], exceed_count = 1, total_count = 2\<rparr>"
  let ?d = "[(''ekg'', VInt 100), (''gsr'', VInt 100), (''sound'', VInt 131)]"
  have i: "poly_inv ?p" by (simp add: poly_inv_def channels_def stats_baseline_def)
  have r: "snd (update 30 ?d ?p) = Inr (Some (200 / 3))"
    by (simp add: update_def score_step_def channels_def thresholds_def)
  from i r update_score_bounds [OF i r] show ?thesis by simp
qed

text \<open>C15. A scored reading that lacks a channel is not scored with that channel skipped, as
  spec 4.3 says: \<open>data[k]\<close> raises \<open>KeyError\<close>, the counters are left unchanged (the
  reading is never published), and the reading has nevertheless been appended to the
  history.\<close>

theorem scoring_missing_channel_raises:
  "calibrated p \<Longrightarrow> start_time p = Some st \<Longrightarrow> k \<in> set channels \<Longrightarrow> map_of d k = None \<Longrightarrow>
   isl (snd (update now d p)) \<and> total_count (fst (update now d p)) = total_count p \<and>
   exceed_count (fst (update now d p)) = exceed_count p \<and>
   data_history (fst (update now d p)) = deque_append history_maxlen (data_history p) d"
  using count_exceed_missing [of k channels d "baseline p" 0]
  by (auto simp: update_calibrated score_step_def Let_def split: sum.splits)

theorem scoring_missing_channel_raises_witness:
  "calibrated \<lparr>calibration_time = 15, start_time = Some 0, calibrated = True,
      baseline = [(''ekg'', Stats 100 0), (''gsr'', Stats 100 0), (''sound'', Stats 100 0)],
      data_history = [], exceed_count = 0, total_count = 0\<rparr> \<and>
   ''sound'' \<in> set channels \<and>
   snd (update 20 [(''ekg'', VInt 150), (''gsr'', VInt 100)]
      \<lparr>calibration_time = 15, start_time = Some 0, calibrated = True,
      baseline = [(''ekg'', Stats 100 0), (''gsr'', Stats 100 0), (''sound'', Stats 100 0)],
      data_history = [], exceed_count = 0, total_count = 0\<rparr>) = Inl (KeyError ''sound'')"
proof -
  let ?p = "\<lparr>calibration_time = 15, start_time = Some 0, calibrated = True,
      baseline = [(''ekg'', Stats 100 0), (''gsr'', Stats 100 0), (''sound'', Stats 100 0)],
      data_history = [], exceed_count = 0, total_count = 0\<rparr>"
  let ?d = "[(''ekg'', VInt 150), (''gsr'', VInt 100)]"
  have c: "calibrated ?p" and s: "start_time ?p = Some 0" by simp_all
  have k: "''sound'' \<in> set channels" by (simp add: channels_def)
  have m: "map_of ?d ''sound'' = None" by simp
  have "snd (update 20 ?d ?p) = Inl (KeyError ''sound'')"
    using scoring_missing_channel_raises [OF c s k m, of 20]
    by (simp add: update_def score_step_def channels_def thresholds_def)
  with c k show ?thesis by simp
qed

end
