(* ===== verification/Ingest.thy ===== *)
theory Ingest
  imports Line_Parser Scoring
begin

text \<open>
  The Ingestion Loop and the Actuator Relay: \<open>read_serial\<close> of \<open>src/pythonWeb.py\<close>
  (lines 93--137).  One iteration of the \<open>while True\<close> loop is \<open>serial_step\<close>; it
  reads the environment from a \<open>tick\<close>: the decoded line (\<open>None\<close> when
  \<open>ser.readline()\<close> raised), the three values \<open>time.time()\<close> returns (line 20 inside
  \<open>update\<close>, line 124 for the cooldown test and line 133 after the relay write) and
  whether the output port opened.  Its observable effects are \<open>Emit\<close> (the
  \<open>socketio.emit('sensor_data', data)\<close> of line 121) and \<open>Relay\<close> (the bytes written to
  the output device at line 129).  The state carried from one iteration to the next is the
  \<open>Polygraph\<close> object and \<open>last_sent_time\<close>.  Every exception raised inside an
  iteration is caught at line 135 and the loop continues with the state as the exception
  left it.  A run of the endless loop is observed on a finite sequence of ticks.
\<close>

subsection \<open>The Python builtins the loop calls\<close>

text \<open>
  \<open>round(x, 1)\<close> rounds half to even at the first decimal (on exact reals: the
  representation error of binary floats is not modelled); \<open>int(x)\<close> truncates towards 0.
\<close>

definition round_half_even :: "real \<Rightarrow> int" where
  "round_half_even y =
     (let f = \<lfloor>y\<rfloor>; r = y - of_int f in
      if r < 1 / 2 then f else if 1 / 2 < r then f + 1 else if even f then f else f + 1)"

definition py_round1 :: "real \<Rightarrow> real" where
  "py_round1 x = of_int (round_half_even (x * 10)) / 10"

definition py_trunc :: "real \<Rightarrow> int" where
  "py_trunc x = (if 0 \<le> x then \<lfloor>x\<rfloor> else \<lceil>x\<rceil>)"

subsection \<open>State, environment and effects\<close>

record tick =
  rx :: "string option"
  t_update :: real
  t_check :: real
  t_sent :: real
  esp_ok :: bool

text \<open>
  The loop state: the \<open>Polygraph\<close> object, \<open>last_sent_time\<close>, and the relay cooldown,
  the constant of line 124 (10 seconds; the comment at line 123 speaks of 3 seconds, and
  spec 6 makes the interval configuration), fixed for the lifetime of the loop.
\<close>

record ingest =
  poly :: polygraph
  last_sent_time :: real
  cooldown :: real

datatype effect = Emit reading | Relay string

definition relay_cooldown :: real where
  "relay_cooldown = 10"

text \<open>Lines 125 and 129: \<open>f"{stress_percent}\n".encode()\<close> with \<open>stress_percent = int(score)\<close>.\<close>

definition esp_message :: "real \<Rightarrow> string" where
  "esp_message score = show_int (py_trunc score) @ [CHR 0x0A]"

text \<open>
  Line 116 writes \<open>maybe_lying\<close> into the very dict that line 44 appended to
  \<open>data_history\<close>, so the last entry of the history gains the key as well.
\<close>

definition annotate_history :: "reading \<Rightarrow> polygraph \<Rightarrow> polygraph" where
  "annotate_history d' p = p\<lparr>data_history := butlast (data_history p) @ [d']\<rparr>"

text \<open>
  Lines 114--133: the parsed reading \<open>d\<close> is handed to \<open>update\<close>; an exception leaves
  the object as \<open>update\<close> left it and skips the rest of the iteration; otherwise the
  reading, with \<open>maybe_lying\<close> attached, is emitted, and a score is relayed when the
  cooldown has passed.  \<open>last_sent_time\<close> is reset whether or not the output port
  opened (the inner \<open>except\<close> of line 131).
\<close>

definition score_and_publish :: "tick \<Rightarrow> reading \<Rightarrow> ingest \<Rightarrow> ingest \<times> effect list" where
  "score_and_publish t d s =
     (case update (t_update t) d (poly s) of
        (p, Inl e) \<Rightarrow> (s\<lparr>poly := p\<rparr>, [])
      | (p, Inr None) \<Rightarrow> (s\<lparr>poly := p\<rparr>, [Emit (dict_set ''maybe_lying'' VNone d)])
      | (p, Inr (Some x)) \<Rightarrow>
          (let d' = dict_set ''maybe_lying'' (VFloat (py_round1 x)) d;
               s1 = s\<lparr>poly := annotate_history d' p\<rparr>
           in if t_check t - last_sent_time s > cooldown s
              then (s1\<lparr>last_sent_time := t_sent t\<rparr>,
                    Emit d' # (if esp_ok t then [Relay (esp_message x)] else []))
              else (s1, [Emit d'])))"

text \<open>
  Lines 106--137: one iteration.  A failed read (caught at line 135), a blank line
  (line 108) and a line the parser rejects (line 111) leave everything unchanged.
\<close>

definition serial_step :: "tick \<Rightarrow> ingest \<Rightarrow> ingest \<times> effect list" where
  "serial_step t s =
     (case rx t of
        None \<Rightarrow> (s, [])
      | Some raw \<Rightarrow>
          (let line = py_strip raw in
           if line = [] then (s, [])
           else case parse_line line of
             None \<Rightarrow> (s, [])
           | Some d \<Rightarrow> if d = [] then (s, []) else score_and_publish t d s))"

fun serial_run :: "tick list \<Rightarrow> ingest \<Rightarrow> ingest \<times> effect list list" where
  "serial_run [] s = (s, [])"
| "serial_run (t # ts) s =
     (let (s1, es) = serial_step t s; (s2, ess) = serial_run ts s1 in (s2, es # ess))"

text \<open>
  Lines 93--104: if the input port does not open, the function returns before the loop
  (\<open>None\<close>); otherwise the loop starts from a fresh \<open>Polygraph(calibration_time=15)\<close>
  and \<open>last_sent_time = 0\<close>.
\<close>

definition init_ingest :: ingest where
  "init_ingest = \<lparr>poly = init_polygraph 15, last_sent_time = 0, cooldown = relay_cooldown\<rparr>"

definition read_serial :: "bool \<Rightarrow> tick list \<Rightarrow> (ingest \<times> effect list list) option" where
  "read_serial port_ok ts = (if port_ok then Some (serial_run ts init_ingest) else None)"

subsection \<open>Observations of a run\<close>

text \<open>The reading a tick carries to \<open>update\<close>, if any (lines 107--112).\<close>

definition tick_reading :: "tick \<Rightarrow> reading option" where
  "tick_reading t = (case rx t of None \<Rightarrow> None | Some raw \<Rightarrow> parse_line (py_strip raw))"

fun is_relay :: "effect \<Rightarrow> bool" where
  "is_relay (Relay m) = True"
| "is_relay (Emit d) = False"

fun is_emit :: "effect \<Rightarrow> bool" where
  "is_emit (Emit d) = True"
| "is_emit (Relay m) = False"

text \<open>The times (the clock of line 124) at which the output device is written.\<close>

fun relay_times :: "tick list \<Rightarrow> ingest \<Rightarrow> real list" where
  "relay_times [] s = []"
| "relay_times (t # ts) s =
     (if list_ex is_relay (snd (serial_step t s)) then [t_check t] else []) @
     relay_times ts (fst (serial_step t s))"


subsection \<open>Iterations\<close>

lemma serial_step_tick_reading:
  "serial_step t s = (case tick_reading t of None \<Rightarrow> (s, []) | Some d \<Rightarrow> score_and_publish t d s)"
  by (auto simp: serial_step_def tick_reading_def Let_def parse_line_Nil
      dest: parse_line_nonempty split: option.split)

lemma score_and_publish_last_sent:
  "last_sent_time (fst (score_and_publish t d s)) = last_sent_time s \<or>
   (cooldown s < t_check t - last_sent_time s \<and>
    last_sent_time (fst (score_and_publish t d s)) = t_sent t)"
  by (auto simp: score_and_publish_def Let_def split: prod.split sum.split option.split)

lemma score_and_publish_relay:
  "list_ex is_relay (snd (score_and_publish t d s)) \<Longrightarrow>
   cooldown s < t_check t - last_sent_time s \<and>
   last_sent_time (fst (score_and_publish t d s)) = t_sent t"
  by (auto simp: score_and_publish_def Let_def split: prod.splits sum.splits option.splits if_splits)

lemma serial_step_last_sent:
  "last_sent_time (fst (serial_step t s)) = last_sent_time s \<or>
   (cooldown s < t_check t - last_sent_time s \<and> last_sent_time (fst (serial_step t s)) = t_sent t)"
  using score_and_publish_last_sent [of t _ s]
  by (simp add: serial_step_tick_reading split: option.split)

lemma serial_step_relay:
  "list_ex is_relay (snd (serial_step t s)) \<Longrightarrow>
   cooldown s < t_check t - last_sent_time s \<and> last_sent_time (fst (serial_step t s)) = t_sent t"
  using score_and_publish_relay [of t _ s]
  by (simp add: serial_step_tick_reading split: option.splits)

lemma score_and_publish_cooldown [simp]: "cooldown (fst (score_and_publish t d s)) = cooldown s"
  by (simp add: score_and_publish_def Let_def split: prod.split sum.split option.split)

lemma serial_step_cooldown [simp]: "cooldown (fst (serial_step t s)) = cooldown s"
  by (simp add: serial_step_tick_reading split: option.split)

lemma relay_times_after:
  "0 \<le> cooldown s \<Longrightarrow> list_all (\<lambda>t. t_check t \<le> t_sent t) ts \<Longrightarrow>
   w \<in> set (relay_times ts s) \<Longrightarrow> last_sent_time s + cooldown s < w"
proof (induction ts arbitrary: s)
  case Nil
  then show ?case by simp
next
  case (Cons t ts)
  let ?s1 = "fst (serial_step t s)"
  have mono: "last_sent_time s \<le> last_sent_time ?s1"
    using serial_step_last_sent [of t s] Cons.prems(1,2) by auto
  show ?case
  proof (cases "w \<in> set (relay_times ts ?s1)")
    case True
    with Cons.IH [of ?s1] Cons.prems(1,2) mono show ?thesis by simp
  next
    case False
    with Cons.prems(3) have "list_ex is_relay (snd (serial_step t s))" and "w = t_check t"
      by (auto split: if_splits)
    with serial_step_relay [of t s] show ?thesis by simp
  qed
qed

lemma annotate_history_inv:
  "poly_inv p \<Longrightarrow> calibrated p \<Longrightarrow> poly_inv (annotate_history d p)"
  by (auto simp: poly_inv_def annotate_history_def history_maxlen_def)

lemma annotate_history_fields [simp]:
  "calibrated (annotate_history d p) = calibrated p \<and> baseline (annotate_history d p) = baseline p \<and>
   start_time (annotate_history d p) = start_time p \<and>
   exceed_count (annotate_history d p) = exceed_count p \<and> total_count (annotate_history d p) = total_count p"
  by (simp add: annotate_history_def)

lemma update_numeric_scores:
  assumes "poly_inv p" "calibrated p" "numeric_reading d"
  obtains x where "snd (update now d p) = Inr (Some x)"
proof -
  obtain st where "start_time p = Some st" using assms(1,2) poly_inv_calibrated_start by blast
  with assms that show ?thesis
    by (simp add: update_calibrated score_step_numeric [OF poly_inv_stats [OF assms(1,2)] assms(3)] Let_def)
qed

lemma serial_step_scored:
  assumes inv: "poly_inv (poly s)" and cal: "calibrated (poly s)"
    and r: "tick_reading t = Some d" and n: "numeric_reading d"
  shows "list_ex is_relay (snd (serial_step t s)) = (esp_ok t \<and> cooldown s < t_check t - last_sent_time s) \<and>
         last_sent_time (fst (serial_step t s)) =
           (if cooldown s < t_check t - last_sent_time s then t_sent t else last_sent_time s) \<and>
         poly_inv (poly (fst (serial_step t s))) \<and> calibrated (poly (fst (serial_step t s)))"
proof -
  obtain x where x: "snd (update (t_update t) d (poly s)) = Inr (Some x)"
    using update_numeric_scores [OF inv cal n] by blast
  obtain p where p: "update (t_update t) d (poly s) = (p, Inr (Some x))"
    using x by (cases "update (t_update t) d (poly s)") simp
  have "poly_inv p" and "calibrated p"
    using update_inv [OF inv, of "t_update t" d] update_keeps_calibrated [OF cal, of "t_update t" d] p
    by simp_all
  then show ?thesis
    using r p by (simp add: serial_step_tick_reading score_and_publish_def annotate_history_inv Let_def)
qed

lemma update_Some_calibrated:
  "snd (update now d p) = Inr (Some x) \<Longrightarrow> calibrated (fst (update now d p))"
  by (cases "calibrated p")
     (auto simp: update_keeps_calibrated update_uncalibrated calibrate_step_def
       split: prod.splits sum.splits if_splits)

lemma score_and_publish_inv:
  "poly_inv (poly s) \<Longrightarrow> poly_inv (poly (fst (score_and_publish t d s)))"
  using update_inv [of "poly s" "t_update t" d] update_Some_calibrated [of "t_update t" d "poly s"]
  by (auto simp: score_and_publish_def Let_def annotate_history_inv split: prod.split sum.split option.split)

lemma serial_step_inv: "poly_inv (poly s) \<Longrightarrow> poly_inv (poly (fst (serial_step t s)))"
  by (simp add: serial_step_tick_reading score_and_publish_inv split: option.split)

lemma serial_run_Cons:
  "serial_run (t # ts) s =
     (fst (serial_run ts (fst (serial_step t s))),
      snd (serial_step t s) # snd (serial_run ts (fst (serial_step t s))))"
  by (simp split: prod.split)

declare serial_run.simps(2) [simp del]

lemma serial_run_inv: "poly_inv (poly s) \<Longrightarrow> poly_inv (poly (fst (serial_run ts s)))"
  by (induction ts arbitrary: s) (simp_all add: serial_run_Cons serial_step_inv)

lemma length_serial_run [simp]: "length (snd (serial_run ts s)) = length ts"
  by (induction ts arbitrary: s) (simp_all add: serial_run_Cons)

lemma serial_run_append:
  "serial_run (xs @ ys) s =
     (fst (serial_run ys (fst (serial_run xs s))),
      snd (serial_run xs s) @ snd (serial_run ys (fst (serial_run xs s))))"
  by (induction xs arbitrary: s) (simp_all add: serial_run_Cons)

lemma update_uncalibrated_result:
  "\<not> calibrated p \<Longrightarrow> snd (update now d p) = Inr r \<Longrightarrow> r = None"
  by (auto simp: update_uncalibrated calibrate_step_def split: prod.splits sum.splits if_splits)

lemma round_half_even_between: "\<lfloor>y\<rfloor> \<le> round_half_even y \<and> round_half_even y \<le> \<lceil>y\<rceil>"
  by (auto simp: round_half_even_def Let_def ceiling_altdef)

lemma py_round1_percent: "0 \<le> x \<Longrightarrow> x \<le> 100 \<Longrightarrow> 0 \<le> py_round1 x \<and> py_round1 x \<le> 100"
proof -
  assume "0 \<le> x" "x \<le> 100"
  then have "0 \<le> \<lfloor>x * 10\<rfloor>" "\<lceil>x * 10\<rceil> \<le> 1000" by (simp_all add: ceiling_le_iff)
  with round_half_even_between [of "x * 10"]
  have "0 \<le> round_half_even (x * 10)" "round_half_even (x * 10) \<le> 1000" by linarith+
  then show ?thesis by (simp add: py_round1_def)
qed

lemma esp_message_percent:
  "0 \<le> x \<Longrightarrow> x \<le> 100 \<Longrightarrow> esp_message x = show_nat (nat \<lfloor>x\<rfloor>) @ [CHR 0x0A] \<and> nat \<lfloor>x\<rfloor> \<le> 100"
  by (simp add: esp_message_def py_trunc_def show_int_def nat_le_iff floor_le_iff)

lemma score_and_publish_effects:
  "eff \<in> set (snd (score_and_publish t d s)) \<Longrightarrow>
   (\<exists>p. update (t_update t) d (poly s) = (p, Inr None) \<and> eff = Emit (dict_set ''maybe_lying'' VNone d)) \<or>
   (\<exists>p x. update (t_update t) d (poly s) = (p, Inr (Some x)) \<and>
      (eff = Emit (dict_set ''maybe_lying'' (VFloat (py_round1 x)) d) \<or> eff = Relay (esp_message x)))"
  by (auto simp: score_and_publish_def Let_def split: prod.splits sum.splits option.splits if_splits)

lemma serial_step_effects:
  "eff \<in> set (snd (serial_step t s)) \<Longrightarrow>
   \<exists>d. tick_reading t = Some d \<and> eff \<in> set (snd (score_and_publish t d s))"
  by (auto simp: serial_step_tick_reading split: option.splits)

subsection \<open>Properties of the loop\<close>

text \<open>C22. The relay cooldown (spec 4.4 step 5, 4.6): whatever the cooldown interval of the
  loop (10 seconds at line 124), in any run in which the clock read after a relay write is
  not earlier than the one read for the cooldown test, successive writes to the output
  device are more than the cooldown apart.\<close>

theorem relay_rate_limited:
  "0 \<le> cooldown s \<Longrightarrow> list_all (\<lambda>t. t_check t \<le> t_sent t) ts \<Longrightarrow>
   sorted_wrt (\<lambda>a b. a + cooldown s < b) (relay_times ts s)"
proof (induction ts arbitrary: s)
  case Nil
  then show ?case by simp
next
  case (Cons t ts)
  let ?s1 = "fst (serial_step t s)"
  have rest: "sorted_wrt (\<lambda>a b. a + cooldown s < b) (relay_times ts ?s1)"
    using Cons.IH [of ?s1] Cons.prems by simp
  show ?case
  proof (cases "list_ex is_relay (snd (serial_step t s))")
    case True
    then have "last_sent_time ?s1 = t_sent t" using serial_step_relay by blast
    with Cons.prems relay_times_after [where ts = ts and s = ?s1]
    have "\<forall>w \<in> set (relay_times ts ?s1). t_check t + cooldown s < w" by fastforce
    with True rest show ?thesis by simp
  next
    case False
    with rest show ?thesis by simp
  qed
qed

theorem relay_rate_limited_witness:
  "0 \<le> cooldown init_ingest \<and> list_all (\<lambda>t. t_check t \<le> t_sent t) [\<lparr>rx = Some ''ekg:200|gsr:100|sound:100'', t_update = 100, t_check = 100, t_sent = 100, esp_ok = True\<rparr>] \<and>
   sorted_wrt (\<lambda>a b. a + cooldown init_ingest < b) (relay_times [\<lparr>rx = Some ''ekg:200|gsr:100|sound:100'', t_update = 100, t_check = 100, t_sent = 100, esp_ok = True\<rparr>] init_ingest)"
proof -
  have c: "0 \<le> cooldown init_ingest" by (simp add: init_ingest_def relay_cooldown_def)
  have h: "list_all (\<lambda>t. t_check t \<le> t_sent t) [\<lparr>rx = Some ''ekg:200|gsr:100|sound:100'', t_update = 100, t_check = 100, t_sent = 100, esp_ok = True\<rparr>]" by simp
  show ?thesis using relay_rate_limited [OF c h] c h by blast
qed

text \<open>C23. Spec 8, the relay example, for every cooldown interval: from a calibrated
  session, two ticks that both carry a fully numeric reading, the first of them past the
  cooldown, write the output device twice exactly when the second cooldown test comes more
  than the cooldown after the clock read at the end of the first write (line 133), and once
  otherwise.  So the test is strict (readings exactly one cooldown apart give one write,
  where spec 4.4 asks for "at least"), and it runs from the end of the write: with the
  code's 10 seconds, readings 11 seconds apart give one write when the first write takes
  more than a second, where spec 8 expects two.\<close>

theorem relay_two_scored_events:
  assumes "poly_inv (poly s)" "calibrated (poly s)"
    and "tick_reading t1 = Some d1" "numeric_reading d1" "esp_ok t1"
    and "tick_reading t2 = Some d2" "numeric_reading d2" "esp_ok t2"
    and "cooldown s < t_check t1 - last_sent_time s"
  shows "relay_times [t1, t2] s =
           (if cooldown s < t_check t2 - t_sent t1 then [t_check t1, t_check t2] else [t_check t1])"
proof -
  note s1 = serial_step_scored [OF assms(1-4)]
  then have "poly_inv (poly (fst (serial_step t1 s)))" "calibrated (poly (fst (serial_step t1 s)))"
    by simp_all
  note s2 = serial_step_scored [OF this assms(6,7)]
  show ?thesis using s1 s2 assms(5,8,9) by simp
qed

theorem relay_two_scored_events_witness:
  "relay_times [\<lparr>rx = Some ''ekg:100|gsr:100|sound:100'', t_update = 100, t_check = 100, t_sent = 100, esp_ok = True\<rparr>, \<lparr>rx = Some ''ekg:100|gsr:100|sound:100'', t_update = 111, t_check = 111, t_sent = 111, esp_ok = True\<rparr>] \<lparr>poly = \<lparr>calibration_time = 15, start_time = Some 0, calibrated = True,
        baseline = [(''ekg'', Stats 100 0), (''gsr'', Stats 100 0), (''sound'', Stats 100 0)],
        data_history = [], exceed_count = 0, total_count = 0\<rparr>, last_sent_time = 0, cooldown = 10\<rparr> = [100, 111]"
proof -
  have h: "poly_inv (poly \<lparr>poly = \<lparr>calibration_time = 15, start_time = Some 0, calibrated = True,
        baseline = [(''ekg'', Stats 100 0), (''gsr'', Stats 100 0), (''sound'', Stats 100 0)],
        data_history = [], exceed_count = 0, total_count = 0\<rparr>, last_sent_time = 0, cooldown = 10\<rparr>)" "calibrated (poly \<lparr>poly = \<lparr>calibration_time = 15, start_time = Some 0, calibrated = True,
        baseline = [(''ekg'', Stats 100 0), (''gsr'', Stats 100 0), (''sound'', Stats 100 0)],
        data_history = [], exceed_count = 0, total_count = 0\<rparr>, last_sent_time = 0, cooldown = 10\<rparr>)"
    "tick_reading \<lparr>rx = Some ''ekg:100|gsr:100|sound:100'', t_update = 100, t_check = 100, t_sent = 100, esp_ok = True\<rparr> = Some [(''ekg'', VInt 100), (''gsr'', VInt 100), (''sound'', VInt 100)]"
    "numeric_reading [(''ekg'', VInt 100), (''gsr'', VInt 100), (''sound'', VInt 100)]"
    "tick_reading \<lparr>rx = Some ''ekg:100|gsr:100|sound:100'', t_update = 111, t_check = 111, t_sent = 111, esp_ok = True\<rparr> = Some [(''ekg'', VInt 100), (''gsr'', VInt 100), (''sound'', VInt 100)]"
    by (simp_all add: poly_inv_def stats_baseline_def channels_def tick_reading_def parse_line_def
        parse_value_def numeric_reading_def py_defs)
  show ?thesis
    using relay_two_scored_events [OF h(1,2,3,4) _ h(5,4)] by simp
qed

text \<open>C24. Output protocol (spec 6): in a session satisfying the invariant, every line written to
  the output device is a decimal integer between 0 and 100 followed by a newline, and the
  digits read back as that integer.\<close>

theorem relay_message_percent:
  assumes inv: "poly_inv (poly s)" and m: "Relay m \<in> set (snd (serial_step t s))"
  shows "\<exists>n \<le> 100. m = show_nat n @ [CHR 0x0A] \<and> py_int_digits (butlast m) = Some n"
proof -
  obtain d p x where "update (t_update t) d (poly s) = (p, Inr (Some x))" and mx: "m = esp_message x"
    using serial_step_effects [OF m] score_and_publish_effects by fastforce
  then have "0 \<le> x \<and> x \<le> 100" using update_score_percent [OF inv, of "t_update t" d x] by simp
  with mx esp_message_percent [of x] show ?thesis by auto
qed

theorem relay_message_percent_witness:
  "poly_inv (poly \<lparr>poly = \<lparr>calibration_time = 15, start_time = Some 0, calibrated = True,
        baseline = [(''ekg'', Stats 100 0), (''gsr'', Stats 100 0), (''sound'', Stats 100 0)],
        data_history = [], exceed_count = 0, total_count = 0\<rparr>, last_sent_time = 0, cooldown = 10\<rparr>) \<and> Relay (''100'' @ [CHR 0x0A]) \<in> set (snd (serial_step \<lparr>rx = Some ''ekg:200|gsr:100|sound:100'', t_update = 100, t_check = 100, t_sent = 100, esp_ok = True\<rparr> \<lparr>poly = \<lparr>calibration_time = 15, start_time = Some 0, calibrated = True,
        baseline = [(''ekg'', Stats 100 0), (''gsr'', Stats 100 0), (''sound'', Stats 100 0)],
        data_history = [], exceed_count = 0, total_count = 0\<rparr>, last_sent_time = 0, cooldown = 10\<rparr>)) \<and>
   (\<exists>n \<le> 100. ''100'' @ [CHR 0x0A] = show_nat n @ [CHR 0x0A] \<and> py_int_digits (butlast (''100'' @ [CHR 0x0A])) = Some n)"
proof -
  have h: "poly_inv (poly \<lparr>poly = \<lparr>calibration_time = 15, start_time = Some 0, calibrated = True,
        baseline = [(''ekg'', Stats 100 0), (''gsr'', Stats 100 0), (''sound'', Stats 100 0)],
        data_history = [], exceed_count = 0, total_count = 0\<rparr>, last_sent_time = 0, cooldown = 10\<rparr>)" by (simp add: poly_inv_def stats_baseline_def channels_def)
  have r: "Relay (''100'' @ [CHR 0x0A]) \<in> set (snd (serial_step \<lparr>rx = Some ''ekg:200|gsr:100|sound:100'', t_update = 100, t_check = 100, t_sent = 100, esp_ok = True\<rparr> \<lparr>poly = \<lparr>calibration_time = 15, start_time = Some 0, calibrated = True,
        baseline = [(''ekg'', Stats 100 0), (''gsr'', Stats 100 0), (''sound'', Stats 100 0)],
        data_history = [], exceed_count = 0, total_count = 0\<rparr>, last_sent_time = 0, cooldown = 10\<rparr>))"
    by (simp add: serial_step_def score_and_publish_def update_def score_step_def channels_def thresholds_def parse_line_def parse_value_def relay_cooldown_def Let_def py_defs esp_message_def py_trunc_def py_round1_def round_half_even_def show_nat.simps char_of_def bit_simps)
  show ?thesis using relay_message_percent [OF h r] h r by blast
qed

text \<open>C25. Publication (spec 4.4 steps 3--4, spec 6): when the tick's line parses and
  \<open>update\<close> returns, the iteration emits exactly one event, before any relay write,
  and its payload is the parsed reading with \<open>maybe_lying\<close> set to the score rounded to
  one decimal, or to \<open>None\<close> when there is no score.\<close>

theorem published_payload:
  "tick_reading t = Some d \<Longrightarrow> snd (update (t_update t) d (poly s)) = Inr r \<Longrightarrow>
   hd (snd (serial_step t s)) =
     Emit (dict_set ''maybe_lying'' (case r of None \<Rightarrow> VNone | Some x \<Rightarrow> VFloat (py_round1 x)) d) \<and>
   filter is_emit (snd (serial_step t s)) =
     [Emit (dict_set ''maybe_lying'' (case r of None \<Rightarrow> VNone | Some x \<Rightarrow> VFloat (py_round1 x)) d)]"
  by (cases "update (t_update t) d (poly s)")
     (auto simp: serial_step_tick_reading score_and_publish_def Let_def split: option.splits)

theorem published_payload_witness:
  "tick_reading \<lparr>rx = Some ''ekg:200|gsr:100|sound:100'', t_update = 100, t_check = 100, t_sent = 100, esp_ok = True\<rparr> = Some [(''ekg'', VInt 200), (''gsr'', VInt 100), (''sound'', VInt 100)] \<and> snd (update (t_update \<lparr>rx = Some ''ekg:200|gsr:100|sound:100'', t_update = 100, t_check = 100, t_sent = 100, esp_ok = True\<rparr>) [(''ekg'', VInt 200), (''gsr'', VInt 100), (''sound'', VInt 100)] (poly \<lparr>poly = \<lparr>calibration_time = 15, start_time = Some 0, calibrated = True,
        baseline = [(''ekg'', Stats 100 0), (''gsr'', Stats 100 0), (''sound'', Stats 100 0)],
        data_history = [], exceed_count = 0, total_count = 0\<rparr>, last_sent_time = 0, cooldown = 10\<rparr>)) = Inr (Some 100) \<and>
   hd (snd (serial_step \<lparr>rx = Some ''ekg:200|gsr:100|sound:100'', t_update = 100, t_check = 100, t_sent = 100, esp_ok = True\<rparr> \<lparr>poly = \<lparr>calibration_time = 15, start_time = Some 0, calibrated = True,
        baseline = [(''ekg'', Stats 100 0), (''gsr'', Stats 100 0), (''sound'', Stats 100 0)],
        data_history = [], exceed_count = 0, total_count = 0\<rparr>, last_sent_time = 0, cooldown = 10\<rparr>)) = Emit (dict_set ''maybe_lying'' (VFloat (py_round1 100)) [(''ekg'', VInt 200), (''gsr'', VInt 100), (''sound'', VInt 100)]) \<and>
   filter is_emit (snd (serial_step \<lparr>rx = Some ''ekg:200|gsr:100|sound:100'', t_update = 100, t_check = 100, t_sent = 100, esp_ok = True\<rparr> \<lparr>poly = \<lparr>calibration_time = 15, start_time = Some 0, calibrated = True,
        baseline = [(''ekg'', Stats 100 0), (''gsr'', Stats 100 0), (''sound'', Stats 100 0)],
        data_history = [], exceed_count = 0, total_count = 0\<rparr>, last_sent_time = 0, cooldown = 10\<rparr>)) = [Emit (dict_set ''maybe_lying'' (VFloat (py_round1 100)) [(''ekg'', VInt 200), (''gsr'', VInt 100), (''sound'', VInt 100)])]"
proof -
  have h1: "tick_reading \<lparr>rx = Some ''ekg:200|gsr:100|sound:100'', t_update = 100, t_check = 100, t_sent = 100, esp_ok = True\<rparr> = Some [(''ekg'', VInt 200), (''gsr'', VInt 100), (''sound'', VInt 100)]"
    by (simp add: tick_reading_def parse_line_def parse_value_def py_defs)
  have h2: "snd (update (t_update \<lparr>rx = Some ''ekg:200|gsr:100|sound:100'', t_update = 100, t_check = 100, t_sent = 100, esp_ok = True\<rparr>) [(''ekg'', VInt 200), (''gsr'', VInt 100), (''sound'', VInt 100)] (poly \<lparr>poly = \<lparr>calibration_time = 15, start_time = Some 0, calibrated = True,
        baseline = [(''ekg'', Stats 100 0), (''gsr'', Stats 100 0), (''sound'', Stats 100 0)],
        data_history = [], exceed_count = 0, total_count = 0\<rparr>, last_sent_time = 0, cooldown = 10\<rparr>)) = Inr (Some 100)"
    by (simp add: update_def score_step_def channels_def thresholds_def)
  show ?thesis using published_payload [OF h1 h2] h1 h2 by simp
qed

text \<open>C26. Publication is not unconditional (spec 4.4 step 4): when \<open>update\<close> raises, the
  iteration emits nothing and writes nothing, and the session keeps the changes the call
  made before raising.\<close>

theorem update_error_not_published:
  "tick_reading t = Some d \<Longrightarrow> update (t_update t) d (poly s) = (p, Inl e) \<Longrightarrow>
   serial_step t s = (s\<lparr>poly := p\<rparr>, [])"
  by (simp add: serial_step_tick_reading score_and_publish_def)

theorem update_error_not_published_witness:
  "tick_reading \<lparr>rx = Some ''ekg:1|gsr:2'', t_update = 5, t_check = 5, t_sent = 5, esp_ok = True\<rparr> = Some [(''ekg'', VInt 1), (''gsr'', VInt 2)] \<and>
   update 5 [(''ekg'', VInt 1), (''gsr'', VInt 2)] (poly init_ingest) = (\<lparr>calibration_time = 15, start_time = Some 5, calibrated = False, baseline = [(''ekg'', Samples [VInt 1]), (''gsr'', Samples [VInt 2]), (''sound'', Samples [])], data_history = [], exceed_count = 0, total_count = 0\<rparr>, Inl (KeyError ''sound'')) \<and>
   serial_step \<lparr>rx = Some ''ekg:1|gsr:2'', t_update = 5, t_check = 5, t_sent = 5, esp_ok = True\<rparr> init_ingest = (init_ingest\<lparr>poly := \<lparr>calibration_time = 15, start_time = Some 5, calibrated = False, baseline = [(''ekg'', Samples [VInt 1]), (''gsr'', Samples [VInt 2]), (''sound'', Samples [])], data_history = [], exceed_count = 0, total_count = 0\<rparr>\<rparr>, [])"
proof -
  have h1: "tick_reading \<lparr>rx = Some ''ekg:1|gsr:2'', t_update = 5, t_check = 5, t_sent = 5, esp_ok = True\<rparr> = Some [(''ekg'', VInt 1), (''gsr'', VInt 2)]"
    by (simp add: tick_reading_def parse_line_def parse_value_def py_defs)
  have h2: "update (t_update \<lparr>rx = Some ''ekg:1|gsr:2'', t_update = 5, t_check = 5, t_sent = 5, esp_ok = True\<rparr>) [(''ekg'', VInt 1), (''gsr'', VInt 2)] (poly init_ingest) = (\<lparr>calibration_time = 15, start_time = Some 5, calibrated = False, baseline = [(''ekg'', Samples [VInt 1]), (''gsr'', Samples [VInt 2]), (''sound'', Samples [])], data_history = [], exceed_count = 0, total_count = 0\<rparr>, Inl (KeyError ''sound''))"
    by (simp add: init_ingest_def init_polygraph_def update_def calibrate_step_def channels_def
        calib_append_Cons ensure_samples_def entry_or_new_def)
  show ?thesis using update_error_not_published [OF h1 h2] h1 h2 by simp
qed

text \<open>C27. While the session is not calibrated (spec 7), an iteration either emits nothing or
  emits the reading with \<open>maybe_lying\<close> set to the unavailable marker \<open>None\<close>; it never
  writes the output device nor resets the cooldown clock.\<close>

theorem calibrating_publishes_unavailable:
  "\<not> calibrated (poly s) \<Longrightarrow>
   last_sent_time (fst (serial_step t s)) = last_sent_time s \<and>
   (snd (serial_step t s) = [] \<or>
    (\<exists>d. tick_reading t = Some d \<and> snd (serial_step t s) = [Emit (dict_set ''maybe_lying'' VNone d)]))"
proof (cases "tick_reading t")
  case None
  then show ?thesis by (simp add: serial_step_tick_reading)
next
  case (Some d)
  assume nc: "\<not> calibrated (poly s)"
  obtain p r where u: "update (t_update t) d (poly s) = (p, r)" by fastforce
  show ?thesis
  proof (cases r)
    case (Inl e)
    with Some u show ?thesis by (simp add: serial_step_tick_reading score_and_publish_def)
  next
    case (Inr v)
    with u update_uncalibrated_result [OF nc, of "t_update t" d] have "v = None" by simp
    with Some u Inr show ?thesis by (simp add: serial_step_tick_reading score_and_publish_def)
  qed
qed

theorem calibrating_publishes_unavailable_witness:
  "\<not> calibrated (poly init_ingest) \<and>
   last_sent_time (fst (serial_step \<lparr>rx = Some '' ekg:1|gsr:2|sound:3 '', t_update = 5, t_check = 5, t_sent = 5, esp_ok = True\<rparr> init_ingest)) = last_sent_time init_ingest \<and>
   (snd (serial_step \<lparr>rx = Some '' ekg:1|gsr:2|sound:3 '', t_update = 5, t_check = 5, t_sent = 5, esp_ok = True\<rparr> init_ingest) = [] \<or>
    (\<exists>d. tick_reading \<lparr>rx = Some '' ekg:1|gsr:2|sound:3 '', t_update = 5, t_check = 5, t_sent = 5, esp_ok = True\<rparr> = Some d \<and>
         snd (serial_step \<lparr>rx = Some '' ekg:1|gsr:2|sound:3 '', t_update = 5, t_check = 5, t_sent = 5, esp_ok = True\<rparr> init_ingest) = [Emit (dict_set ''maybe_lying'' VNone d)]))"
proof -
  have h: "\<not> calibrated (poly init_ingest)" by (simp add: init_ingest_def init_polygraph_def)
  show ?thesis using calibrating_publishes_unavailable [OF h] h by blast
qed

text \<open>C28. Every event the loop emits from a session satisfying the invariant carries a
  \<open>maybe_lying\<close> that is either \<open>None\<close> or a percentage between 0 and 100.\<close>

theorem published_maybe_lying_percent:
  assumes inv: "poly_inv (poly s)" and e: "Emit d' \<in> set (snd (serial_step t s))"
  shows "map_of d' ''maybe_lying'' = Some VNone \<or>
         (\<exists>y. map_of d' ''maybe_lying'' = Some (VFloat y) \<and> 0 \<le> y \<and> y \<le> 100)"
proof -
  obtain d where "Emit d' \<in> set (snd (score_and_publish t d s))"
    using serial_step_effects [OF e] by blast
  from score_and_publish_effects [OF this] show ?thesis
  proof (elim disjE exE conjE)
    fix p assume "Emit d' = Emit (dict_set ''maybe_lying'' VNone d)"
    then show ?thesis by (simp add: map_of_dict_set)
  next
    fix p x assume u: "update (t_update t) d (poly s) = (p, Inr (Some x))"
      and "Emit d' = Emit (dict_set ''maybe_lying'' (VFloat (py_round1 x)) d)"
    then have "d' = dict_set ''maybe_lying'' (VFloat (py_round1 x)) d" by simp
    moreover have "0 \<le> x \<and> x \<le> 100" using u update_score_percent [OF inv, of "t_update t" d x] by simp
    ultimately show ?thesis using py_round1_percent [of x] by (simp add: map_of_dict_set)
  next
    fix p x assume "Emit d' = Relay (esp_message x)"
    then show ?thesis by simp
  qed
qed

theorem published_maybe_lying_percent_witness:
  "poly_inv (poly \<lparr>poly = \<lparr>calibration_time = 15, start_time = Some 0, calibrated = True,
        baseline = [(''ekg'', Stats 100 0), (''gsr'', Stats 100 0), (''sound'', Stats 100 0)],
        data_history = [], exceed_count = 0, total_count = 0\<rparr>, last_sent_time = 0, cooldown = 10\<rparr>) \<and>
   Emit ([(''ekg'', VInt 200), (''gsr'', VInt 100), (''sound'', VInt 100)] @ [(''maybe_lying'', VFloat 100)]) \<in> set (snd (serial_step \<lparr>rx = Some ''ekg:200|gsr:100|sound:100'', t_update = 100, t_check = 100, t_sent = 100, esp_ok = True\<rparr> \<lparr>poly = \<lparr>calibration_time = 15, start_time = Some 0, calibrated = True,
        baseline = [(''ekg'', Stats 100 0), (''gsr'', Stats 100 0), (''sound'', Stats 100 0)],
        data_history = [], exceed_count = 0, total_count = 0\<rparr>, last_sent_time = 0, cooldown = 10\<rparr>)) \<and>
   (map_of ([(''ekg'', VInt 200), (''gsr'', VInt 100), (''sound'', VInt 100)] @ [(''maybe_lying'', VFloat 100)]) ''maybe_lying'' = Some VNone \<or>
    (\<exists>y. map_of ([(''ekg'', VInt 200), (''gsr'', VInt 100), (''sound'', VInt 100)] @ [(''maybe_lying'', VFloat 100)]) ''maybe_lying'' = Some (VFloat y) \<and> 0 \<le> y \<and> y \<le> 100))"
proof -
  have h: "poly_inv (poly \<lparr>poly = \<lparr>calibration_time = 15, start_time = Some 0, calibrated = True,
        baseline = [(''ekg'', Stats 100 0), (''gsr'', Stats 100 0), (''sound'', Stats 100 0)],
        data_history = [], exceed_count = 0, total_count = 0\<rparr>, last_sent_time = 0, cooldown = 10\<rparr>)" by (simp add: poly_inv_def stats_baseline_def channels_def)
  have r: "Emit ([(''ekg'', VInt 200), (''gsr'', VInt 100), (''sound'', VInt 100)] @ [(''maybe_lying'', VFloat 100)]) \<in> set (snd (serial_step \<lparr>rx = Some ''ekg:200|gsr:100|sound:100'', t_update = 100, t_check = 100, t_sent = 100, esp_ok = True\<rparr> \<lparr>poly = \<lparr>calibration_time = 15, start_time = Some 0, calibrated = True,
        baseline = [(''ekg'', Stats 100 0), (''gsr'', Stats 100 0), (''sound'', Stats 100 0)],
        data_history = [], exceed_count = 0, total_count = 0\<rparr>, last_sent_time = 0, cooldown = 10\<rparr>))"
    by (simp add: serial_step_def score_and_publish_def update_def score_step_def channels_def thresholds_def parse_line_def parse_value_def relay_cooldown_def Let_def py_defs esp_message_def py_trunc_def py_round1_def round_half_even_def show_nat.simps char_of_def bit_simps)
  show ?thesis using published_maybe_lying_percent [OF h r] h r by blast
qed

text \<open>C29. Bad input never stops the loop (spec 4.4 step 2, spec 7): a tick whose read failed,
  whose line is blank or whose line the parser rejects changes neither the session nor
  what the rest of the run does; the run goes on as if the tick had not happened.\<close>

theorem bad_line_skipped:
  "tick_reading t = None \<Longrightarrow>
   fst (serial_run (xs @ t # ys) s) = fst (serial_run (xs @ ys) s) \<and>
   concat (snd (serial_run (xs @ t # ys) s)) = concat (snd (serial_run (xs @ ys) s))"
  by (simp add: serial_run_append serial_run_Cons serial_step_tick_reading)

theorem bad_line_skipped_witness:
  "tick_reading \<lparr>rx = Some ''ekg512|gsr:340'', t_update = 5, t_check = 5, t_sent = 5, esp_ok = True\<rparr> = None \<and>
   fst (serial_run ([] @ \<lparr>rx = Some ''ekg512|gsr:340'', t_update = 5, t_check = 5, t_sent = 5, esp_ok = True\<rparr> # [\<lparr>rx = Some ''ekg:200|gsr:100|sound:100'', t_update = 100, t_check = 100, t_sent = 100, esp_ok = True\<rparr>]) \<lparr>poly = \<lparr>calibration_time = 15, start_time = Some 0, calibrated = True,
        baseline = [(''ekg'', Stats 100 0), (''gsr'', Stats 100 0), (''sound'', Stats 100 0)],
        data_history = [], exceed_count = 0, total_count = 0\<rparr>, last_sent_time = 0, cooldown = 10\<rparr>) = fst (serial_run ([] @ [\<lparr>rx = Some ''ekg:200|gsr:100|sound:100'', t_update = 100, t_check = 100, t_sent = 100, esp_ok = True\<rparr>]) \<lparr>poly = \<lparr>calibration_time = 15, start_time = Some 0, calibrated = True,
        baseline = [(''ekg'', Stats 100 0), (''gsr'', Stats 100 0), (''sound'', Stats 100 0)],
        data_history = [], exceed_count = 0, total_count = 0\<rparr>, last_sent_time = 0, cooldown = 10\<rparr>) \<and>
   concat (snd (serial_run ([] @ \<lparr>rx = Some ''ekg512|gsr:340'', t_update = 5, t_check = 5, t_sent = 5, esp_ok = True\<rparr> # [\<lparr>rx = Some ''ekg:200|gsr:100|sound:100'', t_update = 100, t_check = 100, t_sent = 100, esp_ok = True\<rparr>]) \<lparr>poly = \<lparr>calibration_time = 15, start_time = Some 0, calibrated = True,
        baseline = [(''ekg'', Stats 100 0), (''gsr'', Stats 100 0), (''sound'', Stats 100 0)],
        data_history = [], exceed_count = 0, total_count = 0\<rparr>, last_sent_time = 0, cooldown = 10\<rparr>)) = concat (snd (serial_run ([] @ [\<lparr>rx = Some ''ekg:200|gsr:100|sound:100'', t_update = 100, t_check = 100, t_sent = 100, esp_ok = True\<rparr>]) \<lparr>poly = \<lparr>calibration_time = 15, start_time = Some 0, calibrated = True,
        baseline = [(''ekg'', Stats 100 0), (''gsr'', Stats 100 0), (''sound'', Stats 100 0)],
        data_history = [], exceed_count = 0, total_count = 0\<rparr>, last_sent_time = 0, cooldown = 10\<rparr>))"
proof -
  have h: "tick_reading \<lparr>rx = Some ''ekg512|gsr:340'', t_update = 5, t_check = 5, t_sent = 5, esp_ok = True\<rparr> = None" by (simp add: tick_reading_def parse_line_def py_defs)
  show ?thesis using bad_line_skipped [OF h, of "[]" "[\<lparr>rx = Some ''ekg:200|gsr:100|sound:100'', t_update = 100, t_check = 100, t_sent = 100, esp_ok = True\<rparr>]" "\<lparr>poly = \<lparr>calibration_time = 15, start_time = Some 0, calibrated = True,
        baseline = [(''ekg'', Stats 100 0), (''gsr'', Stats 100 0), (''sound'', Stats 100 0)],
        data_history = [], exceed_count = 0, total_count = 0\<rparr>, last_sent_time = 0, cooldown = 10\<rparr>"] h by blast
qed

text \<open>C30. Once the input port is open, every state the loop reaches satisfies the session
  invariant, and the loop handles every tick it is given.\<close>

theorem read_serial_invariant:
  "read_serial True ts = Some (s, ess) \<Longrightarrow> poly_inv (poly s) \<and> length ess = length ts"
  using serial_run_inv [of init_ingest ts] poly_inv_init [of 15] length_serial_run [of ts init_ingest]
  by (auto simp: read_serial_def init_ingest_def)

theorem read_serial_invariant_witness:
  "read_serial True [\<lparr>rx = Some ''ekg512|gsr:340'', t_update = 5, t_check = 5, t_sent = 5, esp_ok = True\<rparr>] = Some (init_ingest, [[]]) \<and> poly_inv (poly init_ingest)"
proof -
  have h: "read_serial True [\<lparr>rx = Some ''ekg512|gsr:340'', t_update = 5, t_check = 5, t_sent = 5, esp_ok = True\<rparr>] = Some (init_ingest, [[]])"
    by (simp add: read_serial_def serial_run_Cons serial_step_def parse_line_def py_defs)
  show ?thesis using read_serial_invariant [OF h] h by simp
qed

end
