(* ===== verification/Hub.thy ===== *)
theory Hub
  imports Prelude
begin

text \<open>
  The Broadcast Hub (spec 4.5): the Socket.IO server of \<open>src/pythonWeb.py\<close>.  The
  repository only calls it: \<open>socketio.emit('sensor_data', data)\<close> (line 121), called outside
  any request context, sends the event to every client connected at that moment, and the
  handler \<open>on_connect\<close> (lines 145--148) answers each new connection with a message to that
  client alone.  The hub is the list of connected clients, each with the events delivered to
  it so far, in order; the broadcast and the disconnection are modelled from the spec and
  from the library's documented behaviour.
\<close>

type_synonym client = nat

datatype message = SensorData reading | ServerMessage string

record hub =
  subscribers :: "(client \<times> message list) list"

definition init_hub :: hub where
  "init_hub = \<lparr>subscribers = []\<rparr>"

text \<open>Lines 145--148: \<open>emit('message', {'data': 'Connected to server'})\<close> to the new client.\<close>

definition welcome_message :: message where
  "welcome_message = ServerMessage ''Connected to server''"

definition on_connect :: "client \<Rightarrow> hub \<Rightarrow> hub" where
  "on_connect c h = h\<lparr>subscribers := AList.update c [welcome_message] (subscribers h)\<rparr>"

definition hub_publish :: "reading \<Rightarrow> hub \<Rightarrow> hub" where
  "hub_publish d h = h\<lparr>subscribers := map (\<lambda>(c, ms). (c, ms @ [SensorData d])) (subscribers h)\<rparr>"

definition hub_disconnect :: "client \<Rightarrow> hub \<Rightarrow> hub" where
  "hub_disconnect c h = h\<lparr>subscribers := AList.delete c (subscribers h)\<rparr>"

lemma map_of_hub_publish:
  "map_of (subscribers (hub_publish d h)) c = map_option (\<lambda>ms. ms @ [SensorData d]) (map_of (subscribers h) c)"
  by (simp add: hub_publish_def map_of_map)

lemma map_of_on_connect:
  "map_of (subscribers (on_connect c h)) c' =
     (if c' = c then Some [welcome_message] else map_of (subscribers h) c')"
  by (simp add: on_connect_def update_conv')

lemma map_of_hub_disconnect:
  "map_of (subscribers (hub_disconnect c h)) c' = (if c' = c then None else map_of (subscribers h) c')"
  by (simp add: hub_disconnect_def delete_conv)

lemma hub_publish_no_subscribers: "subscribers h = [] \<Longrightarrow> hub_publish d h = h"
  by (simp add: hub_publish_def)

end
