(* ===== verification/Session.thy ===== *)
theory Session
  imports Scoring
begin

text \<open>
  Properties of whole sessions of \<open>Polygraph.update\<close> (lines 19--53) that follow the
  object through several calls: the baseline computed from a constant stream (spec 8), the
  exceptions a call can raise and the state they leave, and the bounded history
  (\<open>deque(maxlen=1000)\<close>, lines 15 and 44).
\<close>

subsection \<open>Calibrating on a constant stream\<close>

lemma finalize_entry_replicate:
  "py_num v = Some x \<Longrightarrow> finalize_entry (Samples (replicate (Suc n) v)) = Some (Stats x 0)"
proof -
  assume v: "py_num v = Some x"
  have "those (map py_num (replicate (Suc n) v)) = Some (replicate (Suc n) x)"
    using v by (induction n) simp_all
  moreover have "sum_list (replicate (Suc n) x) / real (Suc n) = x"
    by (simp add: sum_list_replicate del: replicate_Suc)
  ultimately show ?thesis
    by (simp add: finalize_entry_def Let_def sum_list_replicate del: replicate_Suc)
qed

lemma calib_append_constant:
  assumes "numeric_reading d"
  shows "calib_append d channels (map (\<lambda>k. (k, Samples (replicate n (the (map_of d k))))) channels) =
           (map (\<lambda>k. (k, Samples (replicate (Suc n) (the (map_of d k))))) channels, Inr ())"
    and "calib_append d channels [] = (map (\<lambda>k. (k, Samples [the (map_of d k)])) channels, Inr ())"
  using assms
  by (auto simp: numeric_reading_def channels_def calib_append_Cons entry_or_new_def ensure_samples_def
      replicate_append_same split: option.splits)

lemma finalize_constant:
  assumes "numeric_reading d"
  shows "finalize channels
            (map (\<lambda>k. (k, Samples (replicate (Suc n) (the (map_of d k))))) channels) =
           (map (\<lambda>k. (k, Stats (reading_values d k) 0)) channels, Inr ())"
  using assms
  by (auto simp: numeric_reading_def channels_def reading_values_def finalize_entry_replicate
      split: option.splits simp del: replicate_Suc)

lemma update_run_constant_window:
  assumes n: "numeric_reading d" and nc: "\<not> calibrated p" and st: "start_time p = Some t0"
    and bl: "baseline p = map (\<lambda>k. (k, Samples (replicate (Suc m) (the (map_of d k))))) channels"
    and early: "list_all (\<lambda>t. t - t0 < calibration_time p) ts" and late: "calibration_time p \<le> t1 - t0"
  shows "calibrated (fst (update_run (map (\<lambda>t. (t, d)) (ts @ [t1])) p)) \<and>
         baseline (fst (update_run (map (\<lambda>t. (t, d)) (ts @ [t1])) p)) =
           map (\<lambda>k. (k, Stats (reading_values d k) 0)) channels"
  using nc st bl early late
proof (induction ts arbitrary: m p)
  case Nil
  then show ?case
    by (simp add: update_run_Cons update_uncalibrated calibrate_step_def calib_append_constant(1) [OF n]
        finalize_constant [OF n] comp_def del: replicate_Suc)
next
  case (Cons t ts)
  let ?p' = "p\<lparr>baseline := map (\<lambda>k. (k, Samples (replicate (Suc (Suc m)) (the (map_of d k))))) channels\<rparr>"
  have "fst (update t d p) = ?p'"
    using Cons.prems by (simp add: update_uncalibrated calibrate_step_def calib_append_constant(1) [OF n]
        del: replicate_Suc)
  with Cons.IH [of ?p' "Suc m"] Cons.prems show ?case
    by (simp add: update_run_Cons del: replicate_Suc)
qed

subsection \<open>Exceptions\<close>

lemma calib_append_errors:
  "calib_append d ks bl = (bl', Inl e) \<Longrightarrow>
   (\<exists>k \<in> set ks. e = KeyError k \<and> map_of d k = None) \<or>
   (e = AttributeError \<and> (\<exists>k a s. map_of bl k = Some (Stats a s)))"
proof (induction ks arbitrary: bl)
  case Nil
  then show ?case by simp
next
  case (Cons k ks)
  show ?case
  proof (cases rule: calib_append_cases [where bl = bl and k = k and d = d])
    case (stats a s)
    then have "map_of bl k = Some (Stats a s)"
      by (simp add: entry_or_new_def split: option.splits)
    with stats Cons.prems show ?thesis by (auto simp: calib_append_Cons)
  next
    case (missing vs)
    with Cons.prems show ?thesis by (simp add: calib_append_Cons)
  next
    case (ok vs v)
    let ?bl1 = "dict_set k (Samples (vs @ [v])) (ensure_samples k bl)"
    from ok Cons.prems have r: "calib_append d ks ?bl1 = (bl', Inl e)" by (simp add: calib_append_Cons)
    from Cons.IH [OF r] show ?thesis
    proof
      assume "\<exists>k' \<in> set ks. e = KeyError k' \<and> map_of d k' = None"
      then show ?thesis by auto
    next
      assume "e = AttributeError \<and> (\<exists>k' a s. map_of ?bl1 k' = Some (Stats a s))"
      then obtain k' a s where "e = AttributeError" and m: "map_of ?bl1 k' = Some (Stats a s)" by blast
      then have "k' \<noteq> k" by (auto simp: map_of_dict_set)
      with m have "map_of bl k' = Some (Stats a s)"
        by (simp add: map_of_dict_set ensure_samples_def split: if_splits)
      with \<open>e = AttributeError\<close> show ?thesis by blast
    qed
  qed
qed

lemma finalize_errors: "finalize ks bl = (bl', Inl e) \<Longrightarrow> set ks \<subseteq> fst ` set bl \<Longrightarrow> e = TypeError"
proof (induction ks arbitrary: bl)
  case (Cons k ks)
  from Cons.prems obtain x where x: "map_of bl k = Some x"
    by (cases "map_of bl k") (auto simp: map_of_None_iff)
  show ?case
  proof (cases "finalize_entry x")
    case None
    with x Cons.prems show ?thesis by simp
  next
    case (Some x')
    with x Cons.prems have "finalize ks (dict_set k x' bl) = (bl', Inl e)" by simp
    moreover have "set ks \<subseteq> fst ` set (dict_set k x' bl)"
      using Cons.prems(2) by (auto simp: set_dict_keys_set)
    ultimately show ?thesis by (rule Cons.IH)
  qed
qed simp

lemma count_exceed_errors:
  "count_exceed d bl ks n = Inl e \<Longrightarrow> stats_baseline bl \<Longrightarrow> set ks \<subseteq> set channels \<Longrightarrow>
   (\<exists>k \<in> set ks. e = KeyError k \<and> map_of d k = None) \<or> e = TypeError"
proof (induction ks arbitrary: n)
  case (Cons k ks)
  then have k: "k \<in> set channels" by simp
  with Cons.prems(2) obtain e0 where "map_of bl k = Some e0" and "is_stats e0"
    by (auto simp: stats_baseline_def list_all_iff split: option.splits)
  then obtain a s where bl: "map_of bl k = Some (Stats a s)" by (cases e0) auto
  from k have t: "map_of thresholds k = Some (spec_threshold k)" by (rule thresholds_spec)
  show ?case
    using Cons bl t by (auto split: option.splits if_splits)
qed simp

subsection \<open>History\<close>

lemma deque_append_window:
  assumes "length xs \<le> m"
  shows "drop (length (deque_append m xs y) + k - m) (deque_append m xs y @ zs) =
           drop (length xs + Suc k - m) (xs @ y # zs)"
proof -
  have e: "deque_append m xs y @ zs = drop (Suc (length xs) - m) (xs @ y # zs)"
    by (cases m) (simp_all add: deque_append_def)
  have l: "length (deque_append m xs y) = Suc (length xs) - (Suc (length xs) - m)"
    by (simp add: deque_append_def)
  have a: "Suc (length xs) - (Suc (length xs) - m) + k - m + (Suc (length xs) - m) = length xs + Suc k - m"
    using assms by arith
  show ?thesis by (simp only: e l drop_drop a)
qed

lemma update_calibrated_history:
  "calibrated p \<Longrightarrow> start_time p = Some t \<Longrightarrow>
   data_history (fst (update now d p)) = deque_append history_maxlen (data_history p) d \<and>
   calibrated (fst (update now d p)) \<and> start_time (fst (update now d p)) = Some t"
  by (simp add: update_calibrated score_step_def Let_def split: sum.split)

subsection \<open>Properties of sessions\<close>

text \<open>C11. Spec 8, the calibration example: from a fresh session, a constant stream of fully
  numeric readings whose last reading is the first to come at or after the end of the
  window leaves the session calibrated with, for every channel, mean the channel's value
  and standard deviation 0.\<close>

theorem constant_stream_baseline:
  assumes n: "numeric_reading d" and ct: "0 < ct"
    and early: "list_all (\<lambda>t. t - t0 < ct) ts" and late: "ct \<le> t1 - t0"
  shows "calibrated (fst (update_run (map (\<lambda>t. (t, d)) (t0 # ts @ [t1])) (init_polygraph ct))) \<and>
         baseline (fst (update_run (map (\<lambda>t. (t, d)) (t0 # ts @ [t1])) (init_polygraph ct))) =
           map (\<lambda>k. (k, Stats (reading_values d k) 0)) channels"
proof -
  let ?p1 = "(init_polygraph ct)\<lparr>start_time := Some t0,
               baseline := map (\<lambda>k. (k, Samples (replicate (Suc 0) (the (map_of d k))))) channels\<rparr>"
  have "fst (update t0 d (init_polygraph ct)) = ?p1"
    using ct by (simp add: init_polygraph_def update_uncalibrated calibrate_step_def calib_append_constant(2) [OF n])
  with update_run_constant_window [OF n, of ?p1 t0 0 ts t1] early late show ?thesis
    by (simp add: update_run_Cons init_polygraph_def)
qed

theorem constant_stream_baseline_witness:
  "numeric_reading [(''ekg'', VInt 100), (''gsr'', VInt 100), (''sound'', VInt 100)] \<and>
   calibrated (fst (update_run (map (\<lambda>t. (t, [(''ekg'', VInt 100), (''gsr'', VInt 100), (''sound'', VInt 100)])) (0 # [5, 10] @ [15])) (init_polygraph 15))) \<and>
   baseline (fst (update_run (map (\<lambda>t. (t, [(''ekg'', VInt 100), (''gsr'', VInt 100), (''sound'', VInt 100)])) (0 # [5, 10] @ [15])) (init_polygraph 15))) =
     [(''ekg'', Stats 100 0), (''gsr'', Stats 100 0), (''sound'', Stats 100 0)]"
proof -
  have n: "numeric_reading [(''ekg'', VInt 100), (''gsr'', VInt 100), (''sound'', VInt 100)]" by (simp add: numeric_reading_def channels_def)
  have l: "list_all (\<lambda>t. t - 0 < (15::real)) [5, 10]" by simp
  show ?thesis
    using constant_stream_baseline [OF n, of 15 0 "[5, 10]" 15] n l
    by (simp add: reading_values_def channels_def)
qed

text \<open>C20. The exceptions \<open>update\<close> raises in a session satisfying the invariant: \<open>KeyError\<close> only
  for a channel missing from the reading, \<open>TypeError\<close>, or \<open>AttributeError\<close>, and the
  last only while calibrating with a baseline entry that is already an \<open>{'avg', 'std'}\<close>
  dict; never \<open>ValueError\<close>, and never \<open>AttributeError\<close> once calibrated.\<close>

theorem update_exceptions:
  assumes inv: "poly_inv p" and r: "snd (update now d p) = Inl e"
  shows "(\<exists>k \<in> set channels. e = KeyError k \<and> map_of d k = None) \<or> e = TypeError \<or>
         (e = AttributeError \<and> \<not> calibrated p \<and> list_ex (\<lambda>(k, b). is_stats b) (baseline p))"
proof (cases "calibrated p")
  case True
  with inv obtain t where "start_time p = Some t" using poly_inv_calibrated_start by blast
  with True r have "count_exceed d (baseline p) channels 0 = Inl e"
    by (auto simp: update_calibrated score_step_def Let_def split: sum.splits)
  with poly_inv_stats [OF inv True] show ?thesis
    using count_exceed_errors by blast
next
  case False
  define st where "st = (case start_time p of None \<Rightarrow> now | Some t \<Rightarrow> t)"
  obtain bl u where app: "calib_append d channels (baseline p) = (bl, u)" by fastforce
  show ?thesis
  proof (cases u)
    case (Inl e')
    with r False app have "e' = e"
      by (simp add: update_uncalibrated calibrate_step_def)
    with calib_append_errors [where d = d and ks = channels and bl = "baseline p" and bl' = bl and e = e'] app Inl False
    show ?thesis
      by (force simp: list_ex_iff dest: map_of_SomeD)
  next
    case (Inr v)
    obtain bl' u' where fin: "finalize (dict_keys bl) bl = (bl', u')" by fastforce
    with r False app Inr have "u' = Inl e"
      by (auto simp: update_uncalibrated calibrate_step_def split: if_splits sum.splits)
    with finalize_errors [of "dict_keys bl" bl bl' e] fin show ?thesis by simp
  qed
qed

theorem update_exceptions_witness:
  "poly_inv \<lparr>calibration_time = 15, start_time = Some 0, calibrated = True, baseline = [(''ekg'', Stats 100 0), (''gsr'', Stats 100 0), (''sound'', Stats 100 0)], data_history = [], exceed_count = 0, total_count = 0\<rparr> \<and> snd (update 20 [(''ekg'', VInt 100), (''sound'', VInt 100)] \<lparr>calibration_time = 15, start_time = Some 0, calibrated = True, baseline = [(''ekg'', Stats 100 0), (''gsr'', Stats 100 0), (''sound'', Stats 100 0)], data_history = [], exceed_count = 0, total_count = 0\<rparr>) = Inl (KeyError ''gsr'') \<and>
   ((\<exists>k \<in> set channels. KeyError ''gsr'' = KeyError k \<and> map_of [(''ekg'', VInt 100), (''sound'', VInt 100)] k = None) \<or> KeyError ''gsr'' = TypeError \<or>
    (KeyError ''gsr'' = AttributeError \<and> \<not> calibrated \<lparr>calibration_time = 15, start_time = Some 0, calibrated = True, baseline = [(''ekg'', Stats 100 0), (''gsr'', Stats 100 0), (''sound'', Stats 100 0)], data_history = [], exceed_count = 0, total_count = 0\<rparr> \<and> list_ex (\<lambda>(k, b). is_stats b) (baseline \<lparr>calibration_time = 15, start_time = Some 0, calibrated = True, baseline = [(''ekg'', Stats 100 0), (''gsr'', Stats 100 0), (''sound'', Stats 100 0)], data_history = [], exceed_count = 0, total_count = 0\<rparr>)))"
proof -
  have i: "poly_inv \<lparr>calibration_time = 15, start_time = Some 0, calibrated = True, baseline = [(''ekg'', Stats 100 0), (''gsr'', Stats 100 0), (''sound'', Stats 100 0)], data_history = [], exceed_count = 0, total_count = 0\<rparr>" by (simp add: poly_inv_def stats_baseline_def channels_def)
  have r: "snd (update 20 [(''ekg'', VInt 100), (''sound'', VInt 100)] \<lparr>calibration_time = 15, start_time = Some 0, calibrated = True, baseline = [(''ekg'', Stats 100 0), (''gsr'', Stats 100 0), (''sound'', Stats 100 0)], data_history = [], exceed_count = 0, total_count = 0\<rparr>) = Inl (KeyError ''gsr'')"
    by (simp add: update_def score_step_def channels_def thresholds_def)
  show ?thesis using update_exceptions [OF i r] i r by blast
qed

text \<open>C21. A failed finalisation is not undone: the entries finalised before the failing one stay
  dicts, and from then on every reading raises \<open>AttributeError\<close> at
  \<open>self.baseline[k].append\<close> (line 30) without changing the baseline.  The witness
  reaches such a state from a text sample in \<open>gsr\<close>.\<close>

theorem stats_entry_raises_attribute_error:
  "\<not> calibrated p \<Longrightarrow> map_of (baseline p) ''ekg'' = Some (Stats a s) \<Longrightarrow>
   snd (update now d p) = Inl AttributeError \<and> baseline (fst (update now d p)) = baseline p"
  by (simp add: update_uncalibrated calibrate_step_def channels_def calib_append_Cons entry_or_new_def
      ensure_samples_def map_of_None_iff [symmetric])

theorem stats_entry_raises_attribute_error_witness:
  "\<not> calibrated (fst (update 15 [(''ekg'', VInt 100), (''gsr'', VInt 100), (''sound'', VInt 100)] \<lparr>calibration_time = 15, start_time = Some 0, calibrated = False, baseline = [(''ekg'', Samples [VInt 100]), (''gsr'', Samples [VStr ''x'']), (''sound'', Samples [VInt 100])], data_history = [], exceed_count = 0, total_count = 0\<rparr>)) \<and>
   map_of (baseline (fst (update 15 [(''ekg'', VInt 100), (''gsr'', VInt 100), (''sound'', VInt 100)] \<lparr>calibration_time = 15, start_time = Some 0, calibrated = False, baseline = [(''ekg'', Samples [VInt 100]), (''gsr'', Samples [VStr ''x'']), (''sound'', Samples [VInt 100])], data_history = [], exceed_count = 0, total_count = 0\<rparr>))) ''ekg'' = Some (Stats 100 0) \<and>
   snd (update 16 [(''ekg'', VInt 100), (''gsr'', VInt 100), (''sound'', VInt 100)] (fst (update 15 [(''ekg'', VInt 100), (''gsr'', VInt 100), (''sound'', VInt 100)] \<lparr>calibration_time = 15, start_time = Some 0, calibrated = False, baseline = [(''ekg'', Samples [VInt 100]), (''gsr'', Samples [VStr ''x'']), (''sound'', Samples [VInt 100])], data_history = [], exceed_count = 0, total_count = 0\<rparr>))) = Inl AttributeError \<and>
   baseline (fst (update 16 [(''ekg'', VInt 100), (''gsr'', VInt 100), (''sound'', VInt 100)] (fst (update 15 [(''ekg'', VInt 100), (''gsr'', VInt 100), (''sound'', VInt 100)] \<lparr>calibration_time = 15, start_time = Some 0, calibrated = False, baseline = [(''ekg'', Samples [VInt 100]), (''gsr'', Samples [VStr ''x'']), (''sound'', Samples [VInt 100])], data_history = [], exceed_count = 0, total_count = 0\<rparr>)))) = baseline (fst (update 15 [(''ekg'', VInt 100), (''gsr'', VInt 100), (''sound'', VInt 100)] \<lparr>calibration_time = 15, start_time = Some 0, calibrated = False, baseline = [(''ekg'', Samples [VInt 100]), (''gsr'', Samples [VStr ''x'']), (''sound'', Samples [VInt 100])], data_history = [], exceed_count = 0, total_count = 0\<rparr>))"
proof -
  have u: "update 15 [(''ekg'', VInt 100), (''gsr'', VInt 100), (''sound'', VInt 100)] \<lparr>calibration_time = 15, start_time = Some 0, calibrated = False, baseline = [(''ekg'', Samples [VInt 100]), (''gsr'', Samples [VStr ''x'']), (''sound'', Samples [VInt 100])], data_history = [], exceed_count = 0, total_count = 0\<rparr> =
     (\<lparr>calibration_time = 15, start_time = Some 0, calibrated = False, baseline = [(''ekg'', Samples [VInt 100]), (''gsr'', Samples [VStr ''x'']), (''sound'', Samples [VInt 100])], data_history = [], exceed_count = 0, total_count = 0\<rparr>\<lparr>baseline := [(''ekg'', Stats 100 0), (''gsr'', Samples [VStr ''x'', VInt 100]),
                        (''sound'', Samples [VInt 100, VInt 100])]\<rparr>, Inl TypeError)"
    by (simp add: update_def calibrate_step_def channels_def calib_append_Cons entry_or_new_def
        ensure_samples_def finalize_entry_def)
  have n: "\<not> calibrated (fst (update 15 [(''ekg'', VInt 100), (''gsr'', VInt 100), (''sound'', VInt 100)] \<lparr>calibration_time = 15, start_time = Some 0, calibrated = False, baseline = [(''ekg'', Samples [VInt 100]), (''gsr'', Samples [VStr ''x'']), (''sound'', Samples [VInt 100])], data_history = [], exceed_count = 0, total_count = 0\<rparr>))" and m: "map_of (baseline (fst (update 15 [(''ekg'', VInt 100), (''gsr'', VInt 100), (''sound'', VInt 100)] \<lparr>calibration_time = 15, start_time = Some 0, calibrated = False, baseline = [(''ekg'', Samples [VInt 100]), (''gsr'', Samples [VStr ''x'']), (''sound'', Samples [VInt 100])], data_history = [], exceed_count = 0, total_count = 0\<rparr>))) ''ekg'' = Some (Stats 100 0)"
    by (simp_all add: u)
  show ?thesis using stats_entry_raises_attribute_error [OF n m] n m by blast
qed

text \<open>C16. The history of a calibrated session holds the last 1000 readings handed to
  \<open>update\<close>, the ones whose scoring raised included.\<close>

theorem history_keeps_last_1000:
  "poly_inv p \<Longrightarrow> calibrated p \<Longrightarrow>
   data_history (fst (update_run ts p)) =
     drop (length (data_history p) + length ts - history_maxlen) (data_history p @ map snd ts)"
proof (induction ts arbitrary: p)
  case Nil
  then show ?case by (simp add: poly_inv_def)
next
  case (Cons td ts)
  obtain now d where td: "td = (now, d)" by fastforce
  obtain t where st: "start_time p = Some t" using Cons.prems poly_inv_calibrated_start by blast
  note u = update_calibrated_history [OF Cons.prems(2) st, of now d]
  have "poly_inv (fst (update now d p))" using update_inv [OF Cons.prems(1)] .
  with u Cons.IH [of "fst (update now d p)"]
  have "data_history (fst (update_run ts (fst (update now d p)))) =
          drop (length (deque_append history_maxlen (data_history p) d) + length ts - history_maxlen)
            (deque_append history_maxlen (data_history p) d @ map snd ts)"
    by simp
  also have "\<dots> = drop (length (data_history p) + Suc (length ts) - history_maxlen)
                       (data_history p @ d # map snd ts)"
    using Cons.prems(1) unfolding poly_inv_def by (intro deque_append_window) simp
  finally show ?case by (simp only: td update_run_Cons fst_conv list.map snd_conv length_Cons)
qed

theorem history_keeps_last_1000_witness:
  "poly_inv \<lparr>calibration_time = 15, start_time = Some 0, calibrated = True, baseline = [(''ekg'', Stats 100 0), (''gsr'', Stats 100 0), (''sound'', Stats 100 0)], data_history = [], exceed_count = 0, total_count = 0\<rparr> \<and> calibrated \<lparr>calibration_time = 15, start_time = Some 0, calibrated = True, baseline = [(''ekg'', Stats 100 0), (''gsr'', Stats 100 0), (''sound'', Stats 100 0)], data_history = [], exceed_count = 0, total_count = 0\<rparr> \<and>
   data_history (fst (update_run [(20, [(''ekg'', VInt 100), (''gsr'', VInt 100), (''sound'', VInt 100)]), (21, [(''ekg'', VInt 100), (''sound'', VInt 100)])] \<lparr>calibration_time = 15, start_time = Some 0, calibrated = True, baseline = [(''ekg'', Stats 100 0), (''gsr'', Stats 100 0), (''sound'', Stats 100 0)], data_history = [], exceed_count = 0, total_count = 0\<rparr>)) =
     drop (length (data_history \<lparr>calibration_time = 15, start_time = Some 0, calibrated = True, baseline = [(''ekg'', Stats 100 0), (''gsr'', Stats 100 0), (''sound'', Stats 100 0)], data_history = [], exceed_count = 0, total_count = 0\<rparr>) + length [(20::real, [(''ekg'', VInt 100), (''gsr'', VInt 100), (''sound'', VInt 100)]), (21, [(''ekg'', VInt 100), (''sound'', VInt 100)])] - history_maxlen)
       (data_history \<lparr>calibration_time = 15, start_time = Some 0, calibrated = True, baseline = [(''ekg'', Stats 100 0), (''gsr'', Stats 100 0), (''sound'', Stats 100 0)], data_history = [], exceed_count = 0, total_count = 0\<rparr> @ map snd [(20::real, [(''ekg'', VInt 100), (''gsr'', VInt 100), (''sound'', VInt 100)]), (21, [(''ekg'', VInt 100), (''sound'', VInt 100)])])"
proof -
  have i: "poly_inv \<lparr>calibration_time = 15, start_time = Some 0, calibrated = True, baseline = [(''ekg'', Stats 100 0), (''gsr'', Stats 100 0), (''sound'', Stats 100 0)], data_history = [], exceed_count = 0, total_count = 0\<rparr>" by (simp add: poly_inv_def stats_baseline_def channels_def)
  have c: "calibrated \<lparr>calibration_time = 15, start_time = Some 0, calibrated = True, baseline = [(''ekg'', Stats 100 0), (''gsr'', Stats 100 0), (''sound'', Stats 100 0)], data_history = [], exceed_count = 0, total_count = 0\<rparr>" by simp
  show ?thesis using history_keeps_last_1000 [OF i c] i c by blast
qed

end
