(* ===== verification/Spec2Isabelle.thy ===== *)
theory Spec2Isabelle
  imports Ingest Hub Session
begin

text \<open>
  Verification development of \<open>src/pythonWeb.py\<close> of PolygraphTestArduino, a lie-detector
  dashboard: a background thread reads \<open>key:value|...\<close> lines from an Arduino over a
  serial port, a \<open>Polygraph\<close> object calibrates a per-channel baseline during the first
  15 seconds and then scores each reading, every reading is pushed to the web dashboard over
  Socket.IO, and the score is relayed to an ESP32 at most every 10 seconds.

  \<^bold>\<open>Theories.\<close>
  \<^item> \<open>Prelude\<close>: Python values (\<open>pyval\<close>), dicts as association lists (\<open>dict_set\<close> is
    \<open>d[k] = v\<close>, keeping the first position of a key), exceptions as values
    (\<open>py_exc\<close>, and \<open>py_outcome\<close> pairing the state left behind with \<open>Inl\<close> the
    exception or \<open>Inr\<close> the result), and the dict lemmas shared by all components.
  \<^item> \<open>Py_Str\<close>: the string builtins the code calls (\<open>strip\<close>, \<open>lower\<close>, \<open>isdigit\<close>,
    \<open>split\<close>, \<open>int\<close> of a digit string) on Latin-1 characters, and \<open>str\<close> of an int.
  \<^item> \<open>Line_Parser\<close>: \<open>parse_line\<close> (lines 75--90) as \<open>parse_line\<close>/\<open>parse_fields\<close>/
    \<open>parse_value\<close>, with the device side \<open>format_line\<close> of the protocol.
  \<^item> \<open>Polygraph\<close>: the class \<open>Polygraph\<close> (lines 9--53) as the record \<open>polygraph\<close>;
    \<open>update\<close> is the method, split into \<open>calibrate_step\<close> (\<open>calib_append\<close> for the
    loop at lines 27--30, \<open>finalize\<close>/\<open>finalize_entry\<close> for lines 32--41) and
    \<open>score_step\<close> (\<open>count_exceed\<close> for lines 47--49); \<open>poly_inv\<close> is the session
    invariant every call preserves.
  \<^item> \<open>Calibration\<close>: the Calibration State Machine: the abstract phases
    (\<open>phase_step\<close>, an inductive relation), reachable sessions (\<open>poly_reachable\<close>,
    rule induction), the baseline computed at the end of the window, and the ways the code
    gets stuck (\<open>wedged\<close>).
  \<^item> \<open>Scoring\<close>: the Deviation Scorer as an abstract specification (\<open>spec_exceeds\<close>,
    \<open>spec_score\<close>, \<open>cumulative_score\<close>) and the refinement of it by \<open>score_step\<close>.
  \<^item> \<open>Session\<close>: properties of a session over several calls of \<open>update\<close>: the
    baseline of a constant stream, the exceptions a call can raise and the state they leave,
    and the bounded history.
  \<^item> \<open>Ingest\<close>: the Ingestion Loop and the Actuator Relay, \<open>read_serial\<close> (lines 93--137):
    one iteration is \<open>serial_step\<close> on an explicit \<open>tick\<close> of the environment (the line
    read and the three clock readings), with the effects \<open>Emit\<close> and \<open>Relay\<close>.
  \<^item> \<open>Hub\<close>: the Broadcast Hub, Socket.IO's broadcast and the handler \<open>on_connect\<close>
    (lines 145--148).
  \<^item> This theory: the whole system as an interleaving of loop iterations with client
    connections and disconnections (\<open>system_step\<close>), the loop being the only writer of the
    session and the hub its only reader.

  \<^bold>\<open>What is proved.\<close>  Parsing inverts the device's printing and returns only
  well-formed readings; a field without exactly one colon rejects the whole line.  Every
  call of \<open>update\<close> preserves the invariant; the phases only move forward; the baseline is
  the mean and population deviation of all samples; from a fresh calibration the scores are
  exactly the spec's cumulative percentages (a refinement), and lie in [0, 100]; a call
  raises only \<open>KeyError\<close> for a missing channel, \<open>TypeError\<close>, or \<open>AttributeError\<close>
  over a partly finalised baseline; the history keeps the last 1000 readings.  The loop
  writes the output device more than the cooldown apart, emits one event per successful update,
  sends \<open>0..100\<close> plus a newline, and is unaffected by bad lines; subscribers receive
  exactly the events published after they connect.  Several divergences from the
  specification are proved as theorems: a missing
  channel or a non-integer sample during calibration blocks it forever, a failed
  finalisation leaves dicts behind that make every later call raise, the cooldown is
  strict and counted from the end of the write, and a failed update publishes nothing.

  \<^bold>\<open>Modelling choices.\<close>  Floats are reals (no rounding error); \<open>round(x, 1)\<close> is half to
  even on the exact value.  \<open>time.time()\<close> is an input of each tick, so the theorems hold
  for every clock behaviour allowed by their hypotheses.  The endless \<open>while True\<close> loop is
  observed on finite sequences of ticks; no fuel is needed, as every iteration is a total
  function.  The history \<open>deque(maxlen=1000)\<close> is a list cut to its last 1000 elements.
  The aliasing of the emitted dict with the last history entry is modelled
  (\<open>annotate_history\<close>).  The relay cooldown, the constant 10 of line 124 (the comment of
  line 123 says 3 seconds), is kept in the loop state and initialised by \<open>init_ingest\<close>,
  so the relay theorems are stated for every cooldown interval.

  \<^bold>\<open>Not modelled.\<close>  Flask routes and the HTML page (pure I/O), byte decoding of the
  serial line (the model starts from the decoded string), the printing to stdout, the
  timing of blocking reads, and the transport of Socket.IO (delivery is modelled as
  immediate and in order).
\<close>

section \<open>The system: the loop and the hub\<close>

text \<open>
  The two execution contexts of spec 5: the serial thread started at lines 139--142 runs
  the loop, and the Socket.IO server accepts and drops clients.  A run of the system is any
  interleaving of their events; an iteration of the loop publishes the readings it emits
  (\<open>emitted\<close>) to the clients connected at that moment.
\<close>

datatype sys_event = Tick tick | Connect client | Disconnect client

fun emitted :: "effect list \<Rightarrow> reading list" where
  "emitted [] = []"
| "emitted (Emit d # es) = d # emitted es"
| "emitted (Relay m # es) = emitted es"

definition system_step :: "sys_event \<Rightarrow> ingest \<times> hub \<Rightarrow> ingest \<times> hub" where
  "system_step ev sh =
     (case ev of
        Tick t \<Rightarrow> (fst (serial_step t (fst sh)), fold hub_publish (emitted (snd (serial_step t (fst sh)))) (snd sh))
      | Connect c \<Rightarrow> (fst sh, on_connect c (snd sh))
      | Disconnect c \<Rightarrow> (fst sh, hub_disconnect c (snd sh)))"

fun system_run :: "sys_event list \<Rightarrow> ingest \<times> hub \<Rightarrow> ingest \<times> hub" where
  "system_run [] sh = sh"
| "system_run (ev # evs) sh = system_run evs (system_step ev sh)"

fun ticks_of :: "sys_event list \<Rightarrow> tick list" where
  "ticks_of [] = []"
| "ticks_of (Tick t # evs) = t # ticks_of evs"
| "ticks_of (Connect c # evs) = ticks_of evs"
| "ticks_of (Disconnect c # evs) = ticks_of evs"

fun touches :: "client \<Rightarrow> sys_event \<Rightarrow> bool" where
  "touches c (Tick t) = False"
| "touches c (Connect c') = (c' = c)"
| "touches c (Disconnect c') = (c' = c)"

lemma system_run_ingest: "fst (system_run evs (s, h)) = fst (serial_run (ticks_of evs) s)"
proof (induction evs arbitrary: s h)
  case Nil
  then show ?case by simp
next
  case (Cons ev evs)
  then show ?case
    by (cases ev) (simp_all add: system_step_def serial_run_Cons)
qed

lemma map_of_fold_publish:
  "map_of (subscribers (fold hub_publish ds h)) c = map_option (\<lambda>ms. ms @ map SensorData ds) (map_of (subscribers h) c)"
  by (induction ds arbitrary: h) (simp_all add: map_of_hub_publish option.map_comp comp_def option.map_ident)

lemma system_run_append: "system_run (xs @ ys) sh = system_run ys (system_run xs sh)"
  by (induction xs arbitrary: sh) simp_all

lemma system_run_subscriber:
  "\<not> list_ex (touches c) evs \<Longrightarrow> map_of (subscribers h) c = Some ms \<Longrightarrow>
   map_of (subscribers (snd (system_run evs (s, h)))) c =
     Some (ms @ map SensorData (concat (map emitted (snd (serial_run (ticks_of evs) s)))))"
proof (induction evs arbitrary: s h ms)
  case Nil
  then show ?case by simp
next
  case (Cons ev evs)
  then show ?case
    by (cases ev) (auto simp: system_step_def serial_run_Cons map_of_fold_publish map_of_on_connect
        map_of_hub_disconnect)
qed

lemma serial_step_wedged:
  assumes inv: "poly_inv (poly s)" and w: "wedged (poly s)" and st: "start_time (poly s) = Some st"
    and late: "calibration_time (poly s) \<le> t_update t - st"
  shows "snd (serial_step t s) = [] \<and> poly_inv (poly (fst (serial_step t s))) \<and>
         wedged (poly (fst (serial_step t s))) \<and> start_time (poly (fst (serial_step t s))) = Some st \<and>
         calibration_time (poly (fst (serial_step t s))) = calibration_time (poly s)"
proof (cases "tick_reading t")
  case None
  with inv w st show ?thesis by (simp add: serial_step_tick_reading)
next
  case (Some d)
  note wu = wedged_update [OF inv w, of "t_update t" d]
  with st late have "isl (snd (update (t_update t) d (poly s)))" by simp
  then obtain p e where u: "update (t_update t) d (poly s) = (p, Inl e)"
    by (cases "update (t_update t) d (poly s)") (auto simp: isl_def)
  have "poly_inv p" using update_inv [OF inv, of "t_update t" d] u by simp
  moreover have "wedged p" using wu u by simp
  moreover have "start_time p = Some st" using update_start_time [of "t_update t" d "poly s"] u st by simp
  moreover have "calibration_time p = calibration_time (poly s)"
    using update_calibration_time [of "t_update t" d "poly s"] u by simp
  ultimately show ?thesis using Some u by (simp add: serial_step_tick_reading score_and_publish_def)
qed

lemma serial_step_numeric:
  assumes cal: "calibrated (poly s)" and st: "start_time (poly s) = Some t0"
    and bl: "stats_baseline (baseline (poly s))"
    and r: "tick_reading t = Some d" and n: "numeric_reading d"
  defines "c \<equiv> (if spec_exceeds (baseline_means (baseline (poly s))) (reading_values d) then 1 else 0 :: nat)"
  shows "emitted (snd (serial_step t s)) =
           [dict_set ''maybe_lying''
              (VFloat (py_round1 (real (exceed_count (poly s) + c) / real (Suc (total_count (poly s))) * 100))) d] \<and>
         calibrated (poly (fst (serial_step t s))) \<and> start_time (poly (fst (serial_step t s))) = Some t0 \<and>
         baseline (poly (fst (serial_step t s))) = baseline (poly s) \<and>
         total_count (poly (fst (serial_step t s))) = Suc (total_count (poly s)) \<and>
         exceed_count (poly (fst (serial_step t s))) = exceed_count (poly s) + c"
  using cal st r
  by (simp add: serial_step_tick_reading score_and_publish_def update_calibrated
      score_step_numeric [OF bl n] c_def Let_def)

lemma serial_run_scores:
  assumes "calibrated (poly s)" "start_time (poly s) = Some st" "stats_baseline (baseline (poly s))"
    and "list_all (\<lambda>t. case tick_reading t of Some d \<Rightarrow> numeric_reading d | None \<Rightarrow> False) ts"
  shows "map (\<lambda>d. map_of d ''maybe_lying'') (concat (map emitted (snd (serial_run ts s)))) =
           map (\<lambda>i. Some (VFloat (py_round1 (cumulative_score (exceed_count (poly s)) (total_count (poly s))
                  (baseline_means (baseline (poly s))) (map (\<lambda>t. reading_values (the (tick_reading t))) ts) i))))
             [0..<length ts]"
  using assms
proof (induction ts arbitrary: s)
  case Nil
  then show ?case by simp
next
  case (Cons t ts)
  from Cons.prems(4) obtain d where r: "tick_reading t = Some d" and n: "numeric_reading d"
    and rest: "list_all (\<lambda>t. case tick_reading t of Some d \<Rightarrow> numeric_reading d | None \<Rightarrow> False) ts"
    by (auto split: option.splits)
  note step = serial_step_numeric [OF Cons.prems(1-3) r n]
  have "stats_baseline (baseline (poly (fst (serial_step t s))))" using step Cons.prems(3) by simp
  note ih = Cons.IH [OF conjunct1 [OF conjunct2 [OF step]] conjunct1 [OF conjunct2 [OF conjunct2 [OF step]]] this rest]
  show ?case
    using ih step r
    by (simp add: serial_run_Cons map_upt_Suc cumulative_score_Cons_0 cumulative_score_Cons_Suc
        map_of_dict_set add.assoc del: of_nat_add of_nat_Suc upt_Suc)
qed

subsection \<open>Properties of the system\<close>

text \<open>C31. No replay (spec 4.5, spec 8): a client that connects and stays connected receives the
  welcome message of \<open>on_connect\<close> and then exactly the readings the loop emits after it
  connected, each once and in order, and nothing published before.\<close>

theorem no_replay_to_late_subscriber:
  "\<not> list_ex (touches c) ys \<Longrightarrow>
   map_of (subscribers (snd (system_run (xs @ Connect c # ys) (s, h)))) c =
     Some (welcome_message # map SensorData
       (concat (map emitted (snd (serial_run (ticks_of ys) (fst (serial_run (ticks_of xs) s)))))))"
proof -
  assume ys: "\<not> list_ex (touches c) ys"
  have split: "system_run (xs @ Connect c # ys) (s, h) =
                 system_run ys (fst (system_run xs (s, h)), on_connect c (snd (system_run xs (s, h))))"
    by (simp add: system_run_append system_step_def)
  show ?thesis
    using system_run_subscriber [OF ys, of "on_connect c (snd (system_run xs (s, h)))" "[welcome_message]"]
    by (simp add: split map_of_on_connect system_run_ingest)
qed

theorem no_replay_to_late_subscriber_witness:
  "\<not> list_ex (touches 1) [Tick \<lparr>rx = Some ''ekg:200|gsr:100|sound:100'', t_update = 101, t_check = 101, t_sent = 101, esp_ok = True\<rparr>] \<and>
   map_of (subscribers (snd (system_run ([Tick \<lparr>rx = Some ''ekg:100|gsr:100|sound:100'', t_update = 100, t_check = 100, t_sent = 100, esp_ok = True\<rparr>] @ Connect 1 # [Tick \<lparr>rx = Some ''ekg:200|gsr:100|sound:100'', t_update = 101, t_check = 101, t_sent = 101, esp_ok = True\<rparr>]) (init_ingest, init_hub)))) 1 =
     Some (welcome_message # map SensorData
       (concat (map emitted (snd (serial_run (ticks_of [Tick \<lparr>rx = Some ''ekg:200|gsr:100|sound:100'', t_update = 101, t_check = 101, t_sent = 101, esp_ok = True\<rparr>])
          (fst (serial_run (ticks_of [Tick \<lparr>rx = Some ''ekg:100|gsr:100|sound:100'', t_update = 100, t_check = 100, t_sent = 100, esp_ok = True\<rparr>]) init_ingest)))))))"
proof -
  have h: "\<not> list_ex (touches 1) [Tick \<lparr>rx = Some ''ekg:200|gsr:100|sound:100'', t_update = 101, t_check = 101, t_sent = 101, esp_ok = True\<rparr>]" by simp
  show ?thesis using no_replay_to_late_subscriber [OF h] h by blast
qed

text \<open>C32. A stuck calibration freezes the whole system: once a non-numeric sample (for instance
  the text \<open>'1.5'\<close>) is in the calibration baseline and the window has passed, no later
  iteration emits or relays anything and the session never calibrates.\<close>

theorem wedged_session_goes_silent:
  "poly_inv (poly s) \<Longrightarrow> wedged (poly s) \<Longrightarrow> start_time (poly s) = Some st \<Longrightarrow>
   list_all (\<lambda>t. calibration_time (poly s) \<le> t_update t - st) ts \<Longrightarrow>
   concat (snd (serial_run ts s)) = [] \<and> \<not> calibrated (poly (fst (serial_run ts s)))"
proof (induction ts arbitrary: s)
  case Nil
  then show ?case by (simp add: wedged_def)
next
  case (Cons t ts)
  note step = serial_step_wedged [OF Cons.prems(1-3)]
  from Cons.prems(4) step have "list_all (\<lambda>t'. calibration_time (poly (fst (serial_step t s))) \<le> t_update t' - st) ts"
    by simp
  with step Cons.IH [of "fst (serial_step t s)"] Cons.prems(4) show ?case
    by (simp add: serial_run_Cons)
qed

theorem wedged_session_goes_silent_witness:
  "poly_inv (poly \<lparr>poly = \<lparr>calibration_time = 15, start_time = Some 0, calibrated = False,
        baseline = [(''ekg'', Samples [VStr ''1.5'']), (''gsr'', Samples [VInt 2]), (''sound'', Samples [VInt 3])],
        data_history = [], exceed_count = 0, total_count = 0\<rparr>, last_sent_time = 0, cooldown = 10\<rparr>) \<and>
   concat (snd (serial_run [\<lparr>rx = Some ''ekg:1|gsr:2|sound:3'', t_update = 20, t_check = 20, t_sent = 20, esp_ok = True\<rparr>]
      \<lparr>poly = \<lparr>calibration_time = 15, start_time = Some 0, calibrated = False,
        baseline = [(''ekg'', Samples [VStr ''1.5'']), (''gsr'', Samples [VInt 2]), (''sound'', Samples [VInt 3])],
        data_history = [], exceed_count = 0, total_count = 0\<rparr>, last_sent_time = 0, cooldown = 10\<rparr>)) = []"
proof -
  let ?s = "\<lparr>poly = \<lparr>calibration_time = 15, start_time = Some 0, calibrated = False,
        baseline = [(''ekg'', Samples [VStr ''1.5'']), (''gsr'', Samples [VInt 2]), (''sound'', Samples [VInt 3])],
        data_history = [], exceed_count = 0, total_count = 0\<rparr>, last_sent_time = 0, cooldown = 10\<rparr>"
  have i: "poly_inv (poly ?s)" by (simp add: poly_inv_def channels_def)
  have w: "wedged (poly ?s)" by (simp add: wedged_def finalize_entry_def)
  have l: "list_all (\<lambda>t. calibration_time (poly ?s) \<le> t_update t - 0)
             [\<lparr>rx = Some ''ekg:1|gsr:2|sound:3'', t_update = 20, t_check = 20, t_sent = 20, esp_ok = True\<rparr>]"
    by simp
  show ?thesis using wedged_session_goes_silent [OF i w _ l] i by simp
qed

text \<open>C13. End-to-end refinement of the scoring contract: from a freshly calibrated session,
  a run of ticks that each carry a fully numeric reading publishes, in order, one event per
  tick whose \<open>maybe_lying\<close> is the spec's cumulative score of the readings so far,
  rounded to one decimal.\<close>

theorem published_scores_refine_spec:
  assumes "poly_inv (poly s)" "calibrated (poly s)" "total_count (poly s) = 0"
    and "list_all (\<lambda>t. case tick_reading t of Some d \<Rightarrow> numeric_reading d | None \<Rightarrow> False) ts"
  shows "map (\<lambda>d. map_of d ''maybe_lying'') (concat (map emitted (snd (serial_run ts s)))) =
           map (\<lambda>i. Some (VFloat (py_round1 (spec_score (baseline_means (baseline (poly s)))
                  (take (Suc i) (map (\<lambda>t. reading_values (the (tick_reading t))) ts))))))
             [0..<length ts]"
proof -
  obtain st where st: "start_time (poly s) = Some st"
    using assms(1,2) poly_inv_calibrated_start by blast
  have e0: "exceed_count (poly s) = 0" using assms(1,3) by (simp add: poly_inv_def)
  from serial_run_scores [OF assms(2) st poly_inv_stats [OF assms(1,2)] assms(4)] assms(3) e0
  show ?thesis by (simp add: cumulative_score_spec)
qed

theorem published_scores_refine_spec_witness:
  "map (\<lambda>d. map_of d ''maybe_lying'') (concat (map emitted (snd (serial_run [\<lparr>rx = Some ''ekg:100|gsr:100|sound:100'', t_update = 100, t_check = 100, t_sent = 100, esp_ok = True\<rparr>, \<lparr>rx = Some ''ekg:200|gsr:100|sound:100'', t_update = 101, t_check = 101, t_sent = 101, esp_ok = True\<rparr>] \<lparr>poly = \<lparr>calibration_time = 15, start_time = Some 0, calibrated = True,
        baseline = [(''ekg'', Stats 100 0), (''gsr'', Stats 100 0), (''sound'', Stats 100 0)],
        data_history = [], exceed_count = 0, total_count = 0\<rparr>, last_sent_time = 0, cooldown = 10\<rparr>)))) =
     [Some (VFloat 0), Some (VFloat 50)]"
proof -
  have i: "poly_inv (poly \<lparr>poly = \<lparr>calibration_time = 15, start_time = Some 0, calibrated = True,
        baseline = [(''ekg'', Stats 100 0), (''gsr'', Stats 100 0), (''sound'', Stats 100 0)],
        data_history = [], exceed_count = 0, total_count = 0\<rparr>, last_sent_time = 0, cooldown = 10\<rparr>)" by (simp add: poly_inv_def stats_baseline_def channels_def)
  have c: "calibrated (poly \<lparr>poly = \<lparr>calibration_time = 15, start_time = Some 0, calibrated = True,
        baseline = [(''ekg'', Stats 100 0), (''gsr'', Stats 100 0), (''sound'', Stats 100 0)],
        data_history = [], exceed_count = 0, total_count = 0\<rparr>, last_sent_time = 0, cooldown = 10\<rparr>)" and z: "total_count (poly \<lparr>poly = \<lparr>calibration_time = 15, start_time = Some 0, calibrated = True,
        baseline = [(''ekg'', Stats 100 0), (''gsr'', Stats 100 0), (''sound'', Stats 100 0)],
        data_history = [], exceed_count = 0, total_count = 0\<rparr>, last_sent_time = 0, cooldown = 10\<rparr>) = 0" by simp_all
  have n: "list_all (\<lambda>t. case tick_reading t of Some d \<Rightarrow> numeric_reading d | None \<Rightarrow> False) [\<lparr>rx = Some ''ekg:100|gsr:100|sound:100'', t_update = 100, t_check = 100, t_sent = 100, esp_ok = True\<rparr>, \<lparr>rx = Some ''ekg:200|gsr:100|sound:100'', t_update = 101, t_check = 101, t_sent = 101, esp_ok = True\<rparr>]"
    by (simp add: tick_reading_def parse_line_def parse_value_def numeric_reading_def channels_def py_defs)
  show ?thesis
    using published_scores_refine_spec [OF i c z n]
    by (simp add: tick_reading_def parse_line_def parse_value_def reading_values_def baseline_means_def
        spec_score_def spec_exceeds_def spec_threshold_def channels_def py_round1_def round_half_even_def py_defs)
qed

end
